(* ===== verification/Prelude.thy ===== *)
theory Prelude
  imports Main "HOL-Library.Word" "HOL-Library.AList" "HOL-Library.Sublist"
begin

text \<open>
  Shared vocabulary of the development: names for the machine types of the Rust code, the
  instants and durations of chrono and \<open>std::time\<close>, the store in which \<open>Arc<RwLock<_>>\<close> cells
  live, the hash map and hash set operations the sources use, and the generic lemmas the
  component theories lean on.

  \<^item> \<open>DateTime<Utc>\<close> is the number of nanoseconds since the epoch (an \<open>int\<close>), \<open>Duration\<close> a
    number of nanoseconds (a \<open>nat\<close>). chrono panics outside its representable range of about
    262000 years around the epoch; instants here are inside it.
  \<^item> \<open>usize\<close> is 64 bits wide. Where a counter can reach its bound it is kept as a word; where a
    value is only a length or a configured limit it is a \<open>nat\<close>.
  \<^item> A \<open>HashMap\<close> that is only looked up and updated is a map \<open>'k \<rightharpoonup> 'v\<close>. A \<open>HashMap\<close> or \<open>HashSet\<close>
    that the code iterates over is an association list with distinct keys, or a distinct list,
    whose order is the iteration order. That order is unspecified in Rust; the theorems
    speak about the contents, never about the order.
  \<^item> An \<open>Arc<RwLock<T>>\<close> is an address into a store, a list of cells: cloning the \<open>Arc\<close> copies
    the address, so all clones see a write. Allocation appends a cell.
\<close>

section \<open>Types\<close>

type_synonym u8 = "8 word"
type_synonym u32 = "32 word"
type_synonym u64 = "64 word"
type_synonym usize = "64 word"
type_synonym uuid = "128 word"
type_synonym client_id = string
type_synonym datetime = int
type_synonym duration = nat
type_synonym path = string
type_synonym data_hash = "u8 list"
type_synonym addr = nat
type_synonym 'a store = "'a list"

abbreviation from_secs :: "nat \<Rightarrow> duration" where
  "from_secs n \<equiv> n * 1000000000"

section \<open>Collections of facts\<close>

named_theorems inv_intros \<open>preservation of the components' invariants\<close>
named_theorems frame_simps \<open>fields and maps an operation leaves unchanged\<close>

section \<open>Stores\<close>

definition alloc :: "'a store \<Rightarrow> 'a \<Rightarrow> addr \<times> 'a store" where
  "alloc st x = (length st, st @ [x])"

definition valid_addr :: "'a store \<Rightarrow> addr \<Rightarrow> bool" where
  "valid_addr st a \<longleftrightarrow> a < length st"

section \<open>Hash maps and hash sets that are iterated\<close>

text \<open>\<open>entry(k).or_default()\<close> with the default \<open>d\<close>, followed by an update of the value.\<close>

definition entry_update :: "'v \<Rightarrow> 'k \<Rightarrow> ('v \<Rightarrow> 'v) \<Rightarrow> ('k \<times> 'v) list \<Rightarrow> ('k \<times> 'v) list" where
  "entry_update d k f m =
     AList.update k (f (case map_of m k of None \<Rightarrow> d | Some v \<Rightarrow> v)) m"

text \<open>\<open>HashMap::retain\<close>, where the closure may also change the value it keeps.\<close>

fun retain_map :: "('k \<Rightarrow> 'v \<Rightarrow> 'v option) \<Rightarrow> ('k \<times> 'v) list \<Rightarrow> ('k \<times> 'v) list" where
  "retain_map f [] = []"
| "retain_map f ((k, v) # m) =
     (case f k v of None \<Rightarrow> retain_map f m | Some v' \<Rightarrow> (k, v') # retain_map f m)"

abbreviation map_wf :: "('k \<times> 'v) list \<Rightarrow> bool" where
  "map_wf m \<equiv> distinct (map fst m)"

section \<open>Results\<close>

text \<open>\<open>Result<T, E>\<close> is the sum \<open>'e + 'a\<close> with \<open>Inl\<close> for \<open>Err\<close>; \<open>ok_or\<close> and the operator \<open>?\<close>.\<close>

definition ok_or :: "'e \<Rightarrow> 'a option \<Rightarrow> 'e + 'a" where
  "ok_or e x = (case x of None \<Rightarrow> Inl e | Some v \<Rightarrow> Inr v)"

fun try_bind :: "'e + 'a \<Rightarrow> ('a \<Rightarrow> 'e + 'b) \<Rightarrow> 'e + 'b" where
  "try_bind (Inl e) f = Inl e"
| "try_bind (Inr x) f = f x"

text \<open>The error of the builders, with the name of the field that was not set.\<close>

datatype builder_error = MissingField string

section \<open>Generic lemmas\<close>

lemma ok_or_simps [simp]: "ok_or e None = Inl e" "ok_or e (Some x) = Inr x"
  by (simp_all add: ok_or_def)

lemma try_bind_Inr: "try_bind r f = Inr y \<longleftrightarrow> (\<exists>x. r = Inr x \<and> f x = Inr y)"
  by (cases r) simp_all

lemma alloc_fst [simp]: "fst (alloc st x) = length st"
  by (simp add: alloc_def)

lemma alloc_read [simp]: "snd (alloc st x) ! length st = x"
  by (simp add: alloc_def)

lemma alloc_read_old [simp]: "valid_addr st a \<Longrightarrow> snd (alloc st x) ! a = st ! a"
  by (simp add: alloc_def valid_addr_def nth_append)

lemma valid_addr_alloc [simp]: "valid_addr (snd (alloc st x)) a \<longleftrightarrow> a = length st \<or> valid_addr st a"
  by (auto simp: alloc_def valid_addr_def)

lemma valid_addr_update [simp]: "valid_addr (st[b := x]) a \<longleftrightarrow> valid_addr st a"
  by (simp add: valid_addr_def)

lemma map_of_entry_update [simp]:
  "map_of (entry_update d k f m) =
     (map_of m)(k \<mapsto> f (case map_of m k of None \<Rightarrow> d | Some v \<Rightarrow> v))"
  by (simp add: entry_update_def update_conv')

lemma map_wf_entry_update [simp]: "map_wf m \<Longrightarrow> map_wf (entry_update d k f m)"
  by (simp add: entry_update_def distinct_update)

lemma set_retain_map: "(k, v') \<in> set (retain_map f m) \<longleftrightarrow> (\<exists>v. (k, v) \<in> set m \<and> f k v = Some v')"
  by (induction f m rule: retain_map.induct) (auto split: option.splits)

lemma keys_retain_map: "set (map fst (retain_map f m)) \<subseteq> set (map fst m)"
  by (induction f m rule: retain_map.induct) (auto split: option.splits)

lemma map_wf_retain_map [simp]: "map_wf m \<Longrightarrow> map_wf (retain_map f m)"
proof (induction f m rule: retain_map.induct)
  case (2 f k v m)
  then show ?case using keys_retain_map [of f m] by (auto split: option.splits)
qed simp

lemma map_of_retain_map:
  assumes "map_wf m"
  shows "map_of (retain_map f m) k = Option.bind (map_of m k) (f k)"
proof (cases "map_of m k")
  case None
  then have "k \<notin> set (map fst m)" by (simp add: map_of_eq_None_iff)
  with keys_retain_map [of f m] have "k \<notin> set (map fst (retain_map f m))" by blast
  then have "map_of (retain_map f m) k = None" by (simp add: map_of_eq_None_iff)
  with None show ?thesis by simp
next
  case (Some v)
  with assms have mem: "(k, w) \<in> set m \<longleftrightarrow> w = v" for w
    using map_of_eq_Some_iff [OF assms, of k w] by auto
  have wf: "map_wf (retain_map f m)" using assms by simp
  show ?thesis
  proof (cases "f k v")
    case None
    with mem have "k \<notin> fst ` set (retain_map f m)" by (auto simp: set_retain_map)
    with Some None show ?thesis by (simp add: map_of_eq_None_iff)
  next
    case (Some v')
    with mem have "(k, v') \<in> set (retain_map f m)" by (auto simp: set_retain_map)
    with wf have "map_of (retain_map f m) k = Some v'" by simp
    with \<open>map_of m k = Some v\<close> Some show ?thesis by simp
  qed
qed

lemma filter_take_le: "length (take n (filter P xs)) \<le> n"
  by simp

lemma sorted_wrt_dropWhile_filter:
  assumes "sorted_wrt (\<lambda>x y. f x \<ge> f y) xs"
  shows "takeWhile (\<lambda>x. (t::'b::linorder) \<le> f x) xs = filter (\<lambda>x. t \<le> f x) xs"
  using assms
proof (induction xs)
  case (Cons x xs)
  show ?case
  proof (cases "t \<le> f x")
    case True
    with Cons show ?thesis by simp
  next
    case False
    with Cons.prems have "\<forall>y \<in> set xs. \<not> t \<le> f y" by auto
    then have "filter (\<lambda>x. t \<le> f x) xs = []" by (simp add: filter_empty_conv)
    with False show ?thesis by simp
  qed
qed simp

end
