(* ===== verification/Player.thy ===== *)
theory Player
  imports Prelude
begin

text \<open>
  The player module (\<open>src/src/player.rs\<close>): the traits \<open>PlayerInfo\<close> and \<open>PlayerMutator\<close>, which the
  application implements for its own player type, and the \<open>PlayerRegistry\<close>, which finds a
  player by UUID and by NFC UID through two maps that share \<open>Arc<RwLock<Player>>\<close> cells. The
  traits are a record of operations that every generic function takes as an argument; what
  the framework relies on is the locale \<open>player_traits\<close>, interpreted on the two players of
  the repository (\<open>MockPlayer\<close> of \<open>src/src/test_utils.rs\<close> and \<open>Player\<close> of the simple example).
  The registry works on a store of player cells; its invariant \<open>registry_wf\<close> says that the two
  maps agree, and the locale \<open>player_directory\<close> is the contract it offers its clients.
\<close>

section \<open>The traits\<close>

record ('p, 'n) player_ops =
  player_uuid :: "'p \<Rightarrow> uuid"
  nfc_uid :: "'p \<Rightarrow> 'n"
  total_bloops :: "'p \<Rightarrow> usize"
  awarded_achievements :: "'p \<Rightarrow> (uuid \<rightharpoonup> datetime)"
  increment_bloops :: "'p \<Rightarrow> 'p"
  add_awarded_achievement :: "uuid \<Rightarrow> datetime \<Rightarrow> 'p \<Rightarrow> 'p"

section \<open>The registry\<close>

record 'n player_registry =
  by_id :: "uuid \<rightharpoonup> addr"
  by_nfc_uid :: "'n \<rightharpoonup> addr"

type_synonym ('p, 'n) players = "'p store \<times> 'n player_registry"

definition empty_registry :: "'n player_registry" where
  "empty_registry = \<lparr>by_id = Map.empty, by_nfc_uid = Map.empty\<rparr>"

definition registry_add :: "('p, 'n) player_ops \<Rightarrow> 'p \<Rightarrow> ('p, 'n) players \<Rightarrow> ('p, 'n) players" where
  "registry_add ops p w =
     (let (st, reg) = w; (a, st') = alloc st p
      in (st', reg\<lparr>by_id := (by_id reg)(player_uuid ops p \<mapsto> a),
                   by_nfc_uid := (by_nfc_uid reg)(nfc_uid ops p \<mapsto> a)\<rparr>))"

definition registry_new :: "('p, 'n) player_ops \<Rightarrow> 'p list \<Rightarrow> 'p store \<Rightarrow> ('p, 'n) players" where
  "registry_new ops ps st = fold (registry_add ops) ps (st, empty_registry)"

definition get_by_id :: "('p, 'n) players \<Rightarrow> uuid \<Rightarrow> addr option" where
  "get_by_id w i = by_id (snd w) i"

definition get_by_nfc_uid :: "('p, 'n) players \<Rightarrow> 'n \<Rightarrow> addr option" where
  "get_by_nfc_uid w n = by_nfc_uid (snd w) n"

definition read_by_id :: "('p, 'n) players \<Rightarrow> uuid \<Rightarrow> 'p option" where
  "read_by_id w i = map_option (\<lambda>a. fst w ! a) (by_id (snd w) i)"

definition read_by_nfc_uid :: "('p, 'n) players \<Rightarrow> 'n \<Rightarrow> 'p option" where
  "read_by_nfc_uid w n = map_option (\<lambda>a. fst w ! a) (by_nfc_uid (snd w) n)"

definition contains_id :: "('p, 'n) players \<Rightarrow> uuid \<Rightarrow> bool" where
  "contains_id w i \<longleftrightarrow> by_id (snd w) i \<noteq> None"

definition mutate_by_id ::
  "('p, 'n) player_ops \<Rightarrow> uuid \<Rightarrow> ('p \<Rightarrow> 'p) \<Rightarrow> ('p, 'n) players \<Rightarrow> ('p, 'n) players" where
  "mutate_by_id ops i mutator w =
     (let (st, reg) = w in
      case by_id reg i of
        None \<Rightarrow> (st, reg)
      | Some a \<Rightarrow>
          (let old_nfc_uid = nfc_uid ops (st ! a);
               p = mutator (st ! a);
               new_nfc_uid = nfc_uid ops p
           in (st[a := p],
               if old_nfc_uid \<noteq> new_nfc_uid
               then reg\<lparr>by_nfc_uid := (by_nfc_uid reg)(old_nfc_uid := None, new_nfc_uid \<mapsto> a)\<rparr>
               else reg)))"

definition registry_remove ::
  "('p, 'n) player_ops \<Rightarrow> uuid \<Rightarrow> ('p, 'n) players \<Rightarrow> ('p, 'n) players" where
  "registry_remove ops i w =
     (let (st, reg) = w in
      case by_id reg i of
        None \<Rightarrow> (st, reg)
      | Some a \<Rightarrow>
          (st, reg\<lparr>by_id := (by_id reg)(i := None),
                   by_nfc_uid := (by_nfc_uid reg)(nfc_uid ops (st ! a) := None)\<rparr>))"

section \<open>The players of the repository\<close>

record 'n mock_player =
  mock_id :: uuid
  mock_nfc_uid :: 'n
  mock_name :: string
  bloops_count :: usize
  mock_awarded :: "uuid \<rightharpoonup> datetime"
  registration_number :: nat

definition mock_player_ops :: "('n mock_player, 'n) player_ops" where
  "mock_player_ops =
     \<lparr>player_uuid = mock_id, nfc_uid = mock_nfc_uid, total_bloops = bloops_count,
      awarded_achievements = mock_awarded,
      increment_bloops = (\<lambda>p. p\<lparr>bloops_count := bloops_count p + 1\<rparr>),
      add_awarded_achievement =
        (\<lambda>ach at p. p\<lparr>mock_awarded := (mock_awarded p)(ach \<mapsto> at)\<rparr>)\<rparr>"

record 'n example_player =
  example_id :: uuid
  example_nfc_uid :: 'n
  example_total_bloops :: usize
  example_awarded_achievements :: "uuid \<rightharpoonup> datetime"

definition example_player_ops :: "('n example_player, 'n) player_ops" where
  "example_player_ops =
     \<lparr>player_uuid = example_id, nfc_uid = example_nfc_uid,
      total_bloops = example_total_bloops,
      awarded_achievements = example_awarded_achievements,
      increment_bloops = (\<lambda>p. p\<lparr>example_total_bloops := example_total_bloops p + 1\<rparr>),
      add_awarded_achievement =
        (\<lambda>ach at p. p\<lparr>example_awarded_achievements :=
                        (example_awarded_achievements p)(ach \<mapsto> at)\<rparr>)\<rparr>"

section \<open>The invariant and the abstract directory\<close>

text \<open>
  The two maps agree: every cell found by UUID holds a player with that UUID and is the cell
  found by that player's NFC UID, and the other way round.
\<close>

definition registry_wf :: "('p, 'n) player_ops \<Rightarrow> ('p, 'n) players \<Rightarrow> bool" where
  "registry_wf ops w \<longleftrightarrow>
     (\<forall>i a. by_id (snd w) i = Some a \<longrightarrow>
        valid_addr (fst w) a \<and> player_uuid ops (fst w ! a) = i \<and>
        by_nfc_uid (snd w) (nfc_uid ops (fst w ! a)) = Some a) \<and>
     (\<forall>n a. by_nfc_uid (snd w) n = Some a \<longrightarrow>
        valid_addr (fst w) a \<and> nfc_uid ops (fst w ! a) = n \<and>
        by_id (snd w) (player_uuid ops (fst w ! a)) = Some a)"

definition nfc_free :: "('p, 'n) player_ops \<Rightarrow> ('p, 'n) players \<Rightarrow> 'n \<Rightarrow> bool" where
  "nfc_free ops w n \<longleftrightarrow> by_nfc_uid (snd w) n = None"

locale player_traits =
  fixes ops :: "('p, 'n) player_ops"
  assumes inc_id: "player_uuid ops (increment_bloops ops p) = player_uuid ops p"
    and inc_nfc: "nfc_uid ops (increment_bloops ops p) = nfc_uid ops p"
    and inc_total: "total_bloops ops (increment_bloops ops p) = total_bloops ops p + 1"
    and inc_awarded:
      "awarded_achievements ops (increment_bloops ops p) = awarded_achievements ops p"
    and award_id: "player_uuid ops (add_awarded_achievement ops ach at p) = player_uuid ops p"
    and award_nfc: "nfc_uid ops (add_awarded_achievement ops ach at p) = nfc_uid ops p"
    and award_total:
      "total_bloops ops (add_awarded_achievement ops ach at p) = total_bloops ops p"
    and award_awarded:
      "awarded_achievements ops (add_awarded_achievement ops ach at p) =
         (awarded_achievements ops p)(ach \<mapsto> at)"
begin

lemmas trait_simps = inc_id inc_nfc inc_total inc_awarded award_id award_nfc award_total
  award_awarded

lemma fold_award_keeps:
  "player_uuid ops (fold (\<lambda>a. add_awarded_achievement ops a t) achs p) = player_uuid ops p"
  "nfc_uid ops (fold (\<lambda>a. add_awarded_achievement ops a t) achs p) = nfc_uid ops p"
  "total_bloops ops (fold (\<lambda>a. add_awarded_achievement ops a t) achs p) = total_bloops ops p"
  by (induction achs arbitrary: p) (simp_all add: trait_simps)

lemma fold_award_awarded:
  "awarded_achievements ops (fold (\<lambda>a. add_awarded_achievement ops a t) achs p) =
     (\<lambda>a. if a \<in> set achs then Some t else awarded_achievements ops p a)"
  by (induction achs arbitrary: p) (auto simp: trait_simps)

end

interpretation mock: player_traits mock_player_ops
  by unfold_locales (simp_all add: mock_player_ops_def)

interpretation example: player_traits example_player_ops
  by unfold_locales (simp_all add: example_player_ops_def)

text \<open>
  What the registry promises its clients, over the abstract directory \<open>dir w\<close> from UUIDs to
  players: lookups by NFC UID find exactly the players of the directory, and each operation
  acts on the directory as its documentation says.
\<close>

locale player_directory =
  fixes pid :: "'p \<Rightarrow> uuid"
    and pnfc :: "'p \<Rightarrow> 'n"
    and invar :: "'w \<Rightarrow> bool"
    and dir :: "'w \<Rightarrow> uuid \<Rightarrow> 'p option"
    and find_nfc :: "'w \<Rightarrow> 'n \<Rightarrow> 'p option"
    and add :: "'p \<Rightarrow> 'w \<Rightarrow> 'w"
    and remove :: "uuid \<Rightarrow> 'w \<Rightarrow> 'w"
    and mutate :: "uuid \<Rightarrow> ('p \<Rightarrow> 'p) \<Rightarrow> 'w \<Rightarrow> 'w"
  assumes find_dir: "invar w \<Longrightarrow> find_nfc w n = Some p \<longleftrightarrow> pnfc p = n \<and> dir w (pid p) = Some p"
    and dir_id: "invar w \<Longrightarrow> dir w i = Some p \<Longrightarrow> pid p = i"
    and add_invar: "invar w \<Longrightarrow> dir w (pid p) = None \<Longrightarrow> find_nfc w (pnfc p) = None \<Longrightarrow>
      invar (add p w)"
    and add_dir: "invar w \<Longrightarrow> dir (add p w) = (dir w)(pid p \<mapsto> p)"
    and remove_invar: "invar w \<Longrightarrow> invar (remove i w)"
    and remove_dir: "invar w \<Longrightarrow> dir (remove i w) = (dir w)(i := None)"
    and mutate_invar: "invar w \<Longrightarrow> dir w i = Some p \<Longrightarrow> pid (f p) = i \<Longrightarrow>
      pnfc (f p) = pnfc p \<or> find_nfc w (pnfc (f p)) = None \<Longrightarrow> invar (mutate i f w)"
    and mutate_dir: "invar w \<Longrightarrow> dir w i = Some p \<Longrightarrow> dir (mutate i f w) = (dir w)(i \<mapsto> f p)"
    and mutate_absent: "dir w i = None \<Longrightarrow> mutate i f w = w"
begin

lemma nfc_unique:
  assumes "invar w" "dir w i = Some p" "dir w j = Some q" "pnfc p = pnfc q"
  shows "i = j"
proof -
  have i: "pid p = i" and j: "pid q = j" using assms dir_id by blast+
  have "find_nfc w (pnfc p) = Some p" using find_dir [OF assms(1), of "pnfc p" p] assms i by simp
  moreover have "find_nfc w (pnfc p) = Some q"
    using find_dir [OF assms(1), of "pnfc p" q] assms j by simp
  ultimately show ?thesis using i j by simp
qed

lemma find_add:
  assumes "invar w" "dir w (pid p) = None" "find_nfc w (pnfc p) = None"
  shows "find_nfc (add p w) (pnfc p) = Some p"
  using find_dir [OF add_invar [OF assms]] add_dir [OF assms(1)] by simp

lemma find_remove:
  assumes "invar w" "dir w i = Some p"
  shows "find_nfc (remove i w) (pnfc p) = None"
proof (rule ccontr)
  assume "find_nfc (remove i w) (pnfc p) \<noteq> None"
  then obtain q where q: "find_nfc (remove i w) (pnfc p) = Some q" by blast
  then have eq: "pnfc q = pnfc p" and dq: "dir (remove i w) (pid q) = Some q"
    using find_dir [OF remove_invar [OF assms(1)]] by auto
  from dq have ne: "pid q \<noteq> i" and "dir w (pid q) = Some q"
    by (auto simp: remove_dir [OF assms(1)] split: if_splits)
  with nfc_unique [OF assms(1,2) _ eq [symmetric]] show False by simp
qed

lemma find_mutate_moved:
  assumes "invar w" "dir w i = Some p" "pid (f p) = i" "find_nfc w (pnfc (f p)) = None"
  shows "find_nfc (mutate i f w) (pnfc (f p)) = Some (f p)"
    and "find_nfc (mutate i f w) (pnfc p) = None"
proof -
  have inv: "invar (mutate i f w)" using mutate_invar [of w i p f] assms by simp
  show "find_nfc (mutate i f w) (pnfc (f p)) = Some (f p)"
    using find_dir [OF inv] mutate_dir [OF assms(1,2)] assms(3) by simp
  have found: "find_nfc w (pnfc p) = Some p"
    using find_dir [OF assms(1)] assms(2) dir_id [OF assms(1,2)] by simp
  with assms(4) have moved: "pnfc (f p) \<noteq> pnfc p" by auto
  show "find_nfc (mutate i f w) (pnfc p) = None"
  proof (rule ccontr)
    assume "find_nfc (mutate i f w) (pnfc p) \<noteq> None"
    then obtain q where "find_nfc (mutate i f w) (pnfc p) = Some q" by blast
    then have eq: "pnfc q = pnfc p" and dq: "dir (mutate i f w) (pid q) = Some q"
      using find_dir [OF inv] by auto
    with moved have ne: "pid q \<noteq> i" and dq': "dir w (pid q) = Some q"
      by (auto simp: mutate_dir [OF assms(1,2)] split: if_splits)
    with nfc_unique [OF assms(1,2) dq' eq [symmetric]] show False by simp
  qed
qed

end

section \<open>The registry keeps its contract\<close>

lemmas registry_defs = registry_add_def registry_remove_def mutate_by_id_def read_by_id_def
  read_by_nfc_uid_def get_by_id_def get_by_nfc_uid_def contains_id_def alloc_def

lemma registry_wfI:
  assumes "\<And>i a. by_id (snd w) i = Some a \<Longrightarrow>
      valid_addr (fst w) a \<and> player_uuid ops (fst w ! a) = i \<and>
      by_nfc_uid (snd w) (nfc_uid ops (fst w ! a)) = Some a"
    and "\<And>n a. by_nfc_uid (snd w) n = Some a \<Longrightarrow>
      valid_addr (fst w) a \<and> nfc_uid ops (fst w ! a) = n \<and>
      by_id (snd w) (player_uuid ops (fst w ! a)) = Some a"
  shows "registry_wf ops w"
  using assms unfolding registry_wf_def by blast

lemma registry_wf_idD:
  assumes "registry_wf ops w" "by_id (snd w) i = Some a"
  shows "valid_addr (fst w) a" "player_uuid ops (fst w ! a) = i"
    "by_nfc_uid (snd w) (nfc_uid ops (fst w ! a)) = Some a"
  using assms unfolding registry_wf_def by blast+

lemma registry_wf_nfcD:
  assumes "registry_wf ops w" "by_nfc_uid (snd w) n = Some a"
  shows "valid_addr (fst w) a" "nfc_uid ops (fst w ! a) = n"
    "by_id (snd w) (player_uuid ops (fst w ! a)) = Some a"
  using assms unfolding registry_wf_def by blast+

lemma registry_wf_empty [simp]: "registry_wf ops (st, empty_registry)"
  by (simp add: registry_wf_def empty_registry_def)

lemma read_by_nfc_uid_iff:
  assumes "registry_wf ops w"
  shows "read_by_nfc_uid w n = Some p \<longleftrightarrow>
    nfc_uid ops p = n \<and> read_by_id w (player_uuid ops p) = Some p"
proof
  assume "read_by_nfc_uid w n = Some p"
  then obtain a where a: "by_nfc_uid (snd w) n = Some a" and p: "p = fst w ! a"
    by (auto simp: read_by_nfc_uid_def)
  with registry_wf_nfcD [OF assms a]
  show "nfc_uid ops p = n \<and> read_by_id w (player_uuid ops p) = Some p"
    by (simp add: read_by_id_def)
next
  assume h: "nfc_uid ops p = n \<and> read_by_id w (player_uuid ops p) = Some p"
  then obtain a where a: "by_id (snd w) (player_uuid ops p) = Some a" and p: "p = fst w ! a"
    by (auto simp: read_by_id_def)
  with registry_wf_idD [OF assms a] h show "read_by_nfc_uid w n = Some p"
    by (auto simp: read_by_nfc_uid_def)
qed

lemma registry_add_simps:
  "fst (registry_add ops p w) = fst w @ [p]"
  "by_id (snd (registry_add ops p w)) = (by_id (snd w))(player_uuid ops p \<mapsto> length (fst w))"
  "by_nfc_uid (snd (registry_add ops p w)) =
     (by_nfc_uid (snd w))(nfc_uid ops p \<mapsto> length (fst w))"
  by (cases w; simp add: registry_add_def alloc_def)+

lemma registry_wf_add:
  assumes "registry_wf ops w" "by_id (snd w) (player_uuid ops p) = None"
    "by_nfc_uid (snd w) (nfc_uid ops p) = None"
  shows "registry_wf ops (registry_add ops p w)"
proof (rule registry_wfI)
  let ?w' = "registry_add ops p w"
  fix i a
  assume a: "by_id (snd ?w') i = Some a"
  show "valid_addr (fst ?w') a \<and> player_uuid ops (fst ?w' ! a) = i \<and>
    by_nfc_uid (snd ?w') (nfc_uid ops (fst ?w' ! a)) = Some a"
  proof (cases "i = player_uuid ops p")
    case False
    with a have old: "by_id (snd w) i = Some a" by (simp add: registry_add_simps)
    note wf = registry_wf_idD [OF assms(1) old]
    with assms(3) have "nfc_uid ops (fst w ! a) \<noteq> nfc_uid ops p" by auto
    with wf show ?thesis by (simp add: registry_add_simps valid_addr_def nth_append)
  qed (use a in \<open>auto simp: registry_add_simps valid_addr_def\<close>)
next
  let ?w' = "registry_add ops p w"
  fix n a
  assume a: "by_nfc_uid (snd ?w') n = Some a"
  show "valid_addr (fst ?w') a \<and> nfc_uid ops (fst ?w' ! a) = n \<and>
    by_id (snd ?w') (player_uuid ops (fst ?w' ! a)) = Some a"
  proof (cases "n = nfc_uid ops p")
    case False
    with a have old: "by_nfc_uid (snd w) n = Some a" by (simp add: registry_add_simps)
    note wf = registry_wf_nfcD [OF assms(1) old]
    with assms(2) have "player_uuid ops (fst w ! a) \<noteq> player_uuid ops p" by auto
    with wf show ?thesis by (simp add: registry_add_simps valid_addr_def nth_append)
  qed (use a in \<open>auto simp: registry_add_simps valid_addr_def\<close>)
qed

lemma read_by_id_add:
  assumes "registry_wf ops w"
  shows "read_by_id (registry_add ops p w) = (read_by_id w)(player_uuid ops p \<mapsto> p)"
proof
  fix i
  show "read_by_id (registry_add ops p w) i = ((read_by_id w)(player_uuid ops p \<mapsto> p)) i"
    using registry_wf_idD(1) [OF assms, of i]
    by (cases "by_id (snd w) i")
      (auto simp: registry_add_simps read_by_id_def valid_addr_def nth_append)
qed

lemma registry_wf_remove:
  assumes "registry_wf ops w"
  shows "registry_wf ops (registry_remove ops i w)"
proof (cases "by_id (snd w) i")
  case None
  with assms show ?thesis by (cases w) (simp add: registry_remove_def)
next
  case (Some a)
  note wf = registry_wf_idD [OF assms Some]
  let ?w' = "registry_remove ops i w"
  have w': "fst ?w' = fst w" "by_id (snd ?w') = (by_id (snd w))(i := None)"
    "by_nfc_uid (snd ?w') = (by_nfc_uid (snd w))(nfc_uid ops (fst w ! a) := None)"
    using Some by (cases w; simp add: registry_remove_def)+
  show ?thesis
  proof (rule registry_wfI)
    fix j b
    assume b: "by_id (snd ?w') j = Some b"
    then have old: "by_id (snd w) j = Some b" and ne: "j \<noteq> i" by (auto simp: w' split: if_splits)
    note wfb = registry_wf_idD [OF assms old]
    have "nfc_uid ops (fst w ! b) \<noteq> nfc_uid ops (fst w ! a)"
    proof
      assume "nfc_uid ops (fst w ! b) = nfc_uid ops (fst w ! a)"
      with wf(3) wfb(3) have "b = a" by simp
      with wf(2) wfb(2) ne show False by simp
    qed
    with wfb show "valid_addr (fst ?w') b \<and> player_uuid ops (fst ?w' ! b) = j \<and>
      by_nfc_uid (snd ?w') (nfc_uid ops (fst ?w' ! b)) = Some b"
      by (simp add: w')
  next
    fix n b
    assume b: "by_nfc_uid (snd ?w') n = Some b"
    then have old: "by_nfc_uid (snd w) n = Some b" and ne: "n \<noteq> nfc_uid ops (fst w ! a)"
      by (auto simp: w' split: if_splits)
    note wfb = registry_wf_nfcD [OF assms old]
    have "player_uuid ops (fst w ! b) \<noteq> i"
    proof
      assume "player_uuid ops (fst w ! b) = i"
      with wfb(3) Some have "b = a" by simp
      with wfb(2) ne show False by simp
    qed
    with wfb show "valid_addr (fst ?w') b \<and> nfc_uid ops (fst ?w' ! b) = n \<and>
      by_id (snd ?w') (player_uuid ops (fst ?w' ! b)) = Some b"
      by (simp add: w')
  qed
qed

lemma read_by_id_remove: "read_by_id (registry_remove ops i w) = (read_by_id w)(i := None)"
  by (cases w; cases "by_id (snd w) i") (auto simp: registry_remove_def read_by_id_def)

lemma by_id_inj:
  assumes "registry_wf ops w" "by_id (snd w) i = Some a" "by_id (snd w) j = Some a"
  shows "i = j"
  using registry_wf_idD(2) [OF assms(1,2)] registry_wf_idD(2) [OF assms(1,3)] by simp

lemma by_nfc_inj:
  assumes "registry_wf ops w" "by_nfc_uid (snd w) m = Some a" "by_nfc_uid (snd w) n = Some a"
  shows "m = n"
  using registry_wf_nfcD(2) [OF assms(1,2)] registry_wf_nfcD(2) [OF assms(1,3)] by simp

lemma mutate_by_id_Some:
  assumes "by_id (snd w) i = Some a"
  shows "fst (mutate_by_id ops i f w) = (fst w)[a := f (fst w ! a)]"
    and "by_id (snd (mutate_by_id ops i f w)) = by_id (snd w)"
    and "by_nfc_uid (snd (mutate_by_id ops i f w)) =
      (if nfc_uid ops (fst w ! a) \<noteq> nfc_uid ops (f (fst w ! a))
       then (by_nfc_uid (snd w))(nfc_uid ops (fst w ! a) := None,
              nfc_uid ops (f (fst w ! a)) \<mapsto> a)
       else by_nfc_uid (snd w))"
  using assms by (cases w; simp add: mutate_by_id_def Let_def)+

lemma mutate_by_id_None: "by_id (snd w) i = None \<Longrightarrow> mutate_by_id ops i f w = w"
  by (cases w) (simp add: mutate_by_id_def)

lemma registry_wf_mutate:
  assumes wf: "registry_wf ops w" and a: "by_id (snd w) i = Some a"
    and pid: "player_uuid ops (f (fst w ! a)) = i"
    and free: "nfc_uid ops (f (fst w ! a)) = nfc_uid ops (fst w ! a) \<or>
      by_nfc_uid (snd w) (nfc_uid ops (f (fst w ! a))) = None"
  shows "registry_wf ops (mutate_by_id ops i f w)"
proof -
  let ?w' = "mutate_by_id ops i f w"
  note w' = mutate_by_id_Some [OF a, of ops f]
  note wa = registry_wf_idD [OF wf a]
  show ?thesis
  proof (rule registry_wfI)
    fix j b
    assume "by_id (snd ?w') j = Some b"
    then have old: "by_id (snd w) j = Some b" by (simp add: w')
    note wb = registry_wf_idD [OF wf old]
    show "valid_addr (fst ?w') b \<and> player_uuid ops (fst ?w' ! b) = j \<and>
      by_nfc_uid (snd ?w') (nfc_uid ops (fst ?w' ! b)) = Some b"
    proof (cases "b = a")
      case True
      with old a by_id_inj [OF wf] have "j = i" by blast
      with True wa pid show ?thesis by (auto simp: w' valid_addr_def)
    next
      case False
      with wa wb have "nfc_uid ops (fst w ! b) \<noteq> nfc_uid ops (fst w ! a)" by auto
      with False wb free show ?thesis by (auto simp: w' valid_addr_def)
    qed
  next
    fix n b
    assume b: "by_nfc_uid (snd ?w') n = Some b"
    show "valid_addr (fst ?w') b \<and> nfc_uid ops (fst ?w' ! b) = n \<and>
      by_id (snd ?w') (player_uuid ops (fst ?w' ! b)) = Some b"
    proof (cases "b = a")
      case True
      with b wa by_nfc_inj [OF wf _ wa(3), of n]
      have "n = nfc_uid ops (f (fst w ! a))" by (auto simp: w' split: if_splits)
      with True wa pid a show ?thesis by (simp add: w' valid_addr_def)
    next
      case False
      with b have "by_nfc_uid (snd w) n = Some b" by (auto simp: w' split: if_splits)
      from registry_wf_nfcD [OF wf this] False show ?thesis by (simp add: w' valid_addr_def)
    qed
  qed
qed

lemma read_by_id_mutate:
  assumes "registry_wf ops w" "read_by_id w i = Some p"
  shows "read_by_id (mutate_by_id ops i f w) = (read_by_id w)(i \<mapsto> f p)"
proof
  fix j
  from assms(2) obtain a where a: "by_id (snd w) i = Some a" and p: "p = fst w ! a"
    by (auto simp: read_by_id_def)
  have "valid_addr (fst w) a" using registry_wf_idD(1) [OF assms(1) a] .
  moreover have "j \<noteq> i \<Longrightarrow> by_id (snd w) j \<noteq> Some a" using by_id_inj [OF assms(1) a] by blast
  ultimately show "read_by_id (mutate_by_id ops i f w) j = ((read_by_id w)(i \<mapsto> f p)) j"
    using a p by (cases "by_id (snd w) j") (auto simp: read_by_id_def mutate_by_id_Some [OF a]
        valid_addr_def nth_list_update)
qed

interpretation registry: player_directory "player_uuid ops" "nfc_uid ops" "registry_wf ops"
  read_by_id read_by_nfc_uid "registry_add ops" "registry_remove ops" "mutate_by_id ops"
  for ops :: "('p, 'n) player_ops"
proof (unfold_locales, goal_cases)
  case (1 w n p) then show ?case by (rule read_by_nfc_uid_iff)
next
  case (2 w i p) then show ?case using registry_wf_idD(2) by (fastforce simp: read_by_id_def)
next
  case (3 w p) then show ?case
    by (intro registry_wf_add) (simp_all add: read_by_id_def read_by_nfc_uid_def)
next
  case (4 w p) then show ?case by (rule read_by_id_add)
next
  case (5 w i) then show ?case by (rule registry_wf_remove)
next
  case (6 w i) show ?case by (rule read_by_id_remove)
next
  case (7 w i p f) then show ?case
    by (auto simp: read_by_id_def read_by_nfc_uid_def intro!: registry_wf_mutate)
next
  case (8 w i p f) then show ?case by (intro read_by_id_mutate)
next
  case (9 w i f) then show ?case by (simp add: read_by_id_def mutate_by_id_None)
qed

lemma fold_registry_add:
  assumes "registry_wf ops w" "distinct (map (player_uuid ops) ps)" "distinct (map (nfc_uid ops) ps)"
    and "\<And>p. p \<in> set ps \<Longrightarrow> by_id (snd w) (player_uuid ops p) = None"
    and "\<And>p. p \<in> set ps \<Longrightarrow> by_nfc_uid (snd w) (nfc_uid ops p) = None"
  shows "registry_wf ops (fold (registry_add ops) ps w) \<and>
    read_by_id (fold (registry_add ops) ps w) =
      (\<lambda>i. case find (\<lambda>p. player_uuid ops p = i) ps of None \<Rightarrow> read_by_id w i | Some p \<Rightarrow> Some p)"
  using assms
proof (induction ps arbitrary: w)
  case (Cons p ps)
  let ?w' = "registry_add ops p w"
  have wf: "registry_wf ops ?w'" using Cons.prems by (intro registry_wf_add) auto
  have "player_uuid ops q \<noteq> player_uuid ops p" "nfc_uid ops q \<noteq> nfc_uid ops p" if "q \<in> set ps" for q
    using that Cons.prems(2,3) by (auto simp: image_iff)
  then have "registry_wf ops (fold (registry_add ops) ps ?w') \<and>
    read_by_id (fold (registry_add ops) ps ?w') =
      (\<lambda>i. case find (\<lambda>p. player_uuid ops p = i) ps of None \<Rightarrow> read_by_id ?w' i | Some p \<Rightarrow> Some p)"
    using Cons.prems by (intro Cons.IH [OF wf]) (auto simp: registry_add_simps)
  moreover have "find (\<lambda>q. player_uuid ops q = player_uuid ops p) ps = None"
    using Cons.prems(2) by (auto simp: find_None_iff image_iff)
  ultimately show ?case
    by (auto simp: fun_eq_iff read_by_id_add [OF Cons.prems(1)] split: option.splits)
qed (simp add: fun_eq_iff)

section \<open>Properties\<close>

text \<open>C32: A registry built by \<open>PlayerRegistry::new\<close> from players with distinct UUIDs and distinct
  NFC UIDs is consistent, and it finds by UUID exactly those players.\<close>

theorem registry_new_finds_players:
  assumes "distinct (map (player_uuid ops) ps)" "distinct (map (nfc_uid ops) ps)"
  shows "registry_wf ops (registry_new ops ps st) \<and>
    read_by_id (registry_new ops ps st) i = find (\<lambda>p. player_uuid ops p = i) ps"
proof -
  have "read_by_id (st, empty_registry) i = None"
    by (simp add: read_by_id_def empty_registry_def)
  then show ?thesis
    using fold_registry_add [OF registry_wf_empty assms, of st]
    by (auto simp: registry_new_def empty_registry_def split: option.splits)
qed

definition demo_player :: "uuid \<Rightarrow> nat \<Rightarrow> nat mock_player" where
  "demo_player i n = \<lparr>mock_id = i, mock_nfc_uid = n, mock_name = ''demo'', bloops_count = 0,
     mock_awarded = Map.empty, registration_number = 0\<rparr>"

lemmas demo_simps = demo_player_def mock_player_ops_def

lemma mock_selectors:
  "player_uuid mock_player_ops = mock_id" "nfc_uid mock_player_ops = mock_nfc_uid"
  "total_bloops mock_player_ops = bloops_count" "awarded_achievements mock_player_ops = mock_awarded"
  "mock_id (demo_player i n) = i" "mock_nfc_uid (demo_player i n) = n"
  "bloops_count (demo_player i n) = 0" "mock_awarded (demo_player i n) = Map.empty"
  by (simp_all add: demo_simps)

theorem registry_new_finds_players_witness:
  "registry_wf mock_player_ops (registry_new mock_player_ops [demo_player 1 10, demo_player 2 20] []) \<and>
   read_by_id (registry_new mock_player_ops [demo_player 1 10, demo_player 2 20] []) 2 =
     Some (demo_player 2 20)"
  using registry_new_finds_players [of mock_player_ops "[demo_player 1 10, demo_player 2 20]" "[]" 2]
  by (simp add: demo_simps)

text \<open>In a consistent registry a lookup by NFC UID and a lookup by UUID see the same players:
  the NFC UID finds a player exactly when that player carries it and is registered under its own
  UUID; and no two registered players share an NFC UID.\<close>

theorem registry_lookups_agree:
  assumes "registry_wf ops w"
  shows "(read_by_nfc_uid w n = Some p \<longleftrightarrow>
      nfc_uid ops p = n \<and> read_by_id w (player_uuid ops p) = Some p) \<and>
    (read_by_id w i = Some p \<longrightarrow> read_by_id w j = Some q \<longrightarrow>
      nfc_uid ops p = nfc_uid ops q \<longrightarrow> i = j)"
  using registry.find_dir [OF assms] registry.nfc_unique [OF assms] by blast

definition demo_players :: "(nat mock_player, nat) players" where
  "demo_players = registry_new mock_player_ops [demo_player 1 10, demo_player 2 20] []"

lemma demo_players_eval:
  "demo_players = ([demo_player 1 10, demo_player 2 20],
     \<lparr>by_id = [1 \<mapsto> 0, 2 \<mapsto> 1], by_nfc_uid = [10 \<mapsto> 0, 20 \<mapsto> 1]\<rparr>)"
  by (simp add: demo_players_def registry_new_def registry_add_def empty_registry_def alloc_def
      demo_simps)

lemma demo_players_wf: "registry_wf mock_player_ops demo_players"
proof -
  have "registry_wf mock_player_ops ([demo_player 1 10, demo_player 2 20],
     \<lparr>by_id = [1 \<mapsto> 0, 2 \<mapsto> 1], by_nfc_uid = [10 \<mapsto> 0, 20 \<mapsto> 1]\<rparr>)"
    by (rule registry_wfI) (auto simp: demo_simps valid_addr_def split: if_splits)
  then show ?thesis by (simp only: demo_players_eval)
qed

theorem registry_lookups_agree_witness:
  "read_by_nfc_uid demo_players 20 = Some (demo_player 2 20)"
  using registry_lookups_agree [OF demo_players_wf, of 20 "demo_player 2 20" 2 2 "demo_player 2 20"]
  by (simp add: demo_players_eval read_by_id_def demo_simps)

text \<open>When \<open>mutate_by_id\<close> gives a registered player an NFC UID that is not in use, the registry
  stays consistent, the new NFC UID finds the mutated player, and the old one finds nobody.\<close>

theorem mutate_moves_nfc_uid:
  assumes "registry_wf ops w" "read_by_id w i = Some p" "player_uuid ops (f p) = i"
    "read_by_nfc_uid w (nfc_uid ops (f p)) = None"
  shows "registry_wf ops (mutate_by_id ops i f w) \<and>
    read_by_id (mutate_by_id ops i f w) = (read_by_id w)(i \<mapsto> f p) \<and>
    read_by_nfc_uid (mutate_by_id ops i f w) (nfc_uid ops (f p)) = Some (f p) \<and>
    read_by_nfc_uid (mutate_by_id ops i f w) (nfc_uid ops p) = None"
  using registry.mutate_invar [of ops w i p f] registry.mutate_dir [OF assms(1,2)]
    registry.find_mutate_moved [where f = f, OF assms] assms by blast

theorem mutate_moves_nfc_uid_witness:
  "read_by_nfc_uid (mutate_by_id mock_player_ops 1 (\<lambda>p. p\<lparr>mock_nfc_uid := 30\<rparr>) demo_players) 30 =
     Some ((demo_player 1 10)\<lparr>mock_nfc_uid := 30\<rparr>) \<and>
   read_by_nfc_uid (mutate_by_id mock_player_ops 1 (\<lambda>p. p\<lparr>mock_nfc_uid := 30\<rparr>) demo_players) 10 = None"
proof -
  have h: "read_by_id demo_players 1 = Some (demo_player 1 10)"
    "player_uuid mock_player_ops ((demo_player 1 10)\<lparr>mock_nfc_uid := 30\<rparr>) = 1"
    "read_by_nfc_uid demo_players
       (nfc_uid mock_player_ops ((demo_player 1 10)\<lparr>mock_nfc_uid := 30\<rparr>)) = None"
    by (simp_all add: demo_players_eval read_by_id_def read_by_nfc_uid_def demo_simps)
  show ?thesis
    using mutate_moves_nfc_uid [where f = "\<lambda>p. p\<lparr>mock_nfc_uid := 30\<rparr>", OF demo_players_wf h]
    by (simp add: demo_simps)
qed

text \<open>Removing a registered player keeps the registry consistent, removes exactly that player
  from the directory, and its NFC UID finds nobody afterwards.\<close>

theorem remove_forgets_player:
  assumes "registry_wf ops w" "read_by_id w i = Some p"
  shows "registry_wf ops (registry_remove ops i w) \<and>
    read_by_id (registry_remove ops i w) = (read_by_id w)(i := None) \<and>
    read_by_nfc_uid (registry_remove ops i w) (nfc_uid ops p) = None"
  using registry.remove_invar [OF assms(1)] registry.remove_dir [OF assms(1)]
    registry.find_remove [OF assms] by blast

theorem remove_forgets_player_witness:
  "read_by_nfc_uid (registry_remove mock_player_ops 2 demo_players) 20 = None \<and>
   read_by_id (registry_remove mock_player_ops 2 demo_players) 2 = None"
proof -
  have "read_by_id demo_players 2 = Some (demo_player 2 20)"
    by (simp add: demo_players_eval read_by_id_def)
  from remove_forgets_player [OF demo_players_wf this] show ?thesis
    by (simp add: demo_simps)
qed

text \<open>C33: Adding a player whose UUID is already registered under another NFC UID does not overwrite
  the old player completely: the UUID finds the new player, but the old NFC UID still finds the old
  one, so the registry is no longer consistent.\<close>

theorem add_same_id_keeps_stale_nfc:
  assumes "registry_wf ops w" "read_by_id w (player_uuid ops p) = Some q" "nfc_uid ops q \<noteq> nfc_uid ops p"
  shows "read_by_id (registry_add ops p w) (player_uuid ops p) = Some p \<and>
    read_by_nfc_uid (registry_add ops p w) (nfc_uid ops q) = Some q \<and>
    \<not> registry_wf ops (registry_add ops p w)"
proof -
  from assms(2) obtain a where a: "by_id (snd w) (player_uuid ops p) = Some a" and q: "q = fst w ! a"
    by (auto simp: read_by_id_def)
  note wa = registry_wf_idD [OF assms(1) a]
  have stale: "read_by_nfc_uid (registry_add ops p w) (nfc_uid ops q) = Some q"
    using wa assms(3) q
    by (simp add: read_by_nfc_uid_def registry_add_simps nth_append valid_addr_def)
  have new: "read_by_id (registry_add ops p w) (player_uuid ops p) = Some p"
    by (simp add: read_by_id_add [OF assms(1)])
  have "player_uuid ops q = player_uuid ops p" using wa q by simp
  with new assms(3) have "\<not> (read_by_id (registry_add ops p w) (player_uuid ops q) = Some q)"
    by auto
  with stale have "\<not> registry_wf ops (registry_add ops p w)"
    using read_by_nfc_uid_iff [of ops "registry_add ops p w" "nfc_uid ops q" q] by blast
  with stale new show ?thesis by blast
qed

theorem add_same_id_keeps_stale_nfc_witness:
  "read_by_nfc_uid (registry_add mock_player_ops (demo_player 1 99) demo_players) 10 =
     Some (demo_player 1 10)"
proof -
  have "read_by_id demo_players (player_uuid mock_player_ops (demo_player 1 99)) =
      Some (demo_player 1 10)"
    "nfc_uid mock_player_ops (demo_player 1 10) \<noteq> nfc_uid mock_player_ops (demo_player 1 99)"
    by (simp_all add: demo_players_eval read_by_id_def demo_simps)
  from add_same_id_keeps_stale_nfc [OF demo_players_wf this] show ?thesis
    by (simp add: demo_simps)
qed

text \<open>Adding a player with an NFC UID that another registered player carries, and then removing
  that other player, takes the NFC UID away from the new player: it is still registered by UUID but
  its NFC UID finds nobody.\<close>

theorem remove_after_nfc_takeover_unlinks_new_player:
  assumes "registry_wf ops w" "read_by_id w i = Some q" "nfc_uid ops q = nfc_uid ops p"
    "player_uuid ops p \<noteq> i"
  shows "read_by_id (registry_remove ops i (registry_add ops p w)) (player_uuid ops p) = Some p \<and>
    read_by_nfc_uid (registry_remove ops i (registry_add ops p w)) (nfc_uid ops p) = None"
proof -
  let ?w = "registry_add ops p w"
  from assms(2) obtain a where a: "by_id (snd w) i = Some a" and q: "q = fst w ! a"
    by (auto simp: read_by_id_def)
  have a': "by_id (snd ?w) i = Some a" using a assms(4) by (simp add: registry_add_simps)
  have cell: "fst ?w ! a = q"
    using registry_wf_idD(1) [OF assms(1) a] q
    by (simp add: registry_add_simps nth_append valid_addr_def)
  have "snd (registry_remove ops i ?w) = (snd ?w)\<lparr>by_id := (by_id (snd ?w))(i := None),
      by_nfc_uid := (by_nfc_uid (snd ?w))(nfc_uid ops q := None)\<rparr>"
    using a' cell by (cases ?w) (simp add: registry_remove_def)
  then have "read_by_nfc_uid (registry_remove ops i ?w) (nfc_uid ops p) = None"
    using assms(3) by (simp add: read_by_nfc_uid_def)
  moreover have "read_by_id (registry_remove ops i ?w) (player_uuid ops p) = Some p"
    using assms(4) by (simp add: read_by_id_remove read_by_id_add [OF assms(1)])
  ultimately show ?thesis by blast
qed

theorem remove_after_nfc_takeover_unlinks_new_player_witness:
  "read_by_nfc_uid (registry_remove mock_player_ops 1
     (registry_add mock_player_ops (demo_player 3 10) demo_players)) 10 = None"
proof -
  have "read_by_id demo_players 1 = Some (demo_player 1 10)"
    "nfc_uid mock_player_ops (demo_player 1 10) = nfc_uid mock_player_ops (demo_player 3 10)"
    "player_uuid mock_player_ops (demo_player 3 10) \<noteq> 1"
    by (simp_all add: demo_players_eval read_by_id_def demo_simps)
  from remove_after_nfc_takeover_unlinks_new_player [OF demo_players_wf this] show ?thesis
    by (simp add: demo_simps)
qed

end
