(* ===== verification/Bloop.thy ===== *)
theory Bloop
  imports Player
begin

text \<open>
  The first half of \<open>src/src/bloop.rs\<close>: the \<open>Bloop\<close> itself, the age-limited \<open>BloopCollection\<close>
  (a \<open>VecDeque\<close> with the newest bloop in front) and the \<open>BloopProvider\<close>, which keeps one
  collection for all bloops and one per client. The clock reading that \<open>add\<close> takes with
  \<open>Utc::now()\<close> is an argument. The invariant of a collection is that it is ordered by time; that of
  a provider ties every client's collection to the global one.
\<close>

section \<open>Bloops\<close>

record bloop =
  player :: addr
  player_id :: uuid
  client_id :: client_id
  recorded_at :: datetime

definition bloop_new ::
  "('p, 'n) player_ops \<Rightarrow> 'p store \<Rightarrow> addr \<Rightarrow> client_id \<Rightarrow> datetime \<Rightarrow> bloop" where
  "bloop_new ops st a cid at =
     \<lparr>player = a, player_id = player_uuid ops (st ! a), client_id = cid, recorded_at = at\<rparr>"

definition bloops_since :: "datetime \<Rightarrow> bloop \<Rightarrow> bool" where
  "bloops_since since = (\<lambda>b. recorded_at b \<ge> since)"

definition bloops_for_player :: "uuid \<Rightarrow> bloop \<Rightarrow> bool" where
  "bloops_for_player i = (\<lambda>b. player_id b = i)"

section \<open>Collections\<close>

record bloop_collection =
  bloops :: "bloop list"
  collection_max_age :: duration

definition collection_new :: "duration \<Rightarrow> bloop_collection" where
  "collection_new max_age = \<lparr>bloops = [], collection_max_age = max_age\<rparr>"

definition collection_with_bloops :: "duration \<Rightarrow> bloop list \<Rightarrow> bloop_collection" where
  "collection_with_bloops max_age bs =
     (let sorted_bloops = sort_key (\<lambda>b. - recorded_at b) bs;
          collection = collection_new max_age
      in collection\<lparr>bloops := bloops collection @ sorted_bloops\<rparr>)"

text \<open>The loop of \<open>add\<close>: pop from the back while the oldest bloop is older than the threshold.\<close>

function prune_back :: "datetime \<Rightarrow> bloop list \<Rightarrow> bloop list" where
  "prune_back threshold bs =
     (if bs \<noteq> [] \<and> recorded_at (last bs) < threshold
      then prune_back threshold (butlast bs) else bs)"
  by pat_completeness auto
termination
  by (relation "measure (length \<circ> snd)") auto

declare prune_back.simps [simp del]

definition collection_add :: "datetime \<Rightarrow> bloop \<Rightarrow> bloop_collection \<Rightarrow> bloop_collection" where
  "collection_add now b c =
     (let threshold = now - int (collection_max_age c);
          kept = prune_back threshold (bloops c)
      in c\<lparr>bloops := b # kept\<rparr>)"

section \<open>The provider\<close>

record bloop_provider =
  global :: bloop_collection
  per_client :: "client_id \<rightharpoonup> bloop_collection"
  max_age :: duration
  empty_collection :: bloop_collection

definition provider_new :: "duration \<Rightarrow> bloop_provider" where
  "provider_new age =
     \<lparr>global = collection_new age, per_client = Map.empty, max_age = age,
      empty_collection = collection_new age\<rparr>"

text \<open>The grouping loop of \<open>with_bloops\<close>: \<open>entry(client_id).or_default().push(bloop)\<close>.\<close>

fun client_groups :: "bloop list \<Rightarrow> (client_id \<rightharpoonup> bloop list) \<Rightarrow> (client_id \<rightharpoonup> bloop list)" where
  "client_groups [] m = m"
| "client_groups (b # bs) m =
     client_groups bs
       (m(client_id b \<mapsto> (case m (client_id b) of None \<Rightarrow> [] | Some xs \<Rightarrow> xs) @ [b]))"

text \<open>
  The second loop of \<open>with_bloops\<close> inserts one collection per group; the keys are distinct, so
  in whatever order it runs the result maps every grouped client to its collection.
\<close>

definition provider_with_bloops :: "duration \<Rightarrow> bloop list \<Rightarrow> bloop_provider" where
  "provider_with_bloops age bs =
     \<lparr>global = collection_with_bloops age bs,
      per_client = (\<lambda>cid. map_option (collection_with_bloops age) (client_groups bs Map.empty cid)),
      max_age = age, empty_collection = collection_new age\<rparr>"

text \<open>\<open>BloopProvider::add\<close> reads the clock twice, once in each collection's \<open>add\<close>.\<close>

definition provider_add :: "datetime \<Rightarrow> datetime \<Rightarrow> bloop \<Rightarrow> bloop_provider \<Rightarrow> bloop_provider" where
  "provider_add now_global now_client b p =
     (let p = p\<lparr>global := collection_add now_global b (global p)\<rparr>;
          cid = client_id b;
          client_collection =
            (case per_client p cid of None \<Rightarrow> collection_new (max_age p) | Some c \<Rightarrow> c)
      in p\<lparr>per_client := (per_client p)(cid \<mapsto> collection_add now_client b client_collection)\<rparr>)"

definition for_client :: "bloop_provider \<Rightarrow> client_id \<Rightarrow> bloop_collection" where
  "for_client p cid = (case per_client p cid of None \<Rightarrow> empty_collection p | Some c \<Rightarrow> c)"

section \<open>Invariants\<close>

abbreviation newest_first :: "bloop list \<Rightarrow> bool" where
  "newest_first \<equiv> sorted_wrt (\<lambda>x y. recorded_at x \<ge> recorded_at y)"

definition of_client :: "client_id \<Rightarrow> bloop \<Rightarrow> bool" where
  "of_client cid = (\<lambda>b. client_id b = cid)"

text \<open>
  The provider's invariant up to the time \<open>t\<close> of its last pruning: everything is ordered, the ages
  agree, and from any instant not before \<open>t\<close> minus the maximum age a client's collection shows exactly
  that client's share of the global one.
\<close>

definition provider_wf :: "datetime \<Rightarrow> bloop_provider \<Rightarrow> bool" where
  "provider_wf t p \<longleftrightarrow>
     newest_first (bloops (global p)) \<and>
     (\<forall>cid. newest_first (bloops (for_client p cid))) \<and>
     collection_max_age (global p) = max_age p \<and>
     (\<forall>cid. collection_max_age (for_client p cid) = max_age p) \<and>
     bloops (empty_collection p) = [] \<and>
     (\<forall>cid since. t - int (max_age p) \<le> since \<longrightarrow>
        filter (bloops_since since) (bloops (for_client p cid)) =
        filter (\<lambda>b. of_client cid b \<and> bloops_since since b) (bloops (global p)))"

text \<open>
  A history of additions: each entry is a bloop with the two clock readings of its \<open>add\<close>. It is
  in order after \<open>t\<close> when no clock runs backwards.
\<close>

type_synonym addition = "datetime \<times> datetime \<times> bloop"

fun record_all :: "addition list \<Rightarrow> bloop_provider \<Rightarrow> bloop_provider" where
  "record_all [] p = p"
| "record_all ((ng, nc, b) # h) p = record_all h (provider_add ng nc b p)"

fun in_order :: "datetime \<Rightarrow> addition list \<Rightarrow> bool" where
  "in_order t [] \<longleftrightarrow> True"
| "in_order t ((ng, nc, b) # h) \<longleftrightarrow>
     t \<le> recorded_at b \<and> recorded_at b \<le> ng \<and> ng \<le> nc \<and> in_order nc h"

fun end_time :: "datetime \<Rightarrow> addition list \<Rightarrow> datetime" where
  "end_time t [] = t"
| "end_time t ((ng, nc, b) # h) = end_time nc h"

definition added :: "addition list \<Rightarrow> bloop list" where
  "added h = rev (map (snd \<circ> snd) h)"

section \<open>Collections: pruning and order\<close>

lemma prune_back_rev: "prune_back t bs = rev (dropWhile (\<lambda>b. recorded_at b < t) (rev bs))"
proof (induction bs rule: rev_induct)
  case (snoc b bs)
  then show ?case
    by (subst prune_back.simps) simp
qed (simp add: prune_back.simps)

lemma prune_back_sorted:
  assumes "newest_first bs"
  shows "prune_back t bs = filter (bloops_since t) bs"
  using assms
proof (induction bs rule: rev_induct)
  case (snoc b bs)
  show ?case
  proof (cases "recorded_at b < t")
    case True
    with snoc show ?thesis
      by (subst prune_back.simps) (simp add: bloops_since_def sorted_wrt_append)
  next
    case False
    with snoc.prems have "\<forall>x \<in> set bs. t \<le> recorded_at x"
      by (fastforce simp: sorted_wrt_append)
    with False show ?thesis
      by (subst prune_back.simps) (simp add: bloops_since_def)
  qed
qed (simp add: prune_back.simps)

lemma newest_first_filter [intro, simp]: "newest_first bs \<Longrightarrow> newest_first (filter P bs)"
  by (rule sorted_wrt_filter)

lemma bloops_collection_add:
  assumes "newest_first (bloops c)"
  shows "bloops (collection_add now b c) =
    b # filter (bloops_since (now - int (collection_max_age c))) (bloops c)"
  using assms by (simp add: collection_add_def prune_back_sorted)

lemma collection_add_max_age [simp]:
  "collection_max_age (collection_add now b c) = collection_max_age c"
  by (simp add: collection_add_def)

lemma newest_first_collection_add:
  assumes "newest_first (bloops c)" "\<And>x. x \<in> set (bloops c) \<Longrightarrow> recorded_at x \<le> recorded_at b"
  shows "newest_first (bloops (collection_add now b c))"
  using assms by (auto simp: bloops_collection_add)

lemma newest_first_sort: "newest_first (sort_key (\<lambda>b. - recorded_at b) bs)"
proof -
  have "sorted (map (\<lambda>b. - recorded_at b) (sort_key (\<lambda>b. - recorded_at b) bs))" by simp
  then show ?thesis by (simp add: sorted_map)
qed

lemma bloops_with_bloops [simp]:
  "bloops (collection_with_bloops age bs) = sort_key (\<lambda>b. - recorded_at b) bs"
  "collection_max_age (collection_with_bloops age bs) = age"
  "bloops (collection_new age) = []" "collection_max_age (collection_new age) = age"
  by (simp_all add: collection_with_bloops_def collection_new_def)

section \<open>Providers\<close>

lemma client_groups_filter:
  "client_groups bs m cid =
     (case m cid of
        None \<Rightarrow> (if filter (of_client cid) bs = [] then None else Some (filter (of_client cid) bs))
      | Some xs \<Rightarrow> Some (xs @ filter (of_client cid) bs))"
proof (induction bs arbitrary: m cid)
  case (Cons b bs)
  show ?case
    by (cases "cid = client_id b"; cases "m (client_id b)"; cases "m cid")
      (auto simp: Cons.IH of_client_def)
qed (simp split: option.splits)

lemma for_client_with_bloops:
  "bloops (for_client (provider_with_bloops age bs) cid) =
     filter (of_client cid) (sort_key (\<lambda>b. - recorded_at b) bs)"
proof (cases "filter (of_client cid) bs = []")
  case True
  then show ?thesis
    by (simp add: for_client_def provider_with_bloops_def client_groups_filter filter_sort)
next
  case False
  then show ?thesis
    by (simp add: for_client_def provider_with_bloops_def client_groups_filter filter_sort)
qed

lemma global_provider_add [simp]:
  "global (provider_add ng nc b p) = collection_add ng b (global p)"
  "max_age (provider_add ng nc b p) = max_age p"
  "empty_collection (provider_add ng nc b p) = empty_collection p"
  by (simp_all add: provider_add_def Let_def)

lemma for_client_provider_add:
  "for_client (provider_add ng nc b p) cid =
    (if cid = client_id b then
       collection_add nc b
         (case per_client p cid of None \<Rightarrow> collection_new (max_age p) | Some c \<Rightarrow> c)
     else for_client p cid)"
  by (auto simp: provider_add_def for_client_def Let_def split: option.splits)

lemma or_insert_collection:
  assumes "provider_wf t p"
  shows "bloops (case per_client p cid of None \<Rightarrow> collection_new (max_age p) | Some c \<Rightarrow> c) =
      bloops (for_client p cid)"
    and "collection_max_age (case per_client p cid of None \<Rightarrow> collection_new (max_age p) | Some c \<Rightarrow> c) =
      max_age p"
proof -
  have "collection_max_age (for_client p cid) = max_age p" "bloops (empty_collection p) = []"
    using assms by (simp_all add: provider_wf_def)
  then show "bloops (case per_client p cid of None \<Rightarrow> collection_new (max_age p) | Some c \<Rightarrow> c) =
      bloops (for_client p cid)"
    and "collection_max_age (case per_client p cid of None \<Rightarrow> collection_new (max_age p) | Some c \<Rightarrow> c) =
      max_age p"
    by (simp_all add: for_client_def split: option.splits)
qed

lemma for_client_add_max_age:
  assumes "provider_wf t p"
  shows "collection_max_age (for_client (provider_add ng nc b p) cid) = max_age p"
proof -
  have "collection_max_age (for_client p cid) = max_age p"
    using assms by (simp add: provider_wf_def)
  then show ?thesis
    using or_insert_collection(2) [OF assms, of "client_id b"]
    by (simp add: for_client_provider_add)
qed

lemma bloops_for_client_add:
  assumes "provider_wf t p"
  shows "bloops (for_client (provider_add ng nc b p) cid) =
    (if cid = client_id b
     then b # filter (bloops_since (nc - int (max_age p))) (bloops (for_client p cid))
     else bloops (for_client p cid))"
proof -
  let ?c = "case per_client p (client_id b) of None \<Rightarrow> collection_new (max_age p) | Some c \<Rightarrow> c"
  note c = or_insert_collection [OF assms, of "client_id b"]
  have "newest_first (bloops (for_client p (client_id b)))"
    using assms by (simp add: provider_wf_def)
  then have "newest_first (bloops ?c)" by (simp only: c)
  from bloops_collection_add [OF this, of nc b] show ?thesis
    by (simp add: for_client_provider_add c)
qed

lemma provider_wf_with_bloops: "provider_wf t (provider_with_bloops age bs)"
  unfolding provider_wf_def
proof (intro conjI allI impI)
  fix cid since
  show "newest_first (bloops (global (provider_with_bloops age bs)))"
    by (simp add: provider_with_bloops_def newest_first_sort)
  show "newest_first (bloops (for_client (provider_with_bloops age bs) cid))"
    by (simp add: for_client_with_bloops newest_first_sort)
  show "collection_max_age (for_client (provider_with_bloops age bs) cid) =
      max_age (provider_with_bloops age bs)"
    by (cases "client_groups bs Map.empty cid") (simp_all add: for_client_def provider_with_bloops_def)
  show "filter (bloops_since since) (bloops (for_client (provider_with_bloops age bs) cid)) =
      filter (\<lambda>b. of_client cid b \<and> bloops_since since b) (bloops (global (provider_with_bloops age bs)))"
    by (simp add: for_client_with_bloops) (simp add: provider_with_bloops_def conj_commute)
qed (simp_all add: provider_with_bloops_def)

lemma provider_wf_add:
  assumes wf: "provider_wf t p" and t: "t \<le> ng" "t \<le> nc"
    and newest: "\<And>x. x \<in> set (bloops (global p)) \<Longrightarrow> recorded_at x \<le> recorded_at b"
      "\<And>x. x \<in> set (bloops (for_client p (client_id b))) \<Longrightarrow> recorded_at x \<le> recorded_at b"
  shows "provider_wf (max ng nc) (provider_add ng nc b p)"
  unfolding provider_wf_def
proof (intro conjI allI impI)
  have nf: "newest_first (bloops (global p))" "newest_first (bloops (for_client p cid))" for cid
    using wf by (simp_all add: provider_wf_def)
  have g: "bloops (global (provider_add ng nc b p)) =
      b # filter (bloops_since (ng - int (max_age p))) (bloops (global p))"
    using wf nf by (simp add: bloops_collection_add provider_wf_def)
  fix cid since
  show "newest_first (bloops (global (provider_add ng nc b p)))"
    unfolding g using nf newest by simp
  show "newest_first (bloops (for_client (provider_add ng nc b p) cid))"
    using nf newest by (simp add: bloops_for_client_add [OF wf])
  show "collection_max_age (for_client (provider_add ng nc b p) cid) =
      max_age (provider_add ng nc b p)"
    by (simp add: for_client_add_max_age [OF wf])
  assume "max ng nc - int (max_age (provider_add ng nc b p)) \<le> since"
  then have late: "t - int (max_age p) \<le> since" "ng - int (max_age p) \<le> since" "nc - int (max_age p) \<le> since"
    using t by simp_all
  then have absorb: "filter (bloops_since since) (filter (bloops_since (u - int (max_age p))) bs) =
      filter (bloops_since since) bs" if "u = ng \<or> u = nc" for u bs
    using that by (auto simp: bloops_since_def intro!: filter_cong)
  have share: "filter (bloops_since since) (bloops (for_client p cid)) =
      filter (\<lambda>b. of_client cid b \<and> bloops_since since b) (bloops (global p))"
    using wf late(1) by (simp add: provider_wf_def)
  have glob: "filter (\<lambda>b. of_client c b \<and> bloops_since since b)
      (filter (bloops_since (ng - int (max_age p))) bs) =
      filter (\<lambda>b. of_client c b \<and> bloops_since since b) bs" for bs c
    using late(2) by (auto simp: bloops_since_def intro!: filter_cong)
  show "filter (bloops_since since) (bloops (for_client (provider_add ng nc b p) cid)) =
      filter (\<lambda>b. of_client cid b \<and> bloops_since since b) (bloops (global (provider_add ng nc b p)))"
    unfolding g bloops_for_client_add [OF wf]
    using share by (cases "cid = client_id b")
      (simp_all add: glob absorb del: filter_filter, simp_all add: of_client_def)
qed (use wf in \<open>simp_all add: provider_wf_def\<close>)

text \<open>
  What a provider shows at time \<open>t\<close> when \<open>H\<close> lists every bloop it was ever given, newest first:
  within the retention window nothing is missing, neither globally nor for a client.
\<close>

definition shows_history :: "datetime \<Rightarrow> bloop list \<Rightarrow> bloop_provider \<Rightarrow> bool" where
  "shows_history t H p \<longleftrightarrow>
     provider_wf t p \<and> set (bloops (global p)) \<subseteq> set H \<and>
     (\<forall>cid. set (bloops (for_client p cid)) \<subseteq> set H) \<and> (\<forall>b \<in> set H. recorded_at b \<le> t) \<and>
     (\<forall>since. t - int (max_age p) \<le> since \<longrightarrow>
        filter (bloops_since since) (bloops (global p)) = filter (bloops_since since) H)"

lemma shows_historyD:
  assumes "shows_history t H p"
  shows "provider_wf t p" "set (bloops (global p)) \<subseteq> set H"
    "set (bloops (for_client p cid)) \<subseteq> set H" "b \<in> set H \<Longrightarrow> recorded_at b \<le> t"
    "t - int (max_age p) \<le> since \<Longrightarrow>
        filter (bloops_since since) (bloops (global p)) = filter (bloops_since since) H"
  using assms by (simp_all add: shows_history_def)

lemma shows_history_with_bloops:
  assumes "\<forall>b \<in> set bs. recorded_at b \<le> t"
  shows "shows_history t (sort_key (\<lambda>b. - recorded_at b) bs) (provider_with_bloops age bs)"
  unfolding shows_history_def for_client_with_bloops
  using assms by (auto simp: provider_wf_with_bloops) (simp_all add: provider_with_bloops_def)

lemma shows_history_add:
  assumes sh: "shows_history t H p"
    and ord: "t \<le> recorded_at b" "recorded_at b \<le> ng" "ng \<le> nc"
  shows "shows_history nc (b # H) (provider_add ng nc b p)"
proof -
  note d = shows_historyD [OF sh]
  have nf: "newest_first (bloops (global p))" and age: "collection_max_age (global p) = max_age p"
    using d(1) by (simp_all add: provider_wf_def)
  have newest: "recorded_at x \<le> recorded_at b" if "x \<in> set H" for x
    using d(4) [OF that] ord by simp
  have max: "max ng nc = nc" using ord by simp
  have wf: "provider_wf nc (provider_add ng nc b p)"
    using provider_wf_add [OF d(1), of ng nc b] d(2,3) newest ord unfolding max by force
  have g: "bloops (global (provider_add ng nc b p)) =
      b # filter (bloops_since (ng - int (max_age p))) (bloops (global p))"
    using nf age by (simp add: bloops_collection_add)
  have window: "filter (bloops_since since) (bloops (global (provider_add ng nc b p))) =
      filter (bloops_since since) (b # H)" if "nc - int (max_age p) \<le> since" for since
  proof -
    have "filter (bloops_since since) (filter (bloops_since (ng - int (max_age p))) (bloops (global p))) =
        filter (bloops_since since) (bloops (global p))"
      using that ord by (auto simp: bloops_since_def intro!: filter_cong)
    moreover have "filter (bloops_since since) (bloops (global p)) = filter (bloops_since since) H"
      using that ord d(5) by simp
    ultimately show ?thesis unfolding g by (simp del: filter_filter)
  qed
  have "recorded_at x \<le> nc" if "x \<in> set (b # H)" for x
    using that newest ord by fastforce
  moreover have "set (bloops (global (provider_add ng nc b p))) \<subseteq> set (b # H)"
    unfolding g using d(2) by auto
  moreover have "set (bloops (for_client (provider_add ng nc b p) cid)) \<subseteq> set (b # H)" for cid
    unfolding bloops_for_client_add [OF d(1)] using d(3) [of cid] by auto
  ultimately show ?thesis
    unfolding shows_history_def using wf window by (simp del: filter.simps)
qed

lemma shows_history_record_all:
  "shows_history t H p \<Longrightarrow> in_order t h \<Longrightarrow> shows_history (end_time t h) (added h @ H) (record_all h p)"
proof (induction h arbitrary: t H p)
  case (Cons e h)
  obtain ng nc b where e: "e = (ng, nc, b)" by (cases e)
  from Cons.prems e have "shows_history nc (b # H) (provider_add ng nc b p)" and "in_order nc h"
    by (auto intro: shows_history_add)
  from Cons.IH [OF this] show ?case by (simp add: e added_def)
qed (simp add: added_def)

lemma max_age_record_all [simp]: "max_age (record_all h p) = max_age p"
  by (induction h p rule: record_all.induct) simp_all

section \<open>Properties\<close>

text \<open>\<open>BloopCollection::add\<close> on an ordered collection keeps exactly the bloops that are not older
  than the maximum age, with the new bloop in front; when the new bloop is the newest one the
  collection stays ordered.\<close>

theorem collection_add_prunes_exactly:
  assumes "newest_first (bloops c)"
  shows "bloops (collection_add now b c) =
      b # filter (\<lambda>x. now - int (collection_max_age c) \<le> recorded_at x) (bloops c) \<and>
    ((\<forall>x \<in> set (bloops c). recorded_at x \<le> recorded_at b) \<longrightarrow>
      newest_first (bloops (collection_add now b c)))"
  using bloops_collection_add [OF assms, of now b] newest_first_collection_add [OF assms, of b now]
  by (simp add: bloops_since_def)

definition demo_bloop :: "uuid \<Rightarrow> string \<Rightarrow> int \<Rightarrow> bloop" where
  "demo_bloop i cid at = \<lparr>player = 0, player_id = i, client_id = cid, recorded_at = at\<rparr>"

theorem collection_add_prunes_exactly_witness:
  "bloops (collection_add 20 (demo_bloop 3 ''a'' 20)
     \<lparr>bloops = [demo_bloop 2 ''a'' 15, demo_bloop 1 ''b'' 5], collection_max_age = 10\<rparr>) =
   [demo_bloop 3 ''a'' 20, demo_bloop 2 ''a'' 15]"
proof -
  have "newest_first (bloops
      \<lparr>bloops = [demo_bloop 2 ''a'' 15, demo_bloop 1 ''b'' 5], collection_max_age = 10\<rparr>)"
    by (simp add: demo_bloop_def)
  from collection_add_prunes_exactly [OF this, of 20 "demo_bloop 3 ''a'' 20"] show ?thesis
    by (simp add: demo_bloop_def)
qed

text \<open>C27: A provider that is seeded with stored bloops and then fed bloops under a clock that does
  not run backwards never loses a bloop inside the retention window: from any instant not older than
  the last clock reading minus the maximum age, the global collection lists exactly the bloops ever
  given to it, newest first, and every client's collection lists exactly that client's share.\<close>

theorem provider_keeps_retention_window:
  assumes "\<forall>b \<in> set bs. recorded_at b \<le> t" "in_order t h" "end_time t h - int age \<le> since"
  shows "(let p = record_all h (provider_with_bloops age bs);
              ever = added h @ sort_key (\<lambda>b. - recorded_at b) bs
          in filter (bloops_since since) (bloops (global p)) = filter (bloops_since since) ever \<and>
             filter (bloops_since since) (bloops (for_client p cid)) =
               filter (\<lambda>b. client_id b = cid \<and> bloops_since since b) ever)"
proof -
  let ?p = "record_all h (provider_with_bloops age bs)"
  have sh: "shows_history (end_time t h) (added h @ sort_key (\<lambda>b. - recorded_at b) bs) ?p"
    using shows_history_record_all [OF shows_history_with_bloops [OF assms(1)] assms(2)] .
  have age: "max_age ?p = age" by (simp add: provider_with_bloops_def)
  note window = shows_historyD(5) [OF sh, of since]
  have "filter (bloops_since since) (bloops (for_client ?p cid)) =
      filter (of_client cid) (filter (bloops_since since) (bloops (global ?p)))"
    using shows_historyD(1) [OF sh] assms(3) age by (simp add: provider_wf_def conj_commute)
  also have "\<dots> = filter (of_client cid)
      (filter (bloops_since since) (added h @ sort_key (\<lambda>b. - recorded_at b) bs))"
    using window assms(3) age by simp
  finally show ?thesis
    using window assms(3) age by (simp add: Let_def of_client_def conj_commute)
qed

theorem provider_keeps_retention_window_witness:
  "filter (bloops_since 12) (bloops (for_client
     (record_all [(20, 20, demo_bloop 2 ''b'' 19), (21, 22, demo_bloop 3 ''a'' 21)]
       (provider_with_bloops 10 [demo_bloop 1 ''a'' 5, demo_bloop 4 ''a'' 15])) ''a'')) =
   [demo_bloop 3 ''a'' 21, demo_bloop 4 ''a'' 15]"
  using provider_keeps_retention_window
    [of "[demo_bloop 1 ''a'' 5, demo_bloop 4 ''a'' 15]" 15
        "[(20, 20, demo_bloop 2 ''b'' 19), (21, 22, demo_bloop 3 ''a'' 21)]" 10 12 "''a''"]
  by (simp add: demo_bloop_def added_def bloops_since_def)

end
