(* ===== verification/Trigger.thy ===== *)
theory Trigger
  imports Prelude
begin

text \<open>
  Triggers (\<open>src/src/trigger.rs\<close>): specifications keyed by NFC UID, the active trigger of every
  client and the one active global trigger, activation by a scanned tag and the check that an
  evaluator makes. The clock reading of \<open>ActiveTrigger::new\<close> is an argument. The usage counter is a
  \<open>nat\<close>: \<open>reachable_triggers_bounded\<close> shows that it never passes the configured number of uses, so
  the \<open>usize\<close> of the code cannot overflow.
\<close>

datatype trigger_occurrence = Once | Times nat | Duration duration

record 't trigger_spec =
  spec_global :: bool
  occurrence :: trigger_occurrence
  spec_trigger :: 't

record 't active_trigger =
  spec :: "'t trigger_spec"
  triggered_at :: datetime
  usages :: nat

definition active_trigger_new :: "datetime \<Rightarrow> 't trigger_spec \<Rightarrow> 't active_trigger" where
  "active_trigger_new now sp = \<lparr>spec = sp, triggered_at = now, usages = 0\<rparr>"

text \<open>\<open>ActiveTrigger::check\<close> returns the pair (active, retain) and may count a use.\<close>

definition active_trigger_check ::
  "'t active_trigger \<Rightarrow> 't \<Rightarrow> datetime \<Rightarrow> (bool \<times> bool) \<times> 't active_trigger" where
  "active_trigger_check at trigger reference_time =
     (if trigger \<noteq> spec_trigger (spec at) then ((False, True), at)
      else case occurrence (spec at) of
        Once \<Rightarrow> ((True, False), at)
      | Times limit \<Rightarrow>
          (let active = usages at < limit;
               at' = at\<lparr>usages := usages at + 1\<rparr>
           in ((active, usages at' < limit), at'))
      | Duration duration \<Rightarrow>
          (let still_active = triggered_at at + int duration \<ge> reference_time
           in ((still_active, still_active), at)))"

record ('n, 't) trigger_registry =
  trigger_specs :: "'n \<rightharpoonup> 't trigger_spec"
  active_local_triggers :: "client_id \<rightharpoonup> 't active_trigger"
  active_global_trigger :: "'t active_trigger option"

definition trigger_registry_new :: "('n \<rightharpoonup> 't trigger_spec) \<Rightarrow> ('n, 't) trigger_registry" where
  "trigger_registry_new specs =
     \<lparr>trigger_specs = specs, active_local_triggers = Map.empty, active_global_trigger = None\<rparr>"

definition check_active_trigger ::
  "'t \<Rightarrow> client_id \<Rightarrow> datetime \<Rightarrow> ('n, 't) trigger_registry \<Rightarrow> bool \<times> ('n, 't) trigger_registry" where
  "check_active_trigger trigger cid reference_time reg =
     (case active_local_triggers reg cid of
        Some at \<Rightarrow>
          (let ((active, retain), at') = active_trigger_check at trigger reference_time
           in (active,
               reg\<lparr>active_local_triggers :=
                     (active_local_triggers reg)(cid := (if retain then Some at' else None))\<rparr>))
      | None \<Rightarrow>
          (case active_global_trigger reg of
             None \<Rightarrow> (False, reg)
           | Some at \<Rightarrow>
               (let ((active, retain), at') = active_trigger_check at trigger reference_time
                in (active,
                    reg\<lparr>active_global_trigger := (if retain then Some at' else None)\<rparr>))))"

definition try_activate_trigger ::
  "datetime \<Rightarrow> 'n \<Rightarrow> client_id \<Rightarrow> ('n, 't) trigger_registry \<Rightarrow> bool \<times> ('n, 't) trigger_registry" where
  "try_activate_trigger now nfc cid reg =
     (case trigger_specs reg nfc of
        None \<Rightarrow> (False, reg)
      | Some sp \<Rightarrow>
          (let at = active_trigger_new now sp
           in (True,
               if spec_global sp then reg\<lparr>active_global_trigger := Some at\<rparr>
               else reg\<lparr>active_local_triggers := (active_local_triggers reg)(cid \<mapsto> at)\<rparr>)))"

section \<open>Reachable registries\<close>

text \<open>The states a registry can get into: built from its specifications, then activations and
  checks by any client, for any trigger, at any time, in any order.\<close>

inductive trigger_step :: "('n, 't) trigger_registry \<Rightarrow> ('n, 't) trigger_registry \<Rightarrow> bool" where
  activate: "try_activate_trigger now nfc cid reg = (ok, reg') \<Longrightarrow> trigger_step reg reg'"
| check: "check_active_trigger trigger cid t reg = (active, reg') \<Longrightarrow> trigger_step reg reg'"

inductive trigger_reachable :: "('n \<rightharpoonup> 't trigger_spec) \<Rightarrow> ('n, 't) trigger_registry \<Rightarrow> bool"
  for specs where
  start: "trigger_reachable specs (trigger_registry_new specs)"
| step: "trigger_reachable specs reg \<Longrightarrow> trigger_step reg reg' \<Longrightarrow> trigger_reachable specs reg'"

text \<open>A stored trigger comes from a specification of the right kind, and can still be used.\<close>

definition active_ok :: "('n \<rightharpoonup> 't trigger_spec) \<Rightarrow> bool \<Rightarrow> 't active_trigger \<Rightarrow> bool" where
  "active_ok specs is_global at \<longleftrightarrow>
     spec at \<in> ran specs \<and> spec_global (spec at) = is_global \<and>
     (case occurrence (spec at) of Times n \<Rightarrow> usages at < n \<or> usages at = 0 | _ \<Rightarrow> usages at = 0)"

definition trigger_registry_ok :: "('n \<rightharpoonup> 't trigger_spec) \<Rightarrow> ('n, 't) trigger_registry \<Rightarrow> bool" where
  "trigger_registry_ok specs reg \<longleftrightarrow>
     trigger_specs reg = specs \<and>
     (\<forall>cid at. active_local_triggers reg cid = Some at \<longrightarrow> active_ok specs False at) \<and>
     (\<forall>at. active_global_trigger reg = Some at \<longrightarrow> active_ok specs True at)"

text \<open>A client that asks for the same trigger several times in a row, at the given times.\<close>

fun check_times ::
  "'t \<Rightarrow> client_id \<Rightarrow> datetime list \<Rightarrow> ('n, 't) trigger_registry \<Rightarrow> bool list" where
  "check_times trigger cid [] reg = []"
| "check_times trigger cid (t # ts) reg =
     (let (active, reg') = check_active_trigger trigger cid t reg
      in active # check_times trigger cid ts reg')"

section \<open>Lemmas\<close>

lemma active_ok_new:
  "specs nfc = Some sp \<Longrightarrow> active_ok specs (spec_global sp) (active_trigger_new now sp)"
  by (auto simp: active_ok_def active_trigger_new_def intro: ranI split: trigger_occurrence.split)

lemma active_ok_check:
  assumes "active_ok specs g at" "active_trigger_check at trigger t = ((active, True), at')"
  shows "active_ok specs g at'"
  using assms
  by (auto simp: active_ok_def active_trigger_check_def Let_def
      split: if_splits trigger_occurrence.splits)

lemma trigger_registry_ok_activate [inv_intros]:
  assumes "trigger_registry_ok specs reg"
  shows "trigger_registry_ok specs (snd (try_activate_trigger now nfc cid reg))"
proof (cases "trigger_specs reg nfc")
  case None
  with assms show ?thesis by (simp add: try_activate_trigger_def)
next
  case (Some sp)
  with assms have "active_ok specs (spec_global sp) (active_trigger_new now sp)"
    by (intro active_ok_new) (simp add: trigger_registry_ok_def)
  with Some assms show ?thesis
    by (auto simp: try_activate_trigger_def trigger_registry_ok_def Let_def split: if_splits)
qed

lemma trigger_registry_ok_check [inv_intros]:
  assumes "trigger_registry_ok specs reg"
  shows "trigger_registry_ok specs (snd (check_active_trigger trigger cid t reg))"
  using assms
  by (auto simp: trigger_registry_ok_def check_active_trigger_def Let_def split: option.splits prod.splits
      intro: active_ok_check)

lemma trigger_reachable_ok: "trigger_reachable specs reg \<Longrightarrow> trigger_registry_ok specs reg"
proof (induction rule: trigger_reachable.induct)
  case start
  show ?case by (simp add: trigger_registry_ok_def trigger_registry_new_def)
next
  case (step reg reg')
  from step.hyps(2) step.IH show ?case
    by (cases rule: trigger_step.cases)
      (metis snd_conv trigger_registry_ok_activate, metis snd_conv trigger_registry_ok_check)
qed

lemma trigger_specs_unchanged [frame_simps]:
  "trigger_specs (snd (check_active_trigger trigger cid t reg)) = trigger_specs reg"
  "trigger_specs (snd (try_activate_trigger now nfc cid reg)) = trigger_specs reg"
  by (simp_all add: check_active_trigger_def try_activate_trigger_def Let_def
      split: option.split prod.split)

lemma check_no_trigger:
  assumes "active_local_triggers reg cid = None" "active_global_trigger reg = None"
  shows "check_active_trigger trigger cid t reg = (False, reg)"
  using assms by (simp add: check_active_trigger_def)

lemma check_times_none:
  assumes "active_local_triggers reg cid = None" "active_global_trigger reg = None"
  shows "check_times trigger cid ts reg = replicate (length ts) False"
  using assms by (induction ts) (simp_all add: check_no_trigger)

lemma check_times_limited:
  assumes "active_local_triggers reg cid = Some at" "occurrence (spec at) = Times n"
    "spec_trigger (spec at) = trigger" "active_global_trigger reg = None" "usages at < n"
  shows "check_times trigger cid ts reg =
    replicate (min (length ts) (n - usages at)) True @ replicate (length ts - (n - usages at)) False"
  using assms
proof (induction ts arbitrary: reg at)
  case (Cons t ts)
  let ?at = "at\<lparr>usages := usages at + 1\<rparr>"
  have check: "check_active_trigger trigger cid t reg =
      (True, reg\<lparr>active_local_triggers := (active_local_triggers reg)
         (cid := (if usages at + 1 < n then Some ?at else None))\<rparr>)"
    using Cons.prems by (simp add: check_active_trigger_def active_trigger_check_def)
  show ?case
  proof (cases "usages at + 1 < n")
    case True
    have "check_times trigger cid ts
        (reg\<lparr>active_local_triggers := (active_local_triggers reg)(cid \<mapsto> ?at)\<rparr>) =
      replicate (min (length ts) (n - (usages at + 1))) True @ replicate (length ts - (n - (usages at + 1))) False"
      using True Cons.prems
        Cons.IH [of "reg\<lparr>active_local_triggers := (active_local_triggers reg)(cid \<mapsto> ?at)\<rparr>" ?at]
      by simp
    moreover have "n - usages at = Suc (n - (usages at + 1))" using True by simp
    ultimately show ?thesis using True by (simp add: check)
  next
    case False
    with Cons.prems have "n - usages at = 1" by simp
    with False Cons.prems show ?thesis by (simp add: check check_times_none)
  qed
qed simp

section \<open>Properties\<close>

text \<open>In every state that activations and checks can reach, the registry's specifications are the
  configured ones; a client's active trigger comes from a local specification and the global one
  from a global specification; and the usage counter of a trigger limited to \<open>n\<close> uses is below \<open>n\<close>
  (or zero), so counting one more use never overflows.\<close>

theorem reachable_triggers_bounded:
  assumes "trigger_reachable specs reg"
  shows "trigger_specs reg = specs \<and>
    (\<forall>cid at. active_local_triggers reg cid = Some at \<longrightarrow>
       spec at \<in> ran specs \<and> \<not> spec_global (spec at) \<and>
       (\<forall>n. occurrence (spec at) = Times n \<longrightarrow> usages at < n \<or> usages at = 0)) \<and>
    (\<forall>at. active_global_trigger reg = Some at \<longrightarrow>
       spec at \<in> ran specs \<and> spec_global (spec at) \<and>
       (\<forall>n. occurrence (spec at) = Times n \<longrightarrow> usages at < n \<or> usages at = 0))"
  using trigger_reachable_ok [OF assms] by (fastforce simp: trigger_registry_ok_def active_ok_def)

definition demo_spec :: "trigger_occurrence \<Rightarrow> nat trigger_spec" where
  "demo_spec occ = \<lparr>spec_global = False, occurrence = occ, spec_trigger = 42\<rparr>"

definition demo_triggers :: "trigger_occurrence \<Rightarrow> (nat, nat) trigger_registry" where
  "demo_triggers occ = trigger_registry_new [7 \<mapsto> demo_spec occ]"

lemmas demo_trigger_simps = demo_spec_def demo_triggers_def trigger_registry_new_def

theorem reachable_triggers_bounded_witness:
  "trigger_specs (snd (try_activate_trigger 5 7 ''c''
     (demo_triggers (Times 2)))) = [7 \<mapsto> demo_spec (Times 2)]"
proof -
  have "trigger_reachable [7 \<mapsto> demo_spec (Times 2)]
    (snd (try_activate_trigger 5 7 ''c'' (demo_triggers (Times 2))))"
    unfolding demo_triggers_def
    by (rule trigger_reachable.step [OF trigger_reachable.start])
      (rule trigger_step.activate [OF surjective_pairing])
  from reachable_triggers_bounded [OF this] show ?thesis by simp
qed

text \<open>C31: After a tag with a local trigger limited to \<open>n\<close> uses is scanned on a client, and while no global
  trigger is active, exactly the first \<open>n\<close> checks of that trigger by that client succeed, each at a
  time of its own; every later one fails.\<close>

theorem limited_trigger_fires_n_times:
  assumes "trigger_specs reg nfc = Some sp" "\<not> spec_global sp" "occurrence sp = Times n"
    "active_global_trigger reg = None"
  shows "check_times (spec_trigger sp) cid ts (snd (try_activate_trigger now nfc cid reg)) =
    replicate (min (length ts) n) True @ replicate (length ts - n) False"
proof (cases n)
  case 0
  let ?reg = "snd (try_activate_trigger now nfc cid reg)"
  show ?thesis
  proof (cases ts)
    case (Cons t ts')
    have "check_active_trigger (spec_trigger sp) cid t ?reg =
        (False, ?reg\<lparr>active_local_triggers := (active_local_triggers ?reg)(cid := None)\<rparr>)"
      using assms 0 by (simp add: try_activate_trigger_def check_active_trigger_def
          active_trigger_check_def active_trigger_new_def)
    then show ?thesis using assms 0 Cons
      by (simp add: check_times_none try_activate_trigger_def Let_def)
  qed simp
next
  case (Suc m)
  then show ?thesis
    using check_times_limited [of "snd (try_activate_trigger now nfc cid reg)" cid
        "active_trigger_new now sp" n "spec_trigger sp" ts] assms
    by (simp add: try_activate_trigger_def active_trigger_new_def Let_def)
qed

theorem limited_trigger_fires_n_times_witness:
  "check_times 42 ''c'' [9, 9, 700] (snd (try_activate_trigger 5 7 ''c''
     (demo_triggers (Times 2)))) = [True, True, False]"
  using limited_trigger_fires_n_times
    [of "demo_triggers (Times 2)" 7 "demo_spec (Times 2)" 2 "''c''" "[9, 9, 700]" 5]
  by (simp add: demo_trigger_simps numeral_eq_Suc)

text \<open>A local trigger with a duration is active for a check exactly when the reference time is
  not after the activation time plus the duration; a check after that removes it, so that a later
  check with any reference time fails.\<close>

theorem duration_trigger_expires:
  assumes "trigger_specs reg nfc = Some sp" "\<not> spec_global sp" "occurrence sp = Duration d"
    "active_global_trigger reg = None"
  shows "(let reg1 = snd (try_activate_trigger now nfc cid reg);
              (active, reg2) = check_active_trigger (spec_trigger sp) cid t reg1
          in (active \<longleftrightarrow> t \<le> now + int d) \<and>
             (\<not> active \<longrightarrow> (\<forall>t'. fst (check_active_trigger (spec_trigger sp) cid t' reg2) = False)) \<and>
             (active \<longrightarrow> reg2 = reg1))"
  using assms
  by (auto simp: try_activate_trigger_def check_active_trigger_def active_trigger_check_def
      active_trigger_new_def Let_def)

theorem duration_trigger_expires_witness:
  "fst (check_active_trigger 42 ''c'' 35 (snd (try_activate_trigger 5 7 ''c''
     (demo_triggers (Duration 30))))) \<and>
   \<not> fst (check_active_trigger 42 ''c'' 36 (snd (try_activate_trigger 5 7 ''c''
     (demo_triggers (Duration 30)))))"
  using duration_trigger_expires
      [of "demo_triggers (Duration 30)" 7 "demo_spec (Duration 30)" 30 5 "''c''" 35]
    duration_trigger_expires
      [of "demo_triggers (Duration 30)" 7 "demo_spec (Duration 30)" 30 5 "''c''" 36]
  by (simp add: demo_trigger_simps split_beta Let_def)

text \<open>A client's own active trigger hides the global one: while it is stored, a check by that
  client neither consults nor uses up the global trigger, and a check for another trigger value
  fails and changes nothing. Other clients' triggers are never touched.\<close>

theorem local_trigger_hides_global:
  assumes "active_local_triggers reg cid = Some at"
  shows "active_global_trigger (snd (check_active_trigger trigger cid t reg)) = active_global_trigger reg \<and>
    (trigger \<noteq> spec_trigger (spec at) \<longrightarrow> check_active_trigger trigger cid t reg = (False, reg)) \<and>
    (\<forall>other. other \<noteq> cid \<longrightarrow>
       active_local_triggers (snd (check_active_trigger trigger cid t reg)) other =
       active_local_triggers reg other)"
proof (intro conjI impI allI)
  show "active_global_trigger (snd (check_active_trigger trigger cid t reg)) = active_global_trigger reg"
    using assms by (simp add: check_active_trigger_def split_beta)
  have "(active_local_triggers reg)(cid \<mapsto> at) = active_local_triggers reg"
    using assms by (simp add: fun_upd_idem)
  then show "trigger \<noteq> spec_trigger (spec at) \<Longrightarrow> check_active_trigger trigger cid t reg = (False, reg)"
    using assms by (simp add: check_active_trigger_def active_trigger_check_def)
qed (use assms in \<open>simp add: check_active_trigger_def split_beta\<close>)

definition demo_hidden :: "(nat, nat) trigger_registry" where
  "demo_hidden =
     \<lparr>trigger_specs = Map.empty,
      active_local_triggers = [''c'' \<mapsto> active_trigger_new 5 (demo_spec Once)],
      active_global_trigger = Some (active_trigger_new 5 (demo_spec Once\<lparr>spec_trigger := 1\<rparr>))\<rparr>"

theorem local_trigger_hides_global_witness:
  "check_active_trigger 1 ''c'' 9 demo_hidden = (False, demo_hidden)"
  using local_trigger_hides_global
    [of demo_hidden "''c''" "active_trigger_new 5 (demo_spec Once)" 1 9]
  by (simp add: demo_hidden_def demo_spec_def active_trigger_new_def)

end
