(* ===== verification/Event.thy ===== *)
theory Event
  imports Prelude
begin

text \<open>
  The events of \<open>src/src/event.rs\<close> with the data they carry (\<open>ProcessedBloop\<close> of \<open>bloop.rs\<close>,
  \<open>AchievementAwardBatch\<close> of \<open>achievement.rs\<close>), the result of receiving from a broadcast channel, and
  the shape of the event loops: the bloop sink, the statistics server and the health monitor all
  run \<open>loop { let should_continue = select! { .. }; if !should_continue { break; } }\<close> over a broadcast
  receiver and some other branches. The locale \<open>event_consumer\<close> is what these three loops share.
\<close>

section \<open>Events\<close>

datatype ip_addr = V4 u32 | V6 "128 word"

record processed_bloop =
  pb_player_id :: uuid
  pb_client_id :: client_id
  pb_recorded_at :: datetime

record player_achievement_awards =
  award_player_id :: uuid
  achievement_ids :: "uuid list"

record achievement_award_batch =
  batch_awarded_at :: datetime
  batch_players :: "player_achievement_awards list"

datatype event =
    ClientConnect client_id usize ip_addr
  | ClientDisconnect client_id usize
  | ClientConnectionLoss client_id usize
  | BloopProcessed processed_bloop
  | AchievementsAwarded achievement_award_batch

datatype recv_error = Lagged nat | Closed

type_synonym recv_result = "recv_error + event"

section \<open>Event loops\<close>

text \<open>
  The branch that \<open>select!\<close> completes: the broadcast receiver, or one of the loop's other
  branches (a timer, an accepted connection).
\<close>

datatype 'k select_branch = Other 'k | Recv recv_result

text \<open>
  A loop run over the branches that complete, in their order. The flag of the result is
  false when the loop has ended with \<open>break\<close>, and true when it is still waiting.
\<close>

fun event_loop :: "('k select_branch \<Rightarrow> 's \<Rightarrow> 's \<times> bool) \<Rightarrow> 'k select_branch list \<Rightarrow> 's \<Rightarrow> 's \<times> bool" where
  "event_loop step [] s = (s, True)"
| "event_loop step (i # is) s =
     (let (s', should_continue) = step i s
      in if should_continue then event_loop step is s' else (s', False))"

fun before_close :: "'k select_branch list \<Rightarrow> 'k select_branch list" where
  "before_close [] = []"
| "before_close (i # is) = (if i = Recv (Inl Closed) then [] else i # before_close is)"

text \<open>The processed bloops among the events received.\<close>

fun received_bloops :: "'k select_branch list \<Rightarrow> processed_bloop list" where
  "received_bloops [] = []"
| "received_bloops (Recv (Inr (BloopProcessed b)) # is) = b # received_bloops is"
| "received_bloops (i # is) = received_bloops is"

lemma received_append: "received_bloops (i # is) = received_bloops [i] @ received_bloops is"
  by (cases "i # is" rule: received_bloops.cases) simp_all

locale event_consumer =
  fixes step :: "'k select_branch \<Rightarrow> 's \<Rightarrow> 's \<times> bool"
  assumes continues: "snd (step i s) \<longleftrightarrow> i \<noteq> Recv (Inl Closed)"
    and closed_keeps: "fst (step (Recv (Inl Closed)) s) = s"
begin

definition effect :: "'k select_branch \<Rightarrow> 's \<Rightarrow> 's" where
  "effect i s = fst (step i s)"

lemma step_open: "i \<noteq> Recv (Inl Closed) \<Longrightarrow> step i s = (effect i s, True)"
  using continues [of i s] by (cases "step i s") (simp add: effect_def)

lemma step_closed: "step (Recv (Inl Closed)) s = (s, False)"
  using continues [of "Recv (Inl Closed)" s] closed_keeps [of s] by (cases "step (Recv (Inl Closed)) s") simp

lemma loop_eq:
  "event_loop step is s = (fold effect (before_close is) s, Recv (Inl Closed) \<notin> set is)"
proof (induction "is" arbitrary: s)
  case (Cons i "is")
  show ?case
  proof (cases "i = Recv (Inl Closed)")
    case True
    then show ?thesis by (simp add: step_closed)
  next
    case False
    then show ?thesis by (simp add: step_open Cons.IH)
  qed
qed simp

lemma loop_ends_iff_closed: "snd (event_loop step is s) \<longleftrightarrow> Recv (Inl Closed) \<notin> set is"
  by (simp add: loop_eq)

lemma loop_invariant:
  assumes "P s" "\<And>i s. P s \<Longrightarrow> i \<noteq> Recv (Inl Closed) \<Longrightarrow> P (effect i s)"
  shows "P (fst (event_loop step is s))"
  using assms(1)
proof (induction "is" arbitrary: s)
  case (Cons i "is")
  show ?case
  proof (cases "i = Recv (Inl Closed)")
    case True
    with Cons.prems show ?thesis by (simp add: step_closed)
  next
    case False
    with Cons.IH [OF assms(2) [OF Cons.prems False]] show ?thesis by (simp add: step_open)
  qed
qed simp

end

end
