(* ===== verification/Achievement.thy ===== *)
theory Achievement
  imports Bloop Trigger Event
begin

text \<open>
  Achievements (\<open>src/src/achievement.rs\<close>) and the evaluator interface (\<open>src/src/evaluator/mod.rs\<close>,
  \<open>boxed.rs\<close>): the result of an evaluation, the tracker that collects awards during one evaluation
  cycle, the context an evaluator sees, the achievement with its lazily resolved audio file, and
  the builder.

  The context hands out two cells behind mutexes, the trigger registry and the tracker. An
  evaluator is therefore a function from a context to a result and the context it leaves; the only
  calls that change the context are \<open>award_achievement\<close> and \<open>has_trigger\<close>, the other fields being shared
  references. The locale \<open>evaluator_api\<close> states this; every evaluator of the repository interprets it.
  Reading the file system and MD5 are arguments.
\<close>

section \<open>Evaluation results\<close>

datatype eval_result = AwardSelf | AwardMultiple "uuid list" | NoAward

definition eval_result_from_bool :: "bool \<Rightarrow> eval_result" where
  "eval_result_from_bool value = (if value then AwardSelf else NoAward)"

definition eval_result_from_option :: "uuid option \<Rightarrow> eval_result" where
  "eval_result_from_option value =
     (case value of None \<Rightarrow> NoAward | Some i \<Rightarrow> AwardMultiple [i])"

definition eval_result_from_vec :: "uuid list \<Rightarrow> eval_result" where
  "eval_result_from_vec value = AwardMultiple value"

definition eval_result_from_option_vec :: "uuid list option \<Rightarrow> eval_result" where
  "eval_result_from_option_vec value =
     (case value of None \<Rightarrow> NoAward | Some is \<Rightarrow> AwardMultiple is)"

datatype award_mode = Current | All

datatype 'c derived_ctx = Borrowed 'c | Owned 'c

fun derived_as_ref :: "'c derived_ctx \<Rightarrow> 'c" where
  "derived_as_ref (Borrowed r) = r"
| "derived_as_ref (Owned v) = v"

section \<open>The tracker\<close>

record awarded_tracker =
  awarded_at :: datetime
  awarded :: "(uuid \<times> uuid list) list"

definition tracker_new :: "bloop \<Rightarrow> awarded_tracker" where
  "tracker_new b = \<lparr>awarded_at = recorded_at b, awarded = []\<rparr>"

definition tracker_add :: "uuid \<Rightarrow> uuid \<Rightarrow> awarded_tracker \<Rightarrow> awarded_tracker" where
  "tracker_add ach pid tr = tr\<lparr>awarded := entry_update [] pid (List.insert ach) (awarded tr)\<rparr>"

definition for_player :: "awarded_tracker \<Rightarrow> uuid \<Rightarrow> uuid list option" where
  "for_player tr pid = map_of (awarded tr) pid"

text \<open>\<open>for_player_mut\<close> returns a reference to the player's set, which it creates when there is none;
  here the changes made through the reference are an argument.\<close>

definition for_player_mut :: "uuid \<Rightarrow> (uuid list \<Rightarrow> uuid list) \<Rightarrow> awarded_tracker \<Rightarrow> awarded_tracker" where
  "for_player_mut pid f tr = tr\<lparr>awarded := entry_update [] pid f (awarded tr)\<rparr>"

definition remove_duplicates ::
  "('p, 'n) player_ops \<Rightarrow> ('p, 'n) players \<Rightarrow> awarded_tracker \<Rightarrow> awarded_tracker" where
  "remove_duplicates ops players tr =
     tr\<lparr>awarded := retain_map (\<lambda>pid achievements.
          case read_by_id players pid of
            None \<Rightarrow> None
          | Some p \<Rightarrow>
              (let achievements = filter (\<lambda>a. awarded_achievements ops p a = None) achievements
               in if achievements = [] then None else Some achievements)) (awarded tr)\<rparr>"

definition award_batch_from :: "awarded_tracker \<Rightarrow> achievement_award_batch" where
  "award_batch_from tr =
     \<lparr>batch_awarded_at = awarded_at tr,
      batch_players = map (\<lambda>(pid, achievements).
        \<lparr>award_player_id = pid, achievement_ids = achievements\<rparr>) (awarded tr)\<rparr>"

section \<open>The context\<close>

record ('p, 's, 'n, 't) achievement_context =
  current_bloop :: bloop
  ctx_bloop_provider :: bloop_provider
  ctx_state :: 's
  ctx_trigger_registry :: "('n, 't) trigger_registry"
  ctx_awarded_tracker :: awarded_tracker
  ctx_players :: "'p store"

type_synonym ('p, 's, 'n, 't) evaluator =
  "('p, 's, 'n, 't) achievement_context \<Rightarrow> eval_result \<times> ('p, 's, 'n, 't) achievement_context"

definition context_new ::
  "bloop \<Rightarrow> bloop_provider \<Rightarrow> 's \<Rightarrow> ('n, 't) trigger_registry \<Rightarrow> 'p store \<Rightarrow>
   ('p, 's, 'n, 't) achievement_context" where
  "context_new b provider st reg players =
     \<lparr>current_bloop = b, ctx_bloop_provider = provider, ctx_state = st,
      ctx_trigger_registry = reg, ctx_awarded_tracker = tracker_new b, ctx_players = players\<rparr>"

definition global_bloops :: "('p, 's, 'n, 't) achievement_context \<Rightarrow> bloop list" where
  "global_bloops ctx = bloops (global (ctx_bloop_provider ctx))"

definition client_bloops :: "('p, 's, 'n, 't) achievement_context \<Rightarrow> bloop list" where
  "client_bloops ctx =
     bloops (for_client (ctx_bloop_provider ctx) (client_id (current_bloop ctx)))"

definition filter_current_player :: "('p, 's, 'n, 't) achievement_context \<Rightarrow> bloop \<Rightarrow> bool" where
  "filter_current_player ctx = bloops_for_player (player_id (current_bloop ctx))"

definition filter_within_window ::
  "('p, 's, 'n, 't) achievement_context \<Rightarrow> duration \<Rightarrow> bloop \<Rightarrow> bool" where
  "filter_within_window ctx d = bloops_since (recorded_at (current_bloop ctx) - int d)"

definition award_achievement ::
  "uuid \<Rightarrow> uuid \<Rightarrow> ('p, 's, 'n, 't) achievement_context \<Rightarrow> ('p, 's, 'n, 't) achievement_context" where
  "award_achievement ach pid ctx =
     ctx\<lparr>ctx_awarded_tracker := tracker_add ach pid (ctx_awarded_tracker ctx)\<rparr>"

definition take_awarded_tracker :: "('p, 's, 'n, 't) achievement_context \<Rightarrow> awarded_tracker" where
  "take_awarded_tracker ctx = ctx_awarded_tracker ctx"

definition has_trigger ::
  "'t \<Rightarrow> ('p, 's, 'n, 't) achievement_context \<Rightarrow> bool \<times> ('p, 's, 'n, 't) achievement_context" where
  "has_trigger trigger ctx =
     (let (active, reg) = check_active_trigger trigger (client_id (current_bloop ctx))
            (recorded_at (current_bloop ctx)) (ctx_trigger_registry ctx)
      in (active, ctx\<lparr>ctx_trigger_registry := reg\<rparr>))"

text \<open>\<open>into_dyn_evaluator\<close> boxes an evaluator; the boxed one converts the result with \<open>into()\<close>.\<close>

definition into_dyn_evaluator ::
  "('r \<Rightarrow> eval_result) \<Rightarrow>
   (('p, 's, 'n, 't) achievement_context \<Rightarrow> 'r \<times> ('p, 's, 'n, 't) achievement_context) \<Rightarrow>
   ('p, 's, 'n, 't) evaluator" where
  "into_dyn_evaluator into evaluate ctx = (let (r, ctx) = evaluate ctx in (into r, ctx))"

section \<open>Achievements and their audio\<close>

record audio_file =
  file_path :: path
  file_hash :: data_hash

record audio_source =
  relative :: "path option"
  resolved :: "audio_file option option"

definition audio_source_from :: "path option \<Rightarrow> audio_source" where
  "audio_source_from p = \<lparr>relative = p, resolved = None\<rparr>"

text \<open>\<open>Path::join\<close> on Unix: an absolute second path replaces the first.\<close>

definition path_join :: "path \<Rightarrow> path \<Rightarrow> path" where
  "path_join base rel =
     (if rel \<noteq> [] \<and> hd rel = CHR ''/'' then rel
      else if base = [] \<or> last base = CHR ''/'' then base @ rel
      else base @ ''/'' @ rel)"

definition audio_resolve ::
  "(u8 list \<Rightarrow> data_hash) \<Rightarrow> (path \<Rightarrow> u8 list option) \<Rightarrow> path \<Rightarrow> audio_source \<Rightarrow>
   audio_file option \<times> audio_source" where
  "audio_resolve md5 fs_read base_path src =
     (case resolved src of
        Some r \<Rightarrow> (r, src)
      | None \<Rightarrow>
          (let r = (case relative src of
                      None \<Rightarrow> None
                    | Some rel \<Rightarrow>
                        (let path = path_join base_path rel in
                         case fs_read path of
                           None \<Rightarrow> None
                         | Some content \<Rightarrow> Some \<lparr>file_path = path, file_hash = md5 content\<rparr>))
           in (r, src\<lparr>resolved := Some r\<rparr>)))"

record ('m, 'p, 's, 'n, 't) achievement =
  achievement_id :: uuid
  metadata :: 'm
  audio_file :: audio_source
  evaluator :: "('p, 's, 'n, 't) evaluator"
  hot_duration :: "duration option"

definition achievement_evaluate ::
  "('m, 'p, 's, 'n, 't) achievement \<Rightarrow> ('p, 's, 'n, 't) achievement_context \<Rightarrow>
   ('p, 's, 'n, 't) achievement_context" where
  "achievement_evaluate ach ctx =
     (let (r, ctx) = evaluator ach ctx in
      case r of
        AwardSelf \<Rightarrow> award_achievement (achievement_id ach) (player_id (current_bloop ctx)) ctx
      | AwardMultiple player_ids \<Rightarrow> fold (award_achievement (achievement_id ach)) player_ids ctx
      | NoAward \<Rightarrow> ctx)"

section \<open>The builder\<close>

record ('m, 'p, 's, 'n, 't) achievement_builder =
  ab_id :: "uuid option"
  ab_evaluator :: "('p, 's, 'n, 't) evaluator option"
  ab_metadata :: 'm
  ab_audio_path :: "path option"
  ab_hot_duration :: "duration option"

definition achievement_builder_new :: "(unit, 'p, 's, 'n, 't) achievement_builder" where
  "achievement_builder_new =
     \<lparr>ab_id = None, ab_evaluator = None, ab_metadata = (), ab_audio_path = None,
      ab_hot_duration = None\<rparr>"

text \<open>The setters. \<open>evaluator\<close> boxes the evaluator it is given; \<open>metadata\<close> changes the type.\<close>

definition achievement_builder_id ::
  "uuid \<Rightarrow> ('m, 'p, 's, 'n, 't) achievement_builder \<Rightarrow> ('m, 'p, 's, 'n, 't) achievement_builder" where
  "achievement_builder_id i b = b\<lparr>ab_id := Some i\<rparr>"

definition achievement_builder_evaluator ::
  "('r \<Rightarrow> eval_result) \<Rightarrow>
   (('p, 's, 'n, 't) achievement_context \<Rightarrow> 'r \<times> ('p, 's, 'n, 't) achievement_context) \<Rightarrow>
   ('m, 'p0, 's0, 'n0, 't0) achievement_builder \<Rightarrow> ('m, 'p, 's, 'n, 't) achievement_builder" where
  "achievement_builder_evaluator into ev b =
     \<lparr>ab_id = ab_id b, ab_evaluator = Some (into_dyn_evaluator into ev), ab_metadata = ab_metadata b,
      ab_audio_path = ab_audio_path b, ab_hot_duration = ab_hot_duration b\<rparr>"

definition achievement_builder_metadata ::
  "'m \<Rightarrow> ('m0, 'p, 's, 'n, 't) achievement_builder \<Rightarrow> ('m, 'p, 's, 'n, 't) achievement_builder" where
  "achievement_builder_metadata m b =
     \<lparr>ab_id = ab_id b, ab_evaluator = ab_evaluator b, ab_metadata = m,
      ab_audio_path = ab_audio_path b, ab_hot_duration = ab_hot_duration b\<rparr>"

definition achievement_builder_audio_path ::
  "path \<Rightarrow> ('m, 'p, 's, 'n, 't) achievement_builder \<Rightarrow> ('m, 'p, 's, 'n, 't) achievement_builder" where
  "achievement_builder_audio_path p b = b\<lparr>ab_audio_path := Some p\<rparr>"

definition achievement_builder_hot_duration ::
  "duration \<Rightarrow> ('m, 'p, 's, 'n, 't) achievement_builder \<Rightarrow> ('m, 'p, 's, 'n, 't) achievement_builder" where
  "achievement_builder_hot_duration d b = b\<lparr>ab_hot_duration := Some d\<rparr>"

definition achievement_build ::
  "('m, 'p, 's, 'n, 't) achievement_builder \<Rightarrow> builder_error + ('m, 'p, 's, 'n, 't) achievement" where
  "achievement_build b =
     try_bind (ok_or (MissingField ''id'') (ab_id b)) (\<lambda>i.
     try_bind (ok_or (MissingField ''evaluator'') (ab_evaluator b)) (\<lambda>e.
       Inr \<lparr>achievement_id = i, metadata = ab_metadata b,
            audio_file = audio_source_from (ab_audio_path b), evaluator = e,
            hot_duration = ab_hot_duration b\<rparr>))"

section \<open>The abstract view of the tracker\<close>

definition awards :: "awarded_tracker \<Rightarrow> uuid \<Rightarrow> uuid set" where
  "awards tr pid = (case for_player tr pid of None \<Rightarrow> {} | Some achs \<Rightarrow> set achs)"

definition tracker_wf :: "awarded_tracker \<Rightarrow> bool" where
  "tracker_wf tr \<longleftrightarrow> map_wf (awarded tr) \<and> (\<forall>pid achs. for_player tr pid = Some achs \<longrightarrow> distinct achs)"

lemma for_player_new [simp]: "for_player (tracker_new b) pid = None"
  by (simp add: for_player_def tracker_new_def)

lemma for_player_add:
  "for_player (tracker_add ach pid tr) =
     (for_player tr)(pid \<mapsto> List.insert ach (case for_player tr pid of None \<Rightarrow> [] | Some achs \<Rightarrow> achs))"
  by (rule ext) (simp add: for_player_def tracker_add_def)

lemma for_player_for_player_mut:
  "for_player (for_player_mut pid f tr) =
     (for_player tr)(pid \<mapsto> f (case for_player tr pid of None \<Rightarrow> [] | Some achs \<Rightarrow> achs))"
  by (rule ext) (simp add: for_player_def for_player_mut_def)

lemma awards_new [simp]: "awards (tracker_new b) pid = {}"
  by (simp add: awards_def)

lemma awards_add [simp]:
  "awards (tracker_add ach pid tr) = (awards tr)(pid := insert ach (awards tr pid))"
  by (rule ext) (simp add: awards_def for_player_add split: option.split)

lemma awarded_at_simps [simp]:
  "awarded_at (tracker_new b) = recorded_at b"
  "awarded_at (tracker_add ach pid tr) = awarded_at tr"
  "awarded_at (for_player_mut pid f tr) = awarded_at tr"
  "awarded_at (remove_duplicates ops players tr) = awarded_at tr"
  by (simp_all add: tracker_new_def tracker_add_def for_player_mut_def remove_duplicates_def)

lemma tracker_wf_new [simp]: "tracker_wf (tracker_new b)"
  by (simp add: tracker_wf_def) (simp add: tracker_new_def)

lemma tracker_wf_for_player_mut:
  assumes "tracker_wf tr" "\<And>achs. distinct achs \<Longrightarrow> distinct (f achs)"
  shows "tracker_wf (for_player_mut pid f tr)"
proof -
  have "map_wf (awarded (for_player_mut pid f tr))"
    using assms(1) by (simp add: for_player_mut_def tracker_wf_def)
  moreover have "distinct (f (case for_player tr pid of None \<Rightarrow> [] | Some achs \<Rightarrow> achs))"
    using assms by (auto simp: tracker_wf_def split: option.split)
  ultimately show ?thesis
    using assms(1) by (auto simp: tracker_wf_def for_player_for_player_mut split: if_splits)
qed

lemma tracker_add_mut: "tracker_add ach pid = for_player_mut pid (List.insert ach)"
  by (rule ext) (simp add: tracker_add_def for_player_mut_def)

lemma tracker_wf_add [simp]: "tracker_wf tr \<Longrightarrow> tracker_wf (tracker_add ach pid tr)"
  by (simp add: tracker_add_mut tracker_wf_for_player_mut)

lemma for_player_remove_duplicates:
  assumes "tracker_wf tr"
  shows "for_player (remove_duplicates ops players tr) pid =
    Option.bind (for_player tr pid) (\<lambda>achs.
      case read_by_id players pid of
        None \<Rightarrow> None
      | Some p \<Rightarrow>
          (let new = filter (\<lambda>a. awarded_achievements ops p a = None) achs
           in if new = [] then None else Some new))"
  using assms by (simp add: for_player_def remove_duplicates_def tracker_wf_def map_of_retain_map)

lemma tracker_wf_remove_duplicates:
  assumes "tracker_wf tr"
  shows "tracker_wf (remove_duplicates ops players tr)"
proof -
  have "map_wf (awarded (remove_duplicates ops players tr))"
    using assms by (simp add: remove_duplicates_def tracker_wf_def)
  moreover have "distinct achs" if "for_player (remove_duplicates ops players tr) pid = Some achs" for pid achs
    using that assms
    by (auto simp: for_player_remove_duplicates [OF assms] tracker_wf_def Let_def
        bind_eq_Some_conv split: option.splits if_splits)
  ultimately show ?thesis by (simp add: tracker_wf_def)
qed

lemma awards_remove_duplicates:
  assumes "tracker_wf tr"
  shows "awards (remove_duplicates ops players tr) pid =
    (case read_by_id players pid of
       None \<Rightarrow> {}
     | Some p \<Rightarrow> {ach \<in> awards tr pid. awarded_achievements ops p ach = None})"
  using assms
  by (auto simp: awards_def for_player_remove_duplicates Let_def filter_empty_conv
      split: option.splits)

section \<open>What an evaluator may do\<close>

inductive ctx_step ::
  "('p, 's, 'n, 't) achievement_context \<Rightarrow> ('p, 's, 'n, 't) achievement_context \<Rightarrow> bool" where
  award: "ctx_step ctx (award_achievement ach pid ctx)"
| trigger: "ctx_step ctx (snd (has_trigger trigger ctx))"

inductive_cases ctx_step_elim: "ctx_step ctx ctx'"

lemma has_trigger_snd:
  "snd (has_trigger trigger ctx) =
     ctx\<lparr>ctx_trigger_registry :=
       snd (check_active_trigger trigger (client_id (current_bloop ctx))
         (recorded_at (current_bloop ctx)) (ctx_trigger_registry ctx))\<rparr>"
  by (simp add: has_trigger_def Let_def split: prod.split)

lemma award_achievement_frame [frame_simps]:
  "current_bloop (award_achievement ach pid ctx) = current_bloop ctx"
  "ctx_bloop_provider (award_achievement ach pid ctx) = ctx_bloop_provider ctx"
  "ctx_state (award_achievement ach pid ctx) = ctx_state ctx"
  "ctx_trigger_registry (award_achievement ach pid ctx) = ctx_trigger_registry ctx"
  "ctx_players (award_achievement ach pid ctx) = ctx_players ctx"
  "ctx_awarded_tracker (award_achievement ach pid ctx) = tracker_add ach pid (ctx_awarded_tracker ctx)"
  by (simp_all add: award_achievement_def)

lemma fold_award_frame [frame_simps]:
  "current_bloop (fold (award_achievement ach) pids ctx) = current_bloop ctx"
  "ctx_bloop_provider (fold (award_achievement ach) pids ctx) = ctx_bloop_provider ctx"
  "ctx_state (fold (award_achievement ach) pids ctx) = ctx_state ctx"
  "ctx_trigger_registry (fold (award_achievement ach) pids ctx) = ctx_trigger_registry ctx"
  "ctx_players (fold (award_achievement ach) pids ctx) = ctx_players ctx"
  by (induction pids arbitrary: ctx) (simp_all add: frame_simps)

lemma fold_award_tracker:
  "ctx_awarded_tracker (fold (award_achievement ach) pids ctx) =
     fold (tracker_add ach) pids (ctx_awarded_tracker ctx)"
  by (induction pids arbitrary: ctx) (simp_all add: frame_simps)

lemma awards_fold_add:
  "awards (fold (tracker_add ach) pids tr) pid =
     (if pid \<in> set pids then insert ach (awards tr pid) else awards tr pid)"
  by (induction pids arbitrary: tr) auto

text \<open>What every run through the context's interface keeps: the shared references, the
  tracker's well-formedness and time, the awards already made, and the triggers' invariant.\<close>

definition ctx_extends ::
  "('p, 's, 'n, 't) achievement_context \<Rightarrow> ('p, 's, 'n, 't) achievement_context \<Rightarrow> bool" where
  "ctx_extends ctx ctx' \<longleftrightarrow>
     current_bloop ctx' = current_bloop ctx \<and>
     ctx_bloop_provider ctx' = ctx_bloop_provider ctx \<and>
     ctx_state ctx' = ctx_state ctx \<and>
     ctx_players ctx' = ctx_players ctx \<and>
     awarded_at (ctx_awarded_tracker ctx') = awarded_at (ctx_awarded_tracker ctx) \<and>
     (tracker_wf (ctx_awarded_tracker ctx) \<longrightarrow> tracker_wf (ctx_awarded_tracker ctx')) \<and>
     (\<forall>pid. awards (ctx_awarded_tracker ctx) pid \<subseteq> awards (ctx_awarded_tracker ctx') pid) \<and>
     trigger_step\<^sup>*\<^sup>* (ctx_trigger_registry ctx) (ctx_trigger_registry ctx')"

lemma ctx_extends_refl [simp]: "ctx_extends ctx ctx"
  by (simp add: ctx_extends_def)

lemma ctx_extends_trans: "ctx_extends c1 c2 \<Longrightarrow> ctx_extends c2 c3 \<Longrightarrow> ctx_extends c1 c3"
  unfolding ctx_extends_def by (auto intro: rtranclp_trans)

lemma trigger_step_check: "trigger_step reg (snd (check_active_trigger trigger cid t reg))"
  by (rule trigger_step.check [OF prod.collapse [symmetric]])

lemma ctx_step_extends:
  assumes "ctx_step ctx ctx'"
  shows "ctx_extends ctx ctx'"
  using assms
proof (cases rule: ctx_step.cases)
  case (award ach pid)
  then show ?thesis by (simp add: ctx_extends_def frame_simps subset_insertI)
next
  case (trigger trig)
  then show ?thesis
    by (simp add: ctx_extends_def has_trigger_snd r_into_rtranclp trigger_step_check)
qed

locale evaluator_api =
  fixes evaluate :: "('p, 's, 'n, 't) evaluator"
  assumes only_api: "ctx_step\<^sup>*\<^sup>* ctx (snd (evaluate ctx))"
begin

lemma evaluate_extends: "ctx_extends ctx (snd (evaluate ctx))"
  using only_api [of ctx]
  by (induction rule: rtranclp_induct) (auto intro: ctx_extends_trans ctx_step_extends)

end

text \<open>An evaluator that leaves awarding to its result, as all of the framework's do.\<close>

locale result_evaluator = evaluator_api +
  assumes no_direct_award: "ctx_awarded_tracker (snd (evaluate ctx)) = ctx_awarded_tracker ctx"

definition awardees :: "eval_result \<Rightarrow> uuid \<Rightarrow> uuid set" where
  "awardees r current =
     (case r of AwardSelf \<Rightarrow> {current} | AwardMultiple pids \<Rightarrow> set pids | NoAward \<Rightarrow> {})"

lemma award_extends: "ctx_extends ctx (award_achievement ach pid ctx)"
  by (rule ctx_step_extends [OF ctx_step.award])

lemma fold_award_extends: "ctx_extends ctx (fold (award_achievement ach) pids ctx)"
  by (induction pids arbitrary: ctx) (auto intro: ctx_extends_trans award_extends)

lemma ctx_extendsD:
  assumes "ctx_extends ctx ctx'"
  shows "current_bloop ctx' = current_bloop ctx" "ctx_players ctx' = ctx_players ctx"
    "ctx_bloop_provider ctx' = ctx_bloop_provider ctx" "ctx_state ctx' = ctx_state ctx"
    "awarded_at (ctx_awarded_tracker ctx') = awarded_at (ctx_awarded_tracker ctx)"
    "tracker_wf (ctx_awarded_tracker ctx) \<Longrightarrow> tracker_wf (ctx_awarded_tracker ctx')"
    "awards (ctx_awarded_tracker ctx) pid \<subseteq> awards (ctx_awarded_tracker ctx') pid"
    "trigger_step\<^sup>*\<^sup>* (ctx_trigger_registry ctx) (ctx_trigger_registry ctx')"
  using assms by (simp_all add: ctx_extends_def)

lemma achievement_evaluate_extends:
  assumes "evaluator_api (evaluator ach)"
  shows "ctx_extends ctx (achievement_evaluate ach ctx)"
proof -
  obtain r c where rc: "evaluator ach ctx = (r, c)" by (cases "evaluator ach ctx")
  have "ctx_extends ctx c" using evaluator_api.evaluate_extends [OF assms, of ctx] rc by simp
  then show ?thesis
    by (cases r) (auto simp: achievement_evaluate_def rc
        intro: ctx_extends_trans award_extends fold_award_extends)
qed

lemma awards_achievement_evaluate:
  assumes "result_evaluator (evaluator ach)"
  shows "awards (ctx_awarded_tracker (achievement_evaluate ach ctx)) pid =
    (if pid \<in> awardees (fst (evaluator ach ctx)) (player_id (current_bloop ctx))
     then insert (achievement_id ach) (awards (ctx_awarded_tracker ctx) pid)
     else awards (ctx_awarded_tracker ctx) pid)"
proof -
  have api: "evaluator_api (evaluator ach)" using assms by (simp add: result_evaluator_def)
  obtain r c where rc: "evaluator ach ctx = (r, c)" by (cases "evaluator ach ctx")
  have "current_bloop c = current_bloop ctx"
    using evaluator_api.evaluate_extends [OF api, of ctx] rc by (simp add: ctx_extends_def)
  moreover have "ctx_awarded_tracker c = ctx_awarded_tracker ctx"
    using result_evaluator.no_direct_award [OF assms, of ctx] rc by simp
  ultimately show ?thesis
    by (cases r) (auto simp: achievement_evaluate_def rc awardees_def frame_simps
        fold_award_tracker awards_fold_add)
qed

lemma audio_resolve_again [simp]:
  "audio_resolve md5 fs' base' (snd (audio_resolve md5 fs base src)) = audio_resolve md5 fs base src"
  by (simp add: audio_resolve_def Let_def split: option.split)

text \<open>The evaluator of the module's tests.\<close>

definition dummy_evaluator :: "eval_result \<Rightarrow> ('p, 's, 'n, 't) evaluator" where
  "dummy_evaluator r ctx = (r, ctx)"

interpretation dummy_evaluator: result_evaluator "dummy_evaluator r" for r
  by unfold_locales (simp_all add: dummy_evaluator_def)

definition demo_ctx :: "bloop_provider \<Rightarrow> bloop \<Rightarrow> (nat mock_player, unit, nat, nat) achievement_context" where
  "demo_ctx provider b =
     context_new b provider () (trigger_registry_new Map.empty) (fst demo_players)"

definition demo_achievement ::
  "uuid \<Rightarrow> (nat mock_player, unit, nat, nat) evaluator \<Rightarrow>
   (unit, nat mock_player, unit, nat, nat) achievement" where
  "demo_achievement i e =
     \<lparr>achievement_id = i, metadata = (), audio_file = audio_source_from None, evaluator = e,
      hot_duration = None\<rparr>"

section \<open>Properties\<close>

text \<open>Evaluating an achievement awards it to exactly the players the evaluator's result names (the
  current player for \<open>AwardSelf\<close>, the listed players for \<open>AwardMultiple\<close>, nobody for \<open>NoAward\<close>), keeps all
  awards already recorded and awards nothing else, for every evaluator that leaves the tracker to
  its result.\<close>

theorem achievement_evaluate_awards_result:
  assumes "result_evaluator (evaluator ach)" "tracker_wf (ctx_awarded_tracker ctx)"
  shows "(let ctx' = achievement_evaluate ach ctx
          in tracker_wf (ctx_awarded_tracker ctx') \<and> current_bloop ctx' = current_bloop ctx \<and>
             awards (ctx_awarded_tracker ctx') =
               (\<lambda>pid. awards (ctx_awarded_tracker ctx) pid \<union>
                  (if pid \<in> awardees (fst (evaluator ach ctx)) (player_id (current_bloop ctx))
                   then {achievement_id ach} else {})))"
proof -
  have "evaluator_api (evaluator ach)" using assms by (simp add: result_evaluator_def)
  note ext = achievement_evaluate_extends [OF this, of ctx]
  show ?thesis
    unfolding Let_def
    using ctx_extendsD(6) [OF ext assms(2)] ctx_extendsD(1) [OF ext]
    by (auto simp: fun_eq_iff awards_achievement_evaluate [OF assms(1)])
qed

theorem achievement_evaluate_awards_result_witness:
  "awards (ctx_awarded_tracker (achievement_evaluate
     (demo_achievement 7 (dummy_evaluator (AwardMultiple [1, 2])))
     (demo_ctx (provider_new 100) (demo_bloop 1 ''c'' 5)))) 2 = {7}"
  using achievement_evaluate_awards_result
    [of "demo_achievement 7 (dummy_evaluator (AwardMultiple [1, 2]))"
      "demo_ctx (provider_new 100) (demo_bloop 1 ''c'' 5)"]
  by (simp add: demo_achievement_def demo_ctx_def context_new_def Let_def awardees_def
      dummy_evaluator_def [of _ "context_new _ _ _ _ _"] dummy_evaluator.result_evaluator_axioms)
    (simp add: dummy_evaluator_def)

text \<open>Removing duplicates leaves for every player exactly the achievements of the tracker the player
  does not have yet, nothing for a player who is not registered, no empty entry, and no entry twice.\<close>

theorem remove_duplicates_keeps_new_awards:
  assumes "tracker_wf tr"
  shows "(let tr' = remove_duplicates ops players tr
          in tracker_wf tr' \<and> awarded_at tr' = awarded_at tr \<and>
             (\<forall>pid. for_player tr' pid \<noteq> Some []) \<and>
             (\<forall>pid. awards tr' pid =
                (case read_by_id players pid of
                   None \<Rightarrow> {}
                 | Some p \<Rightarrow> {ach \<in> awards tr pid. awarded_achievements ops p ach = None})))"
  using assms
  by (auto simp: Let_def tracker_wf_remove_duplicates awards_remove_duplicates
      for_player_remove_duplicates bind_eq_Some_conv split: option.splits if_splits)

theorem remove_duplicates_keeps_new_awards_witness:
  "awards (remove_duplicates mock_player_ops demo_players
     (tracker_add 7 1 (tracker_add 7 9 (tracker_new (demo_bloop 1 ''c'' 5))))) 1 = {7} \<and>
   awards (remove_duplicates mock_player_ops demo_players
     (tracker_add 7 1 (tracker_add 7 9 (tracker_new (demo_bloop 1 ''c'' 5))))) 9 = {}"
  using remove_duplicates_keeps_new_awards
    [of "tracker_add 7 1 (tracker_add 7 9 (tracker_new (demo_bloop 1 ''c'' 5)))"
      mock_player_ops demo_players]
  by (simp add: Let_def demo_players_eval read_by_id_def demo_simps)

end
