(* ===== verification/Bloop_Sink.thy ===== *)
theory Bloop_Sink
  imports Bloop Event
begin

text \<open>
  The second half of \<open>src/src/bloop.rs\<close>: \<open>ProcessedBloop\<close>, the \<open>BloopRepository\<close> trait and the
  \<open>ProcessedBloopSink\<close> that buffers processed bloops and persists them in batches, with its builder.
  The repository is the application's: \<open>persist_batch\<close> is an argument of the operations, and what
  the sink relies on is the locale \<open>bloop_repository\<close> (a batch is stored completely or not at all),
  interpreted on the repository the module's own tests use. The sink's loop is the common
  event loop of \<open>Event\<close>, driven by the branches that \<open>select!\<close> completes.
\<close>

definition processed_bloop_from :: "bloop \<Rightarrow> processed_bloop" where
  "processed_bloop_from b =
     \<lparr>pb_player_id = player_id b, pb_client_id = client_id b, pb_recorded_at = recorded_at b\<rparr>"

type_synonym ('r, 'e) persist_batch = "processed_bloop list \<Rightarrow> 'r \<Rightarrow> ('e + unit) \<times> 'r"

record 'r processed_bloop_sink =
  repository :: 'r
  buffer :: "processed_bloop list"
  max_batch_size :: nat
  max_batch_duration :: duration

definition flush :: "('r, 'e) persist_batch \<Rightarrow> 'r processed_bloop_sink \<Rightarrow> 'r processed_bloop_sink" where
  "flush persist s =
     (if buffer s = [] then s
      else
        (let batch = buffer s;
             s = s\<lparr>buffer := []\<rparr>;
             (res, repo) = persist batch (repository s);
             s = s\<lparr>repository := repo\<rparr>
         in case res of
              Inl err \<Rightarrow> s\<lparr>buffer := buffer s @ batch\<rparr>
            | Inr _ \<Rightarrow> s))"

fun handle_recv ::
  "('r, 'e) persist_batch \<Rightarrow> recv_result \<Rightarrow> 'r processed_bloop_sink \<Rightarrow> 'r processed_bloop_sink \<times> bool" where
  "handle_recv persist (Inr (BloopProcessed b)) s =
     (let s = s\<lparr>buffer := buffer s @ [b]\<rparr>
      in if length (buffer s) \<ge> max_batch_size s then (flush persist s, True) else (s, True))"
| "handle_recv persist (Inr e) s = (s, True)"
| "handle_recv persist (Inl (Lagged n)) s = (flush persist s, True)"
| "handle_recv persist (Inl Closed) s = (s, False)"

text \<open>One round of the loop of \<open>process_events\<close>: the flush timer ticks, or something is received.\<close>

fun sink_step ::
  "('r, 'e) persist_batch \<Rightarrow> unit select_branch \<Rightarrow> 'r processed_bloop_sink \<Rightarrow> 'r processed_bloop_sink \<times> bool" where
  "sink_step persist (Other tick) s = (flush persist s, True)"
| "sink_step persist (Recv result) s = handle_recv persist result s"

definition process_events ::
  "('r, 'e) persist_batch \<Rightarrow> unit select_branch list \<Rightarrow> 'r processed_bloop_sink \<Rightarrow> 'r processed_bloop_sink \<times> bool" where
  "process_events persist = event_loop (sink_step persist)"

text \<open>
  \<open>IntoSubsystem::run\<close>: the loop runs until it ends or a shutdown cancels it, then a last flush.
  Cancellation drops the loop's future at an \<open>await\<close>: while \<open>select!\<close> waits for a branch, which
  leaves the sink as it is, or while the branch it has taken awaits \<open>persist_batch\<close> inside \<open>flush\<close>, when
  the batch has already been taken out of the buffer and is dropped with the future. What the dropped
  call did to the repository by then is the argument \<open>repo\<close>.
\<close>

definition flush_cancelled :: "'r \<Rightarrow> 'r processed_bloop_sink \<Rightarrow> 'r processed_bloop_sink" where
  "flush_cancelled repo s = (if buffer s = [] then s else s\<lparr>buffer := [], repository := repo\<rparr>)"

fun sink_step_cancelled ::
  "'r \<Rightarrow> unit select_branch \<Rightarrow> 'r processed_bloop_sink \<Rightarrow> 'r processed_bloop_sink" where
  "sink_step_cancelled repo (Other tick) s = flush_cancelled repo s"
| "sink_step_cancelled repo (Recv (Inr (BloopProcessed b))) s =
     (let s = s\<lparr>buffer := buffer s @ [b]\<rparr>
      in if length (buffer s) \<ge> max_batch_size s then flush_cancelled repo s else s)"
| "sink_step_cancelled repo (Recv (Inl (Lagged n))) s = flush_cancelled repo s"
| "sink_step_cancelled repo (Recv r) s = s"

text \<open>The argument \<open>cancelled\<close> is the branch that was being handled when the shutdown came, if any.\<close>

definition sink_run ::
  "('r, 'e) persist_batch \<Rightarrow> (unit select_branch \<times> 'r) option \<Rightarrow> unit select_branch list \<Rightarrow>
   'r processed_bloop_sink \<Rightarrow> 'r processed_bloop_sink" where
  "sink_run persist cancelled branches s =
     (let (s, waiting) = process_events persist branches s;
          s = (case cancelled of
                 Some (branch, repo) \<Rightarrow> if waiting then sink_step_cancelled repo branch s else s
               | None \<Rightarrow> s)
      in flush persist s)"

section \<open>The builder\<close>

record 'r sink_builder =
  sb_repository :: "'r option"
  sb_max_batch_size :: "nat option"
  sb_max_batch_duration :: "duration option"
  sb_event_rx :: "unit option"

definition sink_builder_new :: "'r sink_builder" where
  "sink_builder_new = \<lparr>sb_repository = None, sb_max_batch_size = None,
     sb_max_batch_duration = None, sb_event_rx = None\<rparr>"

text \<open>The setters.\<close>

definition sink_builder_repository :: "'r \<Rightarrow> 'r sink_builder \<Rightarrow> 'r sink_builder" where
  "sink_builder_repository r b = b\<lparr>sb_repository := Some r\<rparr>"

definition sink_builder_max_batch_size :: "nat \<Rightarrow> 'r sink_builder \<Rightarrow> 'r sink_builder" where
  "sink_builder_max_batch_size n b = b\<lparr>sb_max_batch_size := Some n\<rparr>"

definition sink_builder_max_batch_duration :: "duration \<Rightarrow> 'r sink_builder \<Rightarrow> 'r sink_builder" where
  "sink_builder_max_batch_duration d b = b\<lparr>sb_max_batch_duration := Some d\<rparr>"

definition sink_builder_event_rx :: "unit \<Rightarrow> 'r sink_builder \<Rightarrow> 'r sink_builder" where
  "sink_builder_event_rx rx b = b\<lparr>sb_event_rx := Some rx\<rparr>"

definition sink_build :: "'r sink_builder \<Rightarrow> builder_error + 'r processed_bloop_sink" where
  "sink_build b =
     try_bind (ok_or (MissingField ''repository'') (sb_repository b)) (\<lambda>repo.
     try_bind (ok_or (MissingField ''max_batch_size'') (sb_max_batch_size b)) (\<lambda>size.
     try_bind (ok_or (MissingField ''max_batch_duration'') (sb_max_batch_duration b)) (\<lambda>dur.
     try_bind (ok_or (MissingField ''event_rx'') (sb_event_rx b)) (\<lambda>rx.
       Inr \<lparr>repository = repo, buffer = [], max_batch_size = size, max_batch_duration = dur\<rparr>))))"

section \<open>The repository of the module's tests\<close>

record dummy_repo =
  sent_batches :: "processed_bloop list list"
  fail_persist :: bool

definition dummy_persist_batch :: "(dummy_repo, string) persist_batch" where
  "dummy_persist_batch batch r =
     (if fail_persist r then (Inl ''fail'', r)
      else (Inr (), r\<lparr>sent_batches := sent_batches r @ [batch]\<rparr>))"

section \<open>The contract of a repository and the sink's lemmas\<close>

lemma sink_step_continues: "snd (sink_step persist i s) \<longleftrightarrow> i \<noteq> Recv (Inl Closed)"
  by (cases "(persist, i, s)" rule: sink_step.cases; simp;
      cases "(persist, case i of Recv r \<Rightarrow> r, s)" rule: handle_recv.cases) (auto simp: Let_def)

interpretation sink: event_consumer "sink_step persist" for persist :: "('r, 'e) persist_batch"
  by unfold_locales (simp_all add: sink_step_continues)

lemmas sink_effect_def = sink.effect_def

lemma flush_keeps [simp]:
  "max_batch_size (flush persist s) = max_batch_size s"
  "max_batch_duration (flush persist s) = max_batch_duration s"
  by (auto simp: flush_def Let_def split: prod.split sum.split)

locale bloop_repository =
  fixes persist :: "('r, 'e) persist_batch"
    and stored :: "'r \<Rightarrow> processed_bloop list"
  assumes persist_ok: "persist batch r = (Inr (), r') \<Longrightarrow> stored r' = stored r @ batch"
    and persist_err: "persist batch r = (Inl e, r') \<Longrightarrow> stored r' = stored r"
begin

definition kept :: "'r processed_bloop_sink \<Rightarrow> processed_bloop list" where
  "kept s = stored (repository s) @ buffer s"

lemma kept_flush: "kept (flush persist s) = kept s"
proof (cases "buffer s = []")
  case False
  obtain res repo where p: "persist (buffer s) (repository s) = (res, repo)"
    by (cases "persist (buffer s) (repository s)")
  show ?thesis
  proof (cases res)
    case (Inl e)
    with p persist_err [of "buffer s" "repository s" e repo] False show ?thesis
      by (simp add: flush_def kept_def)
  next
    case (Inr u)
    with p persist_ok [of "buffer s" "repository s" repo] False show ?thesis
      by (simp add: flush_def kept_def)
  qed
qed (simp add: flush_def)

lemma kept_push [simp]: "kept (s\<lparr>buffer := buffer s @ [b]\<rparr>) = kept s @ [b]"
  by (simp add: kept_def)

lemma kept_recv:
  assumes "r \<noteq> Inl Closed"
  shows "kept (fst (handle_recv persist r s)) = kept s @ received_bloops [Recv r]"
proof (cases r)
  case (Inl e)
  with assms show ?thesis by (cases e) (simp_all add: kept_flush)
next
  case (Inr e)
  then show ?thesis by (cases e) (simp_all add: kept_flush Let_def)
qed

lemma kept_step:
  assumes "i \<noteq> Recv (Inl Closed)"
  shows "kept (fst (sink_step persist i s)) = kept s @ received_bloops [i]"
  using assms by (cases i) (simp_all add: kept_flush kept_recv)

lemma kept_loop:
  "kept (fst (process_events persist branches s)) = kept s @ received_bloops (before_close branches)"
proof (induction branches arbitrary: s)
  case (Cons i branches)
  show ?case
  proof (cases "i = Recv (Inl Closed)")
    case True
    then show ?thesis by (simp add: process_events_def)
  next
    case False
    then have "fst (process_events persist (i # branches) s) =
        fst (process_events persist branches (fst (sink_step persist i s)))"
      using sink_step_continues [of persist i s]
      by (cases "sink_step persist i s") (simp add: process_events_def)
    then have "kept (fst (process_events persist (i # branches) s)) =
        kept s @ received_bloops [i] @ received_bloops (before_close branches)"
      using Cons.IH [of "fst (sink_step persist i s)"] kept_step [OF False, of s] by simp
    also have "received_bloops [i] @ received_bloops (before_close branches) =
        received_bloops (i # before_close branches)"
      by (rule received_append [symmetric])
    finally show ?thesis using False by simp
  qed
qed (simp add: process_events_def)

lemma flush_success:
  assumes "fst (persist (buffer s) (repository s)) = Inr ()"
  shows "stored (repository (flush persist s)) = kept s" "buffer (flush persist s) = []"
proof -
  obtain repo where p: "persist (buffer s) (repository s) = (Inr (), repo)"
    using assms by (cases "persist (buffer s) (repository s)") simp
  then show "buffer (flush persist s) = []"
    by (simp add: flush_def)
  with kept_flush [of s] show "stored (repository (flush persist s)) = kept s"
    by (simp add: kept_def)
qed

end

interpretation dummy_repo: bloop_repository dummy_persist_batch "concat \<circ> sent_batches"
  by unfold_locales (auto simp: dummy_persist_batch_def split: if_splits)

lemma flush_buffer_length:
  assumes "\<And>batch r. fst (persist batch r) = Inr ()"
  shows "buffer (flush persist s) = []"
proof (cases "buffer s = []")
  case False
  obtain repo where "persist (buffer s) (repository s) = (Inr (), repo)"
    using assms [of "buffer s" "repository s"] by (cases "persist (buffer s) (repository s)") simp
  then show ?thesis by (simp add: flush_def)
qed (simp add: flush_def)

lemma max_batch_size_step [simp]: "max_batch_size (fst (sink_step persist i s)) = max_batch_size s"
proof (cases i)
  case (Recv r)
  then show ?thesis
    by (cases "(persist, r, s)" rule: handle_recv.cases) (simp_all add: Let_def)
qed simp

lemma buffer_bound_step:
  assumes "\<And>batch r. fst (persist batch r) = Inr ()" "length (buffer s) < max 1 (max_batch_size s)"
  shows "length (buffer (fst (sink_step persist i s))) < max 1 (max_batch_size s)"
proof (cases i)
  case (Recv r)
  show ?thesis
  proof (cases "(persist, r, s)" rule: handle_recv.cases)
    case (1 p b s')
    then show ?thesis using Recv assms by (auto simp: Let_def flush_buffer_length)
  qed (use Recv assms in \<open>auto simp: flush_buffer_length\<close>)
qed (use assms in \<open>auto simp: flush_buffer_length\<close>)

text \<open>The repository of the tests with its failure switch off, as a function that always accepts.\<close>

definition accept_all :: "(processed_bloop list, string) persist_batch" where
  "accept_all batch r = (Inr (), r @ batch)"

interpretation accept_all: bloop_repository accept_all "\<lambda>r. r"
  by unfold_locales (simp_all add: accept_all_def)

section \<open>Properties\<close>

text \<open>C28: The sink loses no bloop and keeps their order, whatever the repository answers: after any
  sequence of timer ticks, received events and lag notices, what the repository has stored followed
  by what the buffer holds is what it was at the start, followed by the bloops received before the
  channel closed.\<close>

theorem sink_loses_no_bloop:
  assumes "bloop_repository persist stored"
  shows "(let s' = fst (process_events persist branches s)
          in stored (repository s') @ buffer s' =
             stored (repository s) @ buffer s @ received_bloops (before_close branches))"
  using bloop_repository.kept_loop [OF assms, of branches s]
  by (simp add: bloop_repository.kept_def [OF assms] Let_def)

definition demo_pb :: "int \<Rightarrow> processed_bloop" where
  "demo_pb t = \<lparr>pb_player_id = 1, pb_client_id = ''c'', pb_recorded_at = t\<rparr>"

definition demo_sink :: "bool \<Rightarrow> dummy_repo processed_bloop_sink" where
  "demo_sink fail =
     \<lparr>repository = \<lparr>sent_batches = [], fail_persist = fail\<rparr>, buffer = [], max_batch_size = 2,
      max_batch_duration = from_secs 10\<rparr>"

theorem sink_loses_no_bloop_witness:
  "buffer (fst (process_events dummy_persist_batch
     [Recv (Inr (BloopProcessed (demo_pb 1))), Other (), Recv (Inr (BloopProcessed (demo_pb 2))),
      Recv (Inl Closed), Recv (Inr (BloopProcessed (demo_pb 3)))] (demo_sink True))) =
   [demo_pb 1, demo_pb 2]"
  using sink_loses_no_bloop [OF dummy_repo.bloop_repository_axioms,
      of "[Recv (Inr (BloopProcessed (demo_pb 1))), Other (), Recv (Inr (BloopProcessed (demo_pb 2))),
      Recv (Inl Closed), Recv (Inr (BloopProcessed (demo_pb 3)))]" "demo_sink True"]
  by (simp add: demo_sink_def process_events_def flush_def dummy_persist_batch_def Let_def)

text \<open>C29: With a repository that accepts every batch, the buffer always stays below the configured
  batch size (below one when that is zero), and the loop ends exactly when the channel closes.\<close>

theorem sink_buffer_bounded:
  assumes "\<And>batch r. fst (persist batch r) = Inr ()" "length (buffer s) < max 1 (max_batch_size s)"
  shows "length (buffer (fst (process_events persist branches s))) < max 1 (max_batch_size s) \<and>
    (snd (process_events persist branches s) \<longleftrightarrow> Recv (Inl Closed) \<notin> set branches)"
proof -
  have "length (buffer (fst (process_events persist branches s))) < max 1 (max_batch_size s) \<and>
      max_batch_size (fst (process_events persist branches s)) = max_batch_size s"
    unfolding process_events_def
  proof (rule sink.loop_invariant)
    show "length (buffer s) < max 1 (max_batch_size s) \<and> max_batch_size s = max_batch_size s"
      using assms(2) by simp
  next
    fix i and t :: "'a processed_bloop_sink"
    assume h: "length (buffer t) < max 1 (max_batch_size s) \<and> max_batch_size t = max_batch_size s"
    then have size: "max_batch_size t = max_batch_size s" by simp
    have "length (buffer (fst (sink_step persist i t))) < max 1 (max_batch_size t)"
      by (rule buffer_bound_step [OF assms(1)]) (simp only: h)
    then show "length (buffer (sink.effect TYPE('b) persist i t)) < max 1 (max_batch_size s) \<and>
        max_batch_size (sink.effect TYPE('b) persist i t) = max_batch_size s"
      by (simp only: sink_effect_def max_batch_size_step size simp_thms)
  qed
  then show ?thesis by (simp add: process_events_def sink.loop_ends_iff_closed)
qed

theorem sink_buffer_bounded_witness:
  "length (buffer (fst (process_events accept_all
     [Recv (Inr (BloopProcessed (demo_pb 1))), Recv (Inr (BloopProcessed (demo_pb 2)))]
     \<lparr>repository = [], buffer = [], max_batch_size = 2, max_batch_duration = 10\<rparr>))) < max 1 2"
  using sink_buffer_bounded [of accept_all
      "\<lparr>repository = [], buffer = [], max_batch_size = 2, max_batch_duration = 10\<rparr>"
      "[Recv (Inr (BloopProcessed (demo_pb 1))), Recv (Inr (BloopProcessed (demo_pb 2)))]"]
  by (simp add: accept_all_def)

text \<open>The batch that handling a branch takes out of the buffer to persist it.\<close>

fun batch_of :: "unit select_branch \<Rightarrow> 'r processed_bloop_sink \<Rightarrow> processed_bloop list" where
  "batch_of (Other tick) s = buffer s"
| "batch_of (Recv (Inr (BloopProcessed b))) s =
     (if max_batch_size s \<le> Suc (length (buffer s)) then buffer s @ [b] else [])"
| "batch_of (Recv (Inl (Lagged n))) s = buffer s"
| "batch_of (Recv r) s = []"

lemma step_cancelled_loses_batch:
  assumes "batch_of branch s \<noteq> []"
  shows "repository (sink_step_cancelled repo branch s) = repo" "buffer (sink_step_cancelled repo branch s) = []"
  using assms
  by (cases "(repo, branch, s)" rule: sink_step_cancelled.cases; auto simp: flush_cancelled_def Let_def split: if_splits)+

lemma flush_empty: "buffer s = [] \<Longrightarrow> flush persist s = s"
  by (simp add: flush_def)

text \<open>C30: A sink that is shut down while it waits stores everything it has received, if there is nothing
  left to store or the repository accepts the last batch, however many batches it refused before; if it
  refuses the last batch, that batch is left in the sink's buffer and nothing is added to the repository. A
  sink that is shut down inside a flush, by the timer, by a full buffer or after a lag, loses the batch: it
  was taken out of the buffer before \<open>persist_batch\<close> was awaited, the last flush finds an empty buffer, and
  the repository stays as the dropped call has left it.\<close>

theorem sink_shutdown_flushes_unless_cancelled_in_flush:
  assumes "bloop_repository persist stored"
  shows "(let (s', waiting) = process_events persist branches s;
              accepted = (buffer s' = [] \<or> fst (persist (buffer s') (repository s')) = Inr ());
              stopped = sink_run persist None branches s
          in (accepted \<longrightarrow> buffer stopped = [] \<and>
                stored (repository stopped) = stored (repository s) @ buffer s @ received_bloops (before_close branches)) \<and>
             (\<not> accepted \<longrightarrow> buffer stopped = buffer s' \<and> stored (repository stopped) = stored (repository s')) \<and>
             (\<forall>branch repo. waiting \<and> batch_of branch s' \<noteq> [] \<longrightarrow>
                repository (sink_run persist (Some (branch, repo)) branches s) = repo \<and>
                buffer (sink_run persist (Some (branch, repo)) branches s) = []))"
proof -
  obtain s' waiting where run: "process_events persist branches s = (s', waiting)" by fastforce
  have stopped: "sink_run persist None branches s = flush persist s'" by (simp add: sink_run_def run)
  have all: "stored (repository s') @ buffer s' =
      stored (repository s) @ buffer s @ received_bloops (before_close branches)"
    using bloop_repository.kept_loop [OF assms, of branches s]
    by (simp add: run bloop_repository.kept_def [OF assms])
  have kept: "stored (repository (flush persist s')) @ buffer (flush persist s') = stored (repository s') @ buffer s'"
    using bloop_repository.kept_flush [OF assms, of s'] by (simp add: bloop_repository.kept_def [OF assms])
  have "buffer (flush persist s') = []" if "buffer s' = [] \<or> fst (persist (buffer s') (repository s')) = Inr ()"
    using that bloop_repository.flush_success(2) [OF assms, of s'] by (auto simp: flush_empty)
  moreover have refused: "buffer (flush persist s') = buffer s'"
    if "\<not> (buffer s' = [] \<or> fst (persist (buffer s') (repository s')) = Inr ())"
    using that by (auto simp: flush_def Let_def split: prod.split sum.split)
  moreover have "stored (repository (flush persist s')) = stored (repository s')"
    if "\<not> (buffer s' = [] \<or> fst (persist (buffer s') (repository s')) = Inr ())"
    using kept refused [OF that] by simp
  moreover have "sink_run persist (Some (branch, repo)) branches s = sink_step_cancelled repo branch s'"
    if "waiting" "batch_of branch s' \<noteq> []" for branch repo
    using that step_cancelled_loses_batch(2) [OF that(2)] by (simp add: sink_run_def run flush_empty)
  ultimately show ?thesis
    using kept all step_cancelled_loses_batch unfolding run stopped Let_def prod.case by auto
qed

text \<open>A repository that refuses batches of more than one bloop: the first flush fails, the last one too; and a
  sink that is stopped while its timer flushes.\<close>

definition accept_single :: "(processed_bloop list, string) persist_batch" where
  "accept_single batch r = (if length batch \<le> 1 then (Inr (), r @ batch) else (Inl ''fail'', r))"

interpretation accept_single: bloop_repository accept_single "\<lambda>r. r"
  by unfold_locales (auto simp: accept_single_def split: if_splits)

theorem sink_shutdown_flushes_unless_cancelled_in_flush_witness:
  "(let sink = \<lparr>repository = [], buffer = [], max_batch_size = 5, max_batch_duration = 10\<rparr>;
        one = [Recv (Inr (BloopProcessed (demo_pb 1)))]; two = one @ [Recv (Inr (BloopProcessed (demo_pb 2)))]
    in repository (sink_run accept_single None one sink) = [demo_pb 1] \<and>
       buffer (sink_run accept_single None two sink) = [demo_pb 1, demo_pb 2] \<and>
       repository (sink_run accept_single (Some (Other (), [])) one sink) = [] \<and>
       buffer (sink_run accept_single (Some (Other (), [])) one sink) = [])"
proof -
  let ?sink = "\<lparr>repository = [], buffer = [], max_batch_size = 5, max_batch_duration = 10\<rparr>"
  let ?one = "[Recv (Inr (BloopProcessed (demo_pb 1)))]"
  let ?two = "?one @ [Recv (Inr (BloopProcessed (demo_pb 2)))]"
  have run: "process_events accept_single ?one ?sink = (?sink\<lparr>buffer := [demo_pb 1]\<rparr>, True)"
    "process_events accept_single ?two ?sink = (?sink\<lparr>buffer := [demo_pb 1, demo_pb 2]\<rparr>, True)"
    by (simp_all add: process_events_def)
  note shutdown = sink_shutdown_flushes_unless_cancelled_in_flush [OF accept_single.bloop_repository_axioms]
  show ?thesis
    using shutdown [of ?one ?sink, unfolded run Let_def prod.case] shutdown [of ?two ?sink, unfolded run Let_def prod.case]
    by (simp add: accept_single_def)
qed

end
