(* ===== verification/Message.thy ===== *)
theory Message
  imports Event
begin

text \<open>
  The protocol messages the framework handles. They are types of the \<open>bloop_protocol\<close> crate, which
  \<open>src/src/message.rs\<close> re-exports; the datatypes have the variants and fields the framework's sources
  construct and match on. Their encoding is in the crate and is not modelled. The type \<open>'n\<close> is the
  crate's \<open>NfcUid\<close>, \<open>'req\<close> the application's extension set.
\<close>

datatype error_response =
    UnexpectedMessage
  | MalformedMessage
  | UnsupportedVersionRange
  | InvalidCredentials
  | UnknownNfcUid
  | NfcUidThrottled
  | AudioUnavailable
  | CustomErrorCode u8

record achievement_record =
  record_id :: uuid
  audio_hash :: "data_hash option"

datatype server_message =
    BloopAccepted "achievement_record list"
  | AudioData "u8 list"
  | PreloadMatch
  | PreloadMismatch data_hash "achievement_record list"
  | ErrorMessage error_response

datatype ('n, 'req) client_message =
    ClientHandshake u8 u8
  | Authentication client_id string ip_addr
  | BloopMessage 'n
  | RetrieveAudioMessage uuid
  | PreloadCheckMessage "data_hash option"
  | Ping
  | Quit
  | Custom 'req

end
