(* ===== verification/Engine.thy ===== *)
theory Engine
  imports Achievement Bloop_Sink Message
begin

unbundle bit_operations_syntax

text \<open>
  The engine (\<open>src/src/engine.rs\<close>): the task that owns the bloop history, the achievements and the
  triggers, takes requests from the network one at a time and answers each.

  The fields behind \<open>Arc<Mutex<_>>\<close> are part of the engine's record: \<open>player_registry\<close> is the player
  store with its registry, \<open>state\<close> the application state, which the engine only reads. \<open>achievements\<close>, a hash
  map in the code, is an association list in the order of insertion. Other tasks
  that lock them run between requests here. \<open>event_tx\<close> is the list of the events sent so far.
  A handler takes the instants its clock readings return, in the order of the readings, and the
  content of the file system; MD5 is an argument. A handler returns the message it sends, or \<open>None\<close>
  when the task panics before it answers, and the engine it leaves.
\<close>

section \<open>Data\<close>

datatype 'n engine_request =
    BloopRequest client_id 'n
  | RetrieveAudio uuid
  | PreloadCheck "data_hash option"

record throttle =
  max_bloops :: nat
  threshold :: duration

definition throttle_new :: "nat \<Rightarrow> duration \<Rightarrow> throttle" where
  "throttle_new n d = \<lparr>max_bloops = n, threshold = d\<rparr>"

record hot_achievement =
  hot_id :: uuid
  hot_client_id :: client_id
  until :: datetime

definition hot_achievement_new :: "uuid \<Rightarrow> bloop \<Rightarrow> duration \<Rightarrow> hot_achievement" where
  "hot_achievement_new i b d =
     \<lparr>hot_id = i, hot_client_id = client_id b, until = recorded_at b + int d\<rparr>"

type_synonym ('m, 'p, 's, 'n, 't) achievement_map = "(uuid \<times> ('m, 'p, 's, 'n, 't) achievement) list"

record ('m, 'p, 's, 'n, 't) engine =
  bloop_provider :: bloop_provider
  achievements :: "('m, 'p, 's, 'n, 't) achievement_map"
  audio_base_path :: path
  audio_manifest_hash :: data_hash
  player_registry :: "('p, 'n) players"
  state :: 's
  trigger_registry :: "('n, 't) trigger_registry"
  hot_achievements :: "hot_achievement list"
  event_tx :: "event list"
  throttle :: "throttle option"

text \<open>The readings of \<open>Utc::now()\<close> in one \<open>handle_bloop\<close>: in \<open>ActiveTrigger::new\<close>, in the throttle, for
  the bloop's \<open>recorded_at\<close>, and one in each of the two collections the bloop is added to.\<close>

record clock =
  now_trigger :: datetime
  now_throttle :: datetime
  now_bloop :: datetime
  now_global :: datetime
  now_client :: datetime

section \<open>Steps of handling a bloop\<close>

definition is_throttled :: "throttle \<Rightarrow> datetime \<Rightarrow> bloop list \<Rightarrow> uuid \<Rightarrow> bool" where
  "is_throttled th now bs pid \<longleftrightarrow>
     (let recent_bloops = take (max_bloops th) (filter (bloops_since (now - int (threshold th))) bs)
      in list_all (\<lambda>b. player_id b = pid) recent_bloops \<and> length recent_bloops = max_bloops th)"

definition evaluate_achievements ::
  "('p, 'n) player_ops \<Rightarrow> bloop \<Rightarrow> ('m, 'p, 's, 'n, 't) engine \<Rightarrow>
   awarded_tracker \<times> ('m, 'p, 's, 'n, 't) engine" where
  "evaluate_achievements ops b e =
     (let store = fst (player_registry e);
          previous_awarded = awarded_achievements ops (store ! player b);
          ctx = context_new b (bloop_provider e) (state e) (trigger_registry e) store;
          ctx = fold (\<lambda>ach ctx. if previous_awarded (achievement_id ach) = None
                                then achievement_evaluate ach ctx else ctx)
                  (map snd (achievements e)) ctx
      in (take_awarded_tracker ctx, e\<lparr>trigger_registry := ctx_trigger_registry ctx\<rparr>))"

definition activate_hot_achievements ::
  "bloop \<Rightarrow> awarded_tracker \<Rightarrow> ('m, 'p, 's, 'n, 't) engine \<Rightarrow> ('m, 'p, 's, 'n, 't) engine" where
  "activate_hot_achievements b tr e =
     (case for_player tr (player_id b) of
        None \<Rightarrow> e
      | Some ids \<Rightarrow>
          fold (\<lambda>i e.
            case map_of (achievements e) i of
              None \<Rightarrow> e
            | Some ach \<Rightarrow>
                (case hot_duration ach of
                   None \<Rightarrow> e
                 | Some d \<Rightarrow>
                     e\<lparr>hot_achievements := hot_achievements e @ [hot_achievement_new i b d]\<rparr>))
            ids e)"

text \<open>The closure of \<open>retain\<close> runs over the hot achievements in order, keeps some and inserts into
  the player's set on the way.\<close>

fun retain_hot :: "bloop \<Rightarrow> hot_achievement list \<Rightarrow> uuid list \<Rightarrow> hot_achievement list \<times> uuid list" where
  "retain_hot b [] ids = ([], ids)"
| "retain_hot b (h # hs) ids =
     (if until h < recorded_at b then retain_hot b hs ids
      else
        (let ids = (if hot_client_id h = client_id b then List.insert (hot_id h) ids else ids);
             (kept, ids) = retain_hot b hs ids
         in (h # kept, ids)))"

definition inject_hot_achievements ::
  "bloop \<Rightarrow> awarded_tracker \<Rightarrow> ('m, 'p, 's, 'n, 't) engine \<Rightarrow>
   awarded_tracker \<times> ('m, 'p, 's, 'n, 't) engine" where
  "inject_hot_achievements b tr e =
     (let ids = (case for_player tr (player_id b) of None \<Rightarrow> [] | Some is \<Rightarrow> is);
          (kept, ids) = retain_hot b (hot_achievements e) ids
      in (for_player_mut (player_id b) (\<lambda>_. ids) tr, e\<lparr>hot_achievements := kept\<rparr>))"

definition apply_awarded ::
  "('p, 'n) player_ops \<Rightarrow> awarded_tracker \<Rightarrow> ('m, 'p, 's, 'n, 't) engine \<Rightarrow>
   ('m, 'p, 's, 'n, 't) engine" where
  "apply_awarded ops tr e =
     (let batch = award_batch_from tr;
          registry = fold (\<lambda>player_awards.
            mutate_by_id ops (award_player_id player_awards)
              (fold (\<lambda>i. add_awarded_achievement ops i (batch_awarded_at batch))
                 (achievement_ids player_awards)))
            (batch_players batch) (player_registry e)
      in e\<lparr>player_registry := registry, event_tx := event_tx e @ [AchievementsAwarded batch]\<rparr>)"

text \<open>Resolving the audio of the achievement \<open>ach\<close> stored under \<open>i\<close> fills its cell in the map.\<close>

definition resolve_in ::
  "(u8 list \<Rightarrow> data_hash) \<Rightarrow> (path \<Rightarrow> u8 list option) \<Rightarrow> path \<Rightarrow> uuid \<Rightarrow>
   ('m, 'p, 's, 'n, 't) achievement \<Rightarrow> ('m, 'p, 's, 'n, 't) achievement_map \<Rightarrow>
   audio_file option \<times> ('m, 'p, 's, 'n, 't) achievement_map" where
  "resolve_in md5 fs base i ach achs =
     (let (file, src) = audio_resolve md5 fs base (audio_file ach)
      in (file, AList.update i (ach\<lparr>audio_file := src\<rparr>) achs))"

text \<open>The records of the response. \<open>achievements.get(&id).unwrap()\<close> panics for an unknown ID: \<open>None\<close>.\<close>

fun accepted_records ::
  "(u8 list \<Rightarrow> data_hash) \<Rightarrow> (path \<Rightarrow> u8 list option) \<Rightarrow> path \<Rightarrow> uuid list \<Rightarrow>
   ('m, 'p, 's, 'n, 't) achievement_map \<Rightarrow>
   achievement_record list option \<times> ('m, 'p, 's, 'n, 't) achievement_map" where
  "accepted_records md5 fs base [] achs = (Some [], achs)"
| "accepted_records md5 fs base (i # is) achs =
     (case map_of achs i of
        None \<Rightarrow> (None, achs)
      | Some ach \<Rightarrow>
          (let (file, achs) = resolve_in md5 fs base i ach achs;
               (records, achs) = accepted_records md5 fs base is achs
           in (map_option ((#) \<lparr>record_id = i, audio_hash = map_option file_hash file\<rparr>) records, achs)))"

section \<open>Handlers\<close>

definition accept_bloop ::
  "(u8 list \<Rightarrow> data_hash) \<Rightarrow> (path \<Rightarrow> u8 list option) \<Rightarrow> ('p, 'n) player_ops \<Rightarrow> clock \<Rightarrow> addr \<Rightarrow>
   client_id \<Rightarrow> ('m, 'p, 's, 'n, 't) engine \<Rightarrow>
   server_message option \<times> ('m, 'p, 's, 'n, 't) engine" where
  "accept_bloop md5 fs ops clk a cid e =
     (let (store, registry) = player_registry e;
          store = store[a := increment_bloops ops (store ! a)];
          e = e\<lparr>player_registry := (store, registry)\<rparr>;
          b = bloop_new ops store a cid (now_bloop clk);
          (tr, e) = evaluate_achievements ops b e;
          e = activate_hot_achievements b tr e;
          (tr, e) = inject_hot_achievements b tr e;
          tr = remove_duplicates ops (player_registry e) tr;
          ids = (case for_player tr (player_id b) of None \<Rightarrow> [] | Some is \<Rightarrow> is);
          e = apply_awarded ops tr e;
          e = e\<lparr>bloop_provider := provider_add (now_global clk) (now_client clk) b (bloop_provider e)\<rparr>;
          e = e\<lparr>event_tx := event_tx e @ [BloopProcessed (processed_bloop_from b)]\<rparr>;
          (records, achs) = accepted_records md5 fs (audio_base_path e) ids (achievements e)
      in (map_option BloopAccepted records, e\<lparr>achievements := achs\<rparr>))"

definition handle_bloop ::
  "(u8 list \<Rightarrow> data_hash) \<Rightarrow> (path \<Rightarrow> u8 list option) \<Rightarrow> ('p, 'n) player_ops \<Rightarrow> clock \<Rightarrow> 'n \<Rightarrow>
   client_id \<Rightarrow> ('m, 'p, 's, 'n, 't) engine \<Rightarrow>
   server_message option \<times> ('m, 'p, 's, 'n, 't) engine" where
  "handle_bloop md5 fs ops clk nfc cid e =
     (let (activated, triggers) = try_activate_trigger (now_trigger clk) nfc cid (trigger_registry e);
          e = e\<lparr>trigger_registry := triggers\<rparr>
      in if activated then (Some (BloopAccepted []), e)
         else case get_by_nfc_uid (player_registry e) nfc of
           None \<Rightarrow> (Some (ErrorMessage UnknownNfcUid), e)
         | Some a \<Rightarrow>
             (case throttle e of
                None \<Rightarrow> accept_bloop md5 fs ops clk a cid e
              | Some th \<Rightarrow>
                  (let pid = player_uuid ops (fst (player_registry e) ! a)
                   in if is_throttled th (now_throttle clk)
                           (bloops (for_client (bloop_provider e) cid)) pid
                      then (Some (ErrorMessage NfcUidThrottled), e)
                      else accept_bloop md5 fs ops clk a cid e)))"

text \<open>The audio is read in a spawned task, after the handler has returned: \<open>fs_task\<close> is what opening
  and reading the file gives there.\<close>

definition handle_retrieve_audio ::
  "(u8 list \<Rightarrow> data_hash) \<Rightarrow> (path \<Rightarrow> u8 list option) \<Rightarrow> (path \<Rightarrow> u8 list option) \<Rightarrow> uuid \<Rightarrow>
   ('m, 'p, 's, 'n, 't) engine \<Rightarrow> server_message option \<times> ('m, 'p, 's, 'n, 't) engine" where
  "handle_retrieve_audio md5 fs fs_task i e =
     (case map_of (achievements e) i of
        None \<Rightarrow> (Some (ErrorMessage AudioUnavailable), e)
      | Some ach \<Rightarrow>
          (let (file, achs) = resolve_in md5 fs (audio_base_path e) i ach (achievements e);
               e = e\<lparr>achievements := achs\<rparr>
           in case file of
                None \<Rightarrow> (Some (ErrorMessage AudioUnavailable), e)
              | Some f \<Rightarrow>
                  (case fs_task (file_path f) of
                     None \<Rightarrow> (Some (ErrorMessage AudioUnavailable), e)
                   | Some content \<Rightarrow> (Some (AudioData content), e))))"

definition resolve_source ::
  "(u8 list \<Rightarrow> data_hash) \<Rightarrow> (path \<Rightarrow> u8 list option) \<Rightarrow> path \<Rightarrow> ('m, 'p, 's, 'n, 't) achievement \<Rightarrow>
   ('m, 'p, 's, 'n, 't) achievement" where
  "resolve_source md5 fs base ach =
     ach\<lparr>audio_file := snd (audio_resolve md5 fs base (audio_file ach))\<rparr>"

definition audio_hash_of ::
  "(u8 list \<Rightarrow> data_hash) \<Rightarrow> (path \<Rightarrow> u8 list option) \<Rightarrow> path \<Rightarrow> ('m, 'p, 's, 'n, 't) achievement \<Rightarrow>
   data_hash option" where
  "audio_hash_of md5 fs base ach =
     map_option file_hash (fst (audio_resolve md5 fs base (audio_file ach)))"

definition handle_preload_check ::
  "(u8 list \<Rightarrow> data_hash) \<Rightarrow> (path \<Rightarrow> u8 list option) \<Rightarrow> data_hash option \<Rightarrow>
   ('m, 'p, 's, 'n, 't) engine \<Rightarrow> server_message option \<times> ('m, 'p, 's, 'n, 't) engine" where
  "handle_preload_check md5 fs manifest_hash e =
     (if manifest_hash = Some (audio_manifest_hash e) then (Some PreloadMatch, e)
      else
        (Some (PreloadMismatch (audio_manifest_hash e)
           (map (\<lambda>(i, ach). \<lparr>record_id = achievement_id ach,
                  audio_hash = audio_hash_of md5 fs (audio_base_path e) ach\<rparr>) (achievements e))),
         e\<lparr>achievements := map (\<lambda>(i, ach). (i, resolve_source md5 fs (audio_base_path e) ach))
                            (achievements e)\<rparr>))"

section \<open>The request loop\<close>

text \<open>A request with what its handling reads of the world. The loop ends when the channel is closed,
  with \<open>True\<close>, or with a panic, which takes the task down and leaves later requests unanswered.\<close>

record 'n request_input =
  request :: "'n engine_request"
  input_clock :: clock
  input_fs :: "path \<Rightarrow> u8 list option"
  input_fs_task :: "path \<Rightarrow> u8 list option"

fun handle_request ::
  "(u8 list \<Rightarrow> data_hash) \<Rightarrow> ('p, 'n) player_ops \<Rightarrow> 'n request_input \<Rightarrow>
   ('m, 'p, 's, 'n, 't) engine \<Rightarrow> server_message option \<times> ('m, 'p, 's, 'n, 't) engine" where
  "handle_request md5 ops inp e =
     (case request inp of
        BloopRequest cid nfc \<Rightarrow> handle_bloop md5 (input_fs inp) ops (input_clock inp) nfc cid e
      | RetrieveAudio i \<Rightarrow> handle_retrieve_audio md5 (input_fs inp) (input_fs_task inp) i e
      | PreloadCheck h \<Rightarrow> handle_preload_check md5 (input_fs inp) h e)"

fun process_requests ::
  "(u8 list \<Rightarrow> data_hash) \<Rightarrow> ('p, 'n) player_ops \<Rightarrow> 'n request_input list \<Rightarrow>
   ('m, 'p, 's, 'n, 't) engine \<Rightarrow> server_message list \<times> ('m, 'p, 's, 'n, 't) engine \<times> bool" where
  "process_requests md5 ops [] e = ([], e, True)"
| "process_requests md5 ops (inp # inps) e =
     (case handle_request md5 ops inp e of
        (None, e) \<Rightarrow> ([], e, False)
      | (Some response, e) \<Rightarrow>
          (let (responses, e, alive) = process_requests md5 ops inps e
           in (response # responses, e, alive)))"

section \<open>The builder\<close>

text \<open>The big-endian bytes of a UUID.\<close>

definition uuid_bytes :: "uuid \<Rightarrow> u8 list" where
  "uuid_bytes i = map (\<lambda>k. ucast (drop_bit (8 * (15 - k)) i)) [0..<16]"

definition audio_entries ::
  "(u8 list \<Rightarrow> data_hash) \<Rightarrow> (path \<Rightarrow> u8 list option) \<Rightarrow> path \<Rightarrow>
   ('m, 'p, 's, 'n, 't) achievement list \<Rightarrow> (uuid \<times> data_hash) list" where
  "audio_entries md5 fs base achs =
     fold (\<lambda>ach m. case audio_hash_of md5 fs base ach of
                     None \<Rightarrow> m
                   | Some h \<Rightarrow> AList.update (achievement_id ach) h m) achs []"

definition calculate_manifest_hash ::
  "(u8 list \<Rightarrow> data_hash) \<Rightarrow> (path \<Rightarrow> u8 list option) \<Rightarrow> path \<Rightarrow>
   ('m, 'p, 's, 'n, 't) achievement list \<Rightarrow>
   data_hash \<times> ('m, 'p, 's, 'n, 't) achievement list" where
  "calculate_manifest_hash md5 fs base achs =
     (let entries = sort_key fst (audio_entries md5 fs base achs);
          hash_input = concat (map (\<lambda>(i, h). uuid_bytes i @ h) entries)
      in (md5 hash_input, map (resolve_source md5 fs base) achs))"

record ('m, 'p, 's, 'n, 't) engine_builder =
  eb_bloops :: "bloop list"
  eb_achievements :: "('m, 'p, 's, 'n, 't) achievement list"
  eb_bloop_retention :: "duration option"
  eb_audio_base_path :: "path option"
  eb_player_registry :: "('p, 'n) players option"
  eb_state :: "'s option"
  eb_trigger_registry :: "('n, 't) trigger_registry option"
  eb_network_rx :: "unit option"
  eb_event_tx :: "event list option"
  eb_throttle :: "throttle option"

definition engine_builder_new :: "('m, 'p, 's, 'n, 't) engine_builder" where
  "engine_builder_new =
     \<lparr>eb_bloops = [], eb_achievements = [], eb_bloop_retention = None, eb_audio_base_path = None,
      eb_player_registry = None, eb_state = None, eb_trigger_registry = None, eb_network_rx = None,
      eb_event_tx = None, eb_throttle = None\<rparr>"

text \<open>The setters.\<close>

definition engine_builder_bloops ::
  "bloop list \<Rightarrow> ('m, 'p, 's, 'n, 't) engine_builder \<Rightarrow> ('m, 'p, 's, 'n, 't) engine_builder" where
  "engine_builder_bloops x b = b\<lparr>eb_bloops := x\<rparr>"

definition engine_builder_achievements ::
  "('m, 'p, 's, 'n, 't) achievement list \<Rightarrow> ('m, 'p, 's, 'n, 't) engine_builder \<Rightarrow> ('m, 'p, 's, 'n, 't) engine_builder" where
  "engine_builder_achievements x b = b\<lparr>eb_achievements := x\<rparr>"

definition engine_builder_bloop_retention ::
  "duration \<Rightarrow> ('m, 'p, 's, 'n, 't) engine_builder \<Rightarrow> ('m, 'p, 's, 'n, 't) engine_builder" where
  "engine_builder_bloop_retention x b = b\<lparr>eb_bloop_retention := Some x\<rparr>"

definition engine_builder_audio_base_path ::
  "path \<Rightarrow> ('m, 'p, 's, 'n, 't) engine_builder \<Rightarrow> ('m, 'p, 's, 'n, 't) engine_builder" where
  "engine_builder_audio_base_path x b = b\<lparr>eb_audio_base_path := Some x\<rparr>"

definition engine_builder_player_registry ::
  "('p, 'n) players \<Rightarrow> ('m, 'p, 's, 'n, 't) engine_builder \<Rightarrow> ('m, 'p, 's, 'n, 't) engine_builder" where
  "engine_builder_player_registry x b = b\<lparr>eb_player_registry := Some x\<rparr>"

definition engine_builder_state ::
  "'s \<Rightarrow> ('m, 'p, 's, 'n, 't) engine_builder \<Rightarrow> ('m, 'p, 's, 'n, 't) engine_builder" where
  "engine_builder_state x b = b\<lparr>eb_state := Some x\<rparr>"

definition engine_builder_trigger_registry ::
  "('n, 't) trigger_registry \<Rightarrow> ('m, 'p, 's, 'n, 't) engine_builder \<Rightarrow> ('m, 'p, 's, 'n, 't) engine_builder" where
  "engine_builder_trigger_registry x b = b\<lparr>eb_trigger_registry := Some x\<rparr>"

definition engine_builder_network_rx ::
  "unit \<Rightarrow> ('m, 'p, 's, 'n, 't) engine_builder \<Rightarrow> ('m, 'p, 's, 'n, 't) engine_builder" where
  "engine_builder_network_rx x b = b\<lparr>eb_network_rx := Some x\<rparr>"

definition engine_builder_event_tx ::
  "event list \<Rightarrow> ('m, 'p, 's, 'n, 't) engine_builder \<Rightarrow> ('m, 'p, 's, 'n, 't) engine_builder" where
  "engine_builder_event_tx x b = b\<lparr>eb_event_tx := Some x\<rparr>"

definition engine_builder_throttle ::
  "throttle \<Rightarrow> ('m, 'p, 's, 'n, 't) engine_builder \<Rightarrow> ('m, 'p, 's, 'n, 't) engine_builder" where
  "engine_builder_throttle x b = b\<lparr>eb_throttle := Some x\<rparr>"

definition engine_build ::
  "(u8 list \<Rightarrow> data_hash) \<Rightarrow> (path \<Rightarrow> u8 list option) \<Rightarrow> 's \<Rightarrow> ('m, 'p, 's, 'n, 't) engine_builder \<Rightarrow>
   builder_error + ('m, 'p, 's, 'n, 't) engine" where
  "engine_build md5 fs default_state b =
     try_bind (ok_or (MissingField ''bloop_retention'') (eb_bloop_retention b)) (\<lambda>retention.
     try_bind (ok_or (MissingField ''audio_base_path'') (eb_audio_base_path b)) (\<lambda>base.
     try_bind (ok_or (MissingField ''player_registry'') (eb_player_registry b)) (\<lambda>players.
     try_bind (ok_or (MissingField ''network_rx'') (eb_network_rx b)) (\<lambda>rx.
     try_bind (ok_or (MissingField ''event_tx'') (eb_event_tx b)) (\<lambda>tx.
       (let (manifest_hash, achs) = calculate_manifest_hash md5 fs base (eb_achievements b)
        in Inr
          \<lparr>bloop_provider = provider_with_bloops retention (eb_bloops b),
           achievements = fold (\<lambda>ach. AList.update (achievement_id ach) ach) achs [],
           audio_base_path = base, audio_manifest_hash = manifest_hash,
           player_registry = players,
           state = (case eb_state b of None \<Rightarrow> default_state | Some s \<Rightarrow> s),
           trigger_registry =
             (case eb_trigger_registry b of None \<Rightarrow> trigger_registry_new Map.empty | Some r \<Rightarrow> r),
           hot_achievements = [], event_tx = tx, throttle = eb_throttle b\<rparr>))))))"

section \<open>Hot achievements\<close>

definition newly_hot ::
  "('m, 'p, 's, 'n, 't) achievement_map \<Rightarrow> bloop \<Rightarrow> uuid list \<Rightarrow> hot_achievement list" where
  "newly_hot achs b ids =
     concat (map (\<lambda>i. case Option.bind (map_of achs i) hot_duration of
                        None \<Rightarrow> [] | Some d \<Rightarrow> [hot_achievement_new i b d]) ids)"

definition tracked :: "awarded_tracker \<Rightarrow> uuid \<Rightarrow> uuid list" where
  "tracked tr pid = (case for_player tr pid of None \<Rightarrow> [] | Some ids \<Rightarrow> ids)"

lemma set_tracked [simp]: "set (tracked tr pid) = awards tr pid"
  by (simp add: tracked_def awards_def split: option.split)

lemma activate_hot_achievements_eq:
  "activate_hot_achievements b tr e =
     e\<lparr>hot_achievements := hot_achievements e @ newly_hot (achievements e) b (tracked tr (player_id b))\<rparr>"
proof -
  have "fold (\<lambda>i e. case map_of (achievements e) i of
              None \<Rightarrow> e
            | Some ach \<Rightarrow>
                (case hot_duration ach of
                   None \<Rightarrow> e
                 | Some d \<Rightarrow>
                     e\<lparr>hot_achievements := hot_achievements e @ [hot_achievement_new i b d]\<rparr>)) ids e =
      e\<lparr>hot_achievements := hot_achievements e @ newly_hot (achievements e) b ids\<rparr>" for ids
    by (induction ids arbitrary: e) (simp_all add: newly_hot_def split: option.split)
  then show ?thesis
    by (simp add: activate_hot_achievements_def tracked_def newly_hot_def split: option.split)
qed

definition is_hot :: "bloop \<Rightarrow> hot_achievement \<Rightarrow> bool" where
  "is_hot b h \<longleftrightarrow> recorded_at b \<le> until h"

definition hot_ids :: "bloop \<Rightarrow> hot_achievement list \<Rightarrow> uuid set" where
  "hot_ids b hs = hot_id ` {h \<in> set hs. is_hot b h \<and> hot_client_id h = client_id b}"

lemma retain_hot_kept: "fst (retain_hot b hs ids) = filter (is_hot b) hs"
  by (induction b hs ids rule: retain_hot.induct) (auto simp: is_hot_def Let_def split: prod.split)

lemma retain_hot_ids: "set (snd (retain_hot b hs ids)) = set ids \<union> hot_ids b hs"
proof (induction b hs ids rule: retain_hot.induct)
  case (2 b h hs ids)
  have "hot_ids b (h # hs) =
      (if is_hot b h \<and> hot_client_id h = client_id b then {hot_id h} else {}) \<union> hot_ids b hs"
    by (auto simp: hot_ids_def)
  with 2 show ?case
    by (cases "hot_client_id h = client_id b") (auto simp: is_hot_def Let_def split: prod.splits)
qed (simp add: hot_ids_def)

lemma retain_hot_distinct: "distinct ids \<Longrightarrow> distinct (snd (retain_hot b hs ids))"
  by (induction b hs ids rule: retain_hot.induct) (auto simp: Let_def split: prod.split)

lemma inject_hot_achievements_eq:
  "inject_hot_achievements b tr e =
     (for_player_mut (player_id b) (\<lambda>_. snd (retain_hot b (hot_achievements e) (tracked tr (player_id b)))) tr,
      e\<lparr>hot_achievements := filter (is_hot b) (hot_achievements e)\<rparr>)"
  using retain_hot_kept [of b "hot_achievements e" "tracked tr (player_id b)"]
  by (cases "retain_hot b (hot_achievements e) (tracked tr (player_id b))")
    (simp add: inject_hot_achievements_def tracked_def [symmetric])

lemma awards_inject:
  "awards (fst (inject_hot_achievements b tr e)) pid =
     (if pid = player_id b then awards tr pid \<union> hot_ids b (hot_achievements e) else awards tr pid)"
  by (simp add: inject_hot_achievements_eq awards_def for_player_for_player_mut retain_hot_ids
      set_tracked [unfolded awards_def] split: option.split)

lemma tracker_wf_tracked: "tracker_wf tr \<Longrightarrow> distinct (tracked tr pid)"
  by (auto simp: tracker_wf_def tracked_def split: option.split)

lemma tracker_wf_inject:
  assumes "tracker_wf tr"
  shows "tracker_wf (fst (inject_hot_achievements b tr e))"
  using assms by (auto simp: inject_hot_achievements_eq
      intro!: tracker_wf_for_player_mut retain_hot_distinct tracker_wf_tracked)

section \<open>Applying awards\<close>

lemma fold_mutate_awards:
  fixes t :: datetime
  assumes traits: "player_traits ops" and "registry_wf ops w" "map_wf m"
  defines "award \<equiv> \<lambda>ids. fold (\<lambda>i. add_awarded_achievement ops i t) ids"
  shows "registry_wf ops (fold (\<lambda>(pid, ids). mutate_by_id ops pid (award ids)) m w) \<and>
    snd (fold (\<lambda>(pid, ids). mutate_by_id ops pid (award ids)) m w) = snd w \<and>
    read_by_id (fold (\<lambda>(pid, ids). mutate_by_id ops pid (award ids)) m w) =
      (\<lambda>pid. map_option (\<lambda>p. case map_of m pid of None \<Rightarrow> p | Some ids \<Rightarrow> award ids p) (read_by_id w pid))"
  using assms(2,3)
proof (induction m arbitrary: w)
  case (Cons x m)
  obtain pid ids where x: "x = (pid, ids)" by (cases x)
  let ?w = "mutate_by_id ops pid (award ids) w"
  note keeps = player_traits.fold_award_keeps [OF traits]
  show ?case
  proof (cases "by_id (snd w) pid")
    case None
    then have same: "?w = w" and absent: "read_by_id w pid = None"
      by (simp_all add: mutate_by_id_None read_by_id_def)
    have "pid \<notin> fst ` set m" using Cons.prems x by simp
    then show ?thesis
      using Cons.IH [OF Cons.prems(1)] Cons.prems(2) absent by (auto simp: x same fun_eq_iff)
  next
    case (Some a)
    then have p: "read_by_id w pid = Some (fst w ! a)" by (simp add: read_by_id_def)
    note wa = registry_wf_idD [OF Cons.prems(1) Some]
    have wf: "registry_wf ops ?w"
      using wa by (intro registry_wf_mutate [OF Cons.prems(1) Some]) (simp_all add: award_def keeps)
    have snd: "snd ?w = snd w"
      using Some by (cases w) (simp add: mutate_by_id_def Let_def award_def keeps)
    have read: "read_by_id ?w = (read_by_id w)(pid \<mapsto> award ids (fst w ! a))"
      by (rule read_by_id_mutate [OF Cons.prems(1) p])
    have "map_of m pid = None" using Cons.prems x by (simp add: map_of_eq_None_iff)
    then show ?thesis
      using Cons.IH [OF wf] Cons.prems(2) p snd by (auto simp: x read fun_eq_iff)
  qed
qed (auto simp: fun_eq_iff option.map_ident)

lemma apply_awarded_fields [frame_simps]:
  "event_tx (apply_awarded ops tr e) = event_tx e @ [AchievementsAwarded (award_batch_from tr)]"
  "bloop_provider (apply_awarded ops tr e) = bloop_provider e"
  "achievements (apply_awarded ops tr e) = achievements e"
  "audio_base_path (apply_awarded ops tr e) = audio_base_path e"
  "audio_manifest_hash (apply_awarded ops tr e) = audio_manifest_hash e"
  "state (apply_awarded ops tr e) = state e"
  "trigger_registry (apply_awarded ops tr e) = trigger_registry e"
  "hot_achievements (apply_awarded ops tr e) = hot_achievements e"
  "throttle (apply_awarded ops tr e) = throttle e"
  by (simp_all add: apply_awarded_def Let_def)

lemma apply_awarded_registry:
  assumes "player_traits ops" "registry_wf ops (player_registry e)" "tracker_wf tr"
  shows "registry_wf ops (player_registry (apply_awarded ops tr e)) \<and>
    snd (player_registry (apply_awarded ops tr e)) = snd (player_registry e) \<and>
    read_by_id (player_registry (apply_awarded ops tr e)) =
      (\<lambda>pid. map_option (fold (\<lambda>i. add_awarded_achievement ops i (awarded_at tr)) (tracked tr pid))
                (read_by_id (player_registry e) pid))"
proof -
  have "player_registry (apply_awarded ops tr e) =
      fold (\<lambda>(pid, ids). mutate_by_id ops pid (fold (\<lambda>i. add_awarded_achievement ops i (awarded_at tr)) ids))
        (awarded tr) (player_registry e)"
    by (simp add: apply_awarded_def award_batch_from_def fold_map o_def case_prod_beta')
  moreover have "map_wf (awarded tr)" using assms(3) by (simp add: tracker_wf_def)
  moreover have "(\<lambda>p. case map_of (awarded tr) pid of None \<Rightarrow> p | Some ids \<Rightarrow> fold f ids p) =
      fold f (tracked tr pid)" for pid and f :: "uuid \<Rightarrow> 'a \<Rightarrow> 'a"
    by (simp add: fun_eq_iff tracked_def for_player_def split: option.split)
  ultimately show ?thesis
    using fold_mutate_awards [OF assms(1,2), of "awarded tr" "awarded_at tr"] by simp
qed

section \<open>Evaluating the achievements\<close>

definition evaluation_context ::
  "('p, 'n) player_ops \<Rightarrow> bloop \<Rightarrow> ('m, 'p, 's, 'n, 't) engine \<Rightarrow> ('p, 's, 'n, 't) achievement_context" where
  "evaluation_context ops b e =
     fold (\<lambda>ach ctx. if awarded_achievements ops (fst (player_registry e) ! player b) (achievement_id ach) = None
                     then achievement_evaluate ach ctx else ctx)
       (map snd (achievements e))
       (context_new b (bloop_provider e) (state e) (trigger_registry e) (fst (player_registry e)))"

lemma evaluate_achievements_eq:
  "evaluate_achievements ops b e =
     (ctx_awarded_tracker (evaluation_context ops b e),
      e\<lparr>trigger_registry := ctx_trigger_registry (evaluation_context ops b e)\<rparr>)"
  by (simp add: evaluate_achievements_def evaluation_context_def take_awarded_tracker_def Let_def)

lemma fold_evaluate_extends:
  assumes "\<And>ach. ach \<in> set achs \<Longrightarrow> evaluator_api (evaluator ach)"
  shows "ctx_extends ctx (fold (\<lambda>ach ctx. if P ach then achievement_evaluate ach ctx else ctx) achs ctx)"
  using assms
proof (induction achs arbitrary: ctx)
  case (Cons ach achs)
  then show ?case
    by (cases "P ach") (auto intro: ctx_extends_trans [OF achievement_evaluate_extends])
qed simp

lemma evaluation_extends:
  assumes "\<And>ach. ach \<in> set (map snd (achievements e)) \<Longrightarrow> evaluator_api (evaluator ach)"
  shows "ctx_extends
    (context_new b (bloop_provider e) (state e) (trigger_registry e) (fst (player_registry e)))
    (evaluation_context ops b e)"
  unfolding evaluation_context_def using assms by (rule fold_evaluate_extends)

lemma context_new_simps [simp]:
  "ctx_awarded_tracker (context_new b provider s reg st) = tracker_new b"
  "ctx_trigger_registry (context_new b provider s reg st) = reg"
  "current_bloop (context_new b provider s reg st) = b"
  "ctx_bloop_provider (context_new b provider s reg st) = provider"
  "ctx_players (context_new b provider s reg st) = st"
  by (simp_all add: context_new_def)

lemma evaluation_tracker:
  assumes "\<And>ach. ach \<in> set (map snd (achievements e)) \<Longrightarrow> evaluator_api (evaluator ach)"
  shows "tracker_wf (ctx_awarded_tracker (evaluation_context ops b e))"
    and "awarded_at (ctx_awarded_tracker (evaluation_context ops b e)) = recorded_at b"
    and "trigger_step\<^sup>*\<^sup>* (trigger_registry e) (ctx_trigger_registry (evaluation_context ops b e))"
  using ctx_extendsD(5,6,8) [OF evaluation_extends [where b = b and ops = ops, OF assms]] by simp_all

lemma result_evaluator_api: "result_evaluator ev \<Longrightarrow> evaluator_api ev"
  by (simp add: result_evaluator_def)

lemma fold_evaluate_awards:
  assumes "\<And>ach. ach \<in> set achs \<Longrightarrow> result_evaluator (evaluator ach)"
  shows "awards (ctx_awarded_tracker
      (fold (\<lambda>ach ctx. if P ach then achievement_evaluate ach ctx else ctx) achs ctx)) pid
    \<subseteq> awards (ctx_awarded_tracker ctx) pid \<union> achievement_id ` {ach \<in> set achs. P ach}"
  using assms
proof (induction achs arbitrary: ctx)
  case (Cons ach achs)
  have "awards (ctx_awarded_tracker (achievement_evaluate ach ctx)) pid
      \<subseteq> insert (achievement_id ach) (awards (ctx_awarded_tracker ctx) pid)"
    using Cons.prems by (auto simp: awards_achievement_evaluate)
  moreover have "achievement_id ` {a \<in> set (ach # achs). P a} =
      (if P ach then {achievement_id ach} else {}) \<union> achievement_id ` {a \<in> set achs. P a}"
    by auto
  ultimately show ?case
    using Cons.IH [of "achievement_evaluate ach ctx"] Cons.IH [of ctx] Cons.prems
    by (cases "P ach") auto
qed simp

lemma evaluation_awards:
  assumes "\<And>ach. ach \<in> set (map snd (achievements e)) \<Longrightarrow> result_evaluator (evaluator ach)"
  shows "awards (ctx_awarded_tracker (evaluation_context ops b e)) pid
    \<subseteq> achievement_id ` set (map snd (achievements e))"
proof -
  let ?P = "\<lambda>ach. awarded_achievements ops (fst (player_registry e) ! player b) (achievement_id ach) = None"
  have "awards (ctx_awarded_tracker (evaluation_context ops b e)) pid
      \<subseteq> {} \<union> achievement_id ` {ach \<in> set (map snd (achievements e)). ?P ach}"
    unfolding evaluation_context_def
    using fold_evaluate_awards [of "map snd (achievements e)" ?P
        "context_new b (bloop_provider e) (state e) (trigger_registry e) (fst (player_registry e))" pid] assms
    by simp
  then show ?thesis by blast
qed

section \<open>The records of the response\<close>

lemma audio_hash_of_resolve_source [simp]:
  "audio_hash_of md5 fs' base' (resolve_source md5 fs base ach) = audio_hash_of md5 fs base ach"
  "resolve_source md5 fs' base' (resolve_source md5 fs base ach) = resolve_source md5 fs base ach"
  by (simp_all add: audio_hash_of_def resolve_source_def)

lemma resolve_source_keeps [simp]:
  "achievement_id (resolve_source md5 fs base ach) = achievement_id ach"
  "evaluator (resolve_source md5 fs base ach) = evaluator ach"
  "hot_duration (resolve_source md5 fs base ach) = hot_duration ach"
  "metadata (resolve_source md5 fs base ach) = metadata ach"
  by (simp_all add: resolve_source_def)

lemma resolve_in_eq:
  "map_option file_hash (fst (resolve_in md5 fs base i ach achs)) = audio_hash_of md5 fs base ach"
  "snd (resolve_in md5 fs base i ach achs) = AList.update i (resolve_source md5 fs base ach) achs"
  by (simp_all add: resolve_in_def audio_hash_of_def resolve_source_def Let_def split: prod.split)

lemma update_keys: "map_of achs i = Some x \<Longrightarrow> map fst (AList.update i y achs) = map fst achs"
  by (induction achs) (auto split: if_splits)

lemma accepted_records_map:
  "map fst (snd (accepted_records md5 fs base ids achs)) = map fst achs \<and>
   (set ids \<subseteq> fst ` set achs \<longrightarrow>
      map_of (snd (accepted_records md5 fs base ids achs)) =
        (\<lambda>i. map_option (\<lambda>ach. if i \<in> set ids then resolve_source md5 fs base ach else ach) (map_of achs i)))"
proof (induction ids arbitrary: achs)
  case (Cons i ids)
  show ?case
  proof (cases "map_of achs i")
    case None
    then have "i \<notin> fst ` set achs" by (simp add: map_of_eq_None_iff)
    with None show ?thesis by simp
  next
    case (Some ach)
    let ?achs = "AList.update i (resolve_source md5 fs base ach) achs"
    have keys: "map fst ?achs = map fst achs" by (rule update_keys [OF Some])
    then have keys': "fst ` set ?achs = fst ` set achs" by (metis list.set_map)
    have "snd (accepted_records md5 fs base (i # ids) achs) = snd (accepted_records md5 fs base ids ?achs)"
      using resolve_in_eq(2) [of md5 fs base i ach achs]
      by (cases "resolve_in md5 fs base i ach achs") (simp add: Some split: prod.split)
    with Cons.IH [of ?achs] Some show ?thesis
      by (auto simp: keys keys' update_conv' fun_eq_iff option.map_comp o_def split: if_splits)
  qed
qed (simp add: fun_eq_iff option.map_ident)

lemma accepted_records_result:
  "fst (accepted_records md5 fs base ids achs) =
     (if set ids \<subseteq> fst ` set achs
      then Some (map (\<lambda>i. \<lparr>record_id = i, audio_hash = audio_hash_of md5 fs base (the (map_of achs i))\<rparr>) ids)
      else None)"
proof (induction ids arbitrary: achs)
  case (Cons i ids)
  show ?case
  proof (cases "map_of achs i")
    case None
    then have "i \<notin> fst ` set achs" by (simp add: map_of_eq_None_iff)
    with None show ?thesis by simp
  next
    case (Some ach)
    let ?achs = "AList.update i (resolve_source md5 fs base ach) achs"
    have keys: "fst ` set ?achs = fst ` set achs"
      using update_keys [OF Some, of "resolve_source md5 fs base ach"] by (metis list.set_map)
    have i: "i \<in> fst ` set achs" using Some by (metis map_of_eq_None_iff option.distinct(1))
    have hash: "audio_hash_of md5 fs base (the (map_of ?achs j)) = audio_hash_of md5 fs base (the (map_of achs j))" for j
      using Some by (simp add: update_conv')
    have "fst (accepted_records md5 fs base (i # ids) achs) =
        map_option ((#) \<lparr>record_id = i, audio_hash = audio_hash_of md5 fs base ach\<rparr>)
          (fst (accepted_records md5 fs base ids ?achs))"
      using resolve_in_eq [of md5 fs base i ach achs]
      by (cases "resolve_in md5 fs base i ach achs") (simp add: Some split: prod.split)
    with Some i show ?thesis by (simp add: Cons.IH keys hash)
  qed
qed simp

end
