(* ===== verification/Engine_Correct.thy ===== *)
theory Engine_Correct
  imports Engine
begin

text \<open>
  What the engine guarantees for one bloop and for a sequence of requests. \<open>engine_wf\<close> is the engine's
  invariant; \<open>accepted_bloop\<close> names the parts of an accepted bloop (the bloop, the final tracker, the
  triggers and hot achievements left) so that each property is read off one equation.
\<close>

section \<open>The invariant\<close>

definition engine_wf :: "('p, 'n) player_ops \<Rightarrow> ('m, 'p, 's, 'n, 't) engine \<Rightarrow> bool" where
  "engine_wf ops e \<longleftrightarrow>
     registry_wf ops (player_registry e) \<and> map_wf (achievements e) \<and>
     (\<forall>(i, ach) \<in> set (achievements e). achievement_id ach = i \<and> evaluator_api (evaluator ach)) \<and>
     hot_id ` set (hot_achievements e) \<subseteq> fst ` set (achievements e)"

text \<open>The evaluators award through their result only, as the framework's own do.\<close>

definition awards_by_result :: "('m, 'p, 's, 'n, 't) engine \<Rightarrow> bool" where
  "awards_by_result e \<longleftrightarrow> (\<forall>(i, ach) \<in> set (achievements e). result_evaluator (evaluator ach))"

lemma engine_wfD:
  assumes "engine_wf ops e"
  shows "registry_wf ops (player_registry e)" "map_wf (achievements e)"
    "ach \<in> set (map snd (achievements e)) \<Longrightarrow> evaluator_api (evaluator ach)"
    "map_of (achievements e) i = Some ach \<Longrightarrow> achievement_id ach = i"
    "hot_id ` set (hot_achievements e) \<subseteq> fst ` set (achievements e)"
    "achievement_id ` set (map snd (achievements e)) = fst ` set (achievements e)"
  using assms by (auto simp: engine_wf_def image_iff dest!: map_of_SomeD) force+

section \<open>The parts of an accepted bloop\<close>

definition count_bloop :: "('p, 'n) player_ops \<Rightarrow> addr \<Rightarrow> ('p, 'n) players \<Rightarrow> ('p, 'n) players" where
  "count_bloop ops a w = ((fst w)[a := increment_bloops ops (fst w ! a)], snd w)"

definition the_bloop ::
  "('p, 'n) player_ops \<Rightarrow> clock \<Rightarrow> addr \<Rightarrow> client_id \<Rightarrow> ('m, 'p, 's, 'n, 't) engine \<Rightarrow> bloop" where
  "the_bloop ops clk a cid e =
     bloop_new ops (fst (count_bloop ops a (player_registry e))) a cid (now_bloop clk)"

definition counted ::
  "('p, 'n) player_ops \<Rightarrow> addr \<Rightarrow> ('m, 'p, 's, 'n, 't) engine \<Rightarrow> ('m, 'p, 's, 'n, 't) engine" where
  "counted ops a e = e\<lparr>player_registry := count_bloop ops a (player_registry e)\<rparr>"

definition evaluated ::
  "('p, 'n) player_ops \<Rightarrow> bloop \<Rightarrow> ('m, 'p, 's, 'n, 't) engine \<Rightarrow> awarded_tracker" where
  "evaluated ops b e = ctx_awarded_tracker (evaluation_context ops b e)"

definition hot_after ::
  "('p, 'n) player_ops \<Rightarrow> bloop \<Rightarrow> ('m, 'p, 's, 'n, 't) engine \<Rightarrow> hot_achievement list" where
  "hot_after ops b e =
     hot_achievements e @ newly_hot (achievements e) b (tracked (evaluated ops b e) (player_id b))"

definition final_tracker ::
  "('p, 'n) player_ops \<Rightarrow> bloop \<Rightarrow> ('m, 'p, 's, 'n, 't) engine \<Rightarrow> awarded_tracker" where
  "final_tracker ops b e =
     remove_duplicates ops (player_registry e)
       (fst (inject_hot_achievements b (evaluated ops b e) (e\<lparr>hot_achievements := hot_after ops b e\<rparr>)))"

lemma accept_bloop_eq:
  fixes e :: "('m, 'p, 's, 'n, 't) engine" and ops :: "('p, 'n) player_ops" and clk a cid
  defines "e1 \<equiv> counted ops a e" and "b \<equiv> the_bloop ops clk a cid e"
  defines "tr \<equiv> final_tracker ops b e1"
  shows "accept_bloop md5 fs ops clk a cid e =
     (let r = accepted_records md5 fs (audio_base_path e) (tracked tr (player_id b)) (achievements e)
      in (map_option BloopAccepted (fst r),
          (apply_awarded ops tr e1)
            \<lparr>bloop_provider := provider_add (now_global clk) (now_client clk) b (bloop_provider e),
             event_tx := event_tx e @ [AchievementsAwarded (award_batch_from tr),
               BloopProcessed (processed_bloop_from b)],
             trigger_registry := ctx_trigger_registry (evaluation_context ops b e1),
             hot_achievements := filter (is_hot b) (hot_after ops b e1),
             achievements := snd r\<rparr>))"
  unfolding e1_def b_def tr_def
  by (simp add: accept_bloop_def evaluate_achievements_eq activate_hot_achievements_eq
      inject_hot_achievements_eq final_tracker_def evaluated_def hot_after_def the_bloop_def
      count_bloop_def counted_def Let_def tracked_def [symmetric] apply_awarded_def
      split: prod.split)

definition admitted ::
  "('p, 'n) player_ops \<Rightarrow> clock \<Rightarrow> 'n \<Rightarrow> client_id \<Rightarrow> ('m, 'p, 's, 'n, 't) engine \<Rightarrow> addr \<Rightarrow> bool" where
  "admitted ops clk nfc cid e a \<longleftrightarrow>
     trigger_specs (trigger_registry e) nfc = None \<and>
     get_by_nfc_uid (player_registry e) nfc = Some a \<and>
     (case throttle e of
        None \<Rightarrow> True
      | Some th \<Rightarrow> \<not> is_throttled th (now_throttle clk) (bloops (for_client (bloop_provider e) cid))
                     (player_uuid ops (fst (player_registry e) ! a)))"

lemma handle_bloop_admitted:
  assumes "admitted ops clk nfc cid e a"
  shows "handle_bloop md5 fs ops clk nfc cid e = accept_bloop md5 fs ops clk a cid e"
  using assms
  by (simp add: admitted_def handle_bloop_def try_activate_trigger_def Let_def split: option.splits)

lemma handle_bloop_not_admitted:
  assumes "\<And>a. \<not> admitted ops clk nfc cid e a"
  shows "\<exists>r reg. handle_bloop md5 fs ops clk nfc cid e = (Some r, e\<lparr>trigger_registry := reg\<rparr>) \<and>
    trigger_step\<^sup>*\<^sup>* (trigger_registry e) reg"
proof -
  have step: "trigger_step (trigger_registry e)
      (snd (try_activate_trigger (now_trigger clk) nfc cid (trigger_registry e)))"
    by (rule trigger_step.activate [OF prod.collapse [symmetric]])
  show ?thesis
  proof (cases "trigger_specs (trigger_registry e) nfc")
    case None
    then have "try_activate_trigger (now_trigger clk) nfc cid (trigger_registry e) = (False, trigger_registry e)"
      by (simp add: try_activate_trigger_def)
    then have "\<exists>r. handle_bloop md5 fs ops clk nfc cid e = (Some r, e)"
      using None assms
      by (cases "get_by_nfc_uid (player_registry e) nfc"; cases "throttle e")
        (auto simp: handle_bloop_def admitted_def Let_def)
    then obtain r where "handle_bloop md5 fs ops clk nfc cid e = (Some r, e)" ..
    then have "handle_bloop md5 fs ops clk nfc cid e = (Some r, e\<lparr>trigger_registry := trigger_registry e\<rparr>)"
      by simp
    then show ?thesis by blast
  next
    case (Some sp)
    then have "fst (try_activate_trigger (now_trigger clk) nfc cid (trigger_registry e))"
      by (simp add: try_activate_trigger_def Let_def)
    with step show ?thesis
      by (cases "try_activate_trigger (now_trigger clk) nfc cid (trigger_registry e)")
        (auto simp: handle_bloop_def)
  qed
qed

section \<open>Counting the bloop\<close>

lemma count_bloop_mutate:
  assumes "player_traits ops" "registry_wf ops w" "get_by_nfc_uid w nfc = Some a"
  shows "count_bloop ops a w = mutate_by_id ops (player_uuid ops (fst w ! a)) (increment_bloops ops) w"
    and "read_by_id w (player_uuid ops (fst w ! a)) = Some (fst w ! a)"
proof -
  have "by_nfc_uid (snd w) nfc = Some a" using assms(3) by (simp add: get_by_nfc_uid_def)
  then have "by_id (snd w) (player_uuid ops (fst w ! a)) = Some a"
    using registry_wf_nfcD(3) [OF assms(2)] by blast
  then show "count_bloop ops a w = mutate_by_id ops (player_uuid ops (fst w ! a)) (increment_bloops ops) w"
    and "read_by_id w (player_uuid ops (fst w ! a)) = Some (fst w ! a)"
    by (cases w; simp add: count_bloop_def mutate_by_id_def Let_def player_traits.inc_nfc [OF assms(1)]
        read_by_id_def)+
qed

lemma count_bloop_registry:
  assumes "player_traits ops" "registry_wf ops w" "get_by_nfc_uid w nfc = Some a"
  defines "pid \<equiv> player_uuid ops (fst w ! a)"
  shows "registry_wf ops (count_bloop ops a w)"
    and "read_by_id (count_bloop ops a w) = (read_by_id w)(pid \<mapsto> increment_bloops ops (fst w ! a))"
    and "snd (count_bloop ops a w) = snd w"
    and "player_uuid ops (fst (count_bloop ops a w) ! a) = pid"
proof -
  note mut = count_bloop_mutate [OF assms(1-3)]
  note read = mut(2) [folded pid_def]
  have id: "player_uuid ops (increment_bloops ops (fst w ! a)) = pid"
    by (simp add: pid_def player_traits.inc_id [OF assms(1)])
  then show "registry_wf ops (count_bloop ops a w)"
    unfolding mut(1) pid_def [symmetric]
    by (intro registry.mutate_invar [OF assms(2) read]) (simp_all add: player_traits.inc_nfc [OF assms(1)])
  show "read_by_id (count_bloop ops a w) = (read_by_id w)(pid \<mapsto> increment_bloops ops (fst w ! a))"
    unfolding mut(1) pid_def [symmetric] by (rule registry.mutate_dir [OF assms(2) read])
  show "snd (count_bloop ops a w) = snd w" by (simp add: count_bloop_def)
  have "valid_addr (fst w) a"
    using assms(3) registry_wf_nfcD(1) [OF assms(2)] by (simp add: get_by_nfc_uid_def)
  then show "player_uuid ops (fst (count_bloop ops a w) ! a) = pid"
    using id by (simp add: count_bloop_def valid_addr_def)
qed

section \<open>The final tracker\<close>

definition candidate_awards ::
  "('p, 'n) player_ops \<Rightarrow> bloop \<Rightarrow> ('m, 'p, 's, 'n, 't) engine \<Rightarrow> uuid \<Rightarrow> uuid set" where
  "candidate_awards ops b e pid =
     awards (evaluated ops b e) pid \<union>
     (if pid = player_id b then hot_ids b (hot_after ops b e) else {})"

lemma evaluated_wf:
  assumes "engine_wf ops e"
  shows "tracker_wf (evaluated ops b e)" "awarded_at (evaluated ops b e) = recorded_at b"
  using evaluation_tracker(1,2) [of e ops b] engine_wfD(3) [OF assms]
  by (auto simp: evaluated_def)

lemma final_tracker_facts:
  assumes "engine_wf ops e"
  shows "tracker_wf (final_tracker ops b e)" "awarded_at (final_tracker ops b e) = recorded_at b"
    "awards (final_tracker ops b e) pid =
      (case read_by_id (player_registry e) pid of
         None \<Rightarrow> {}
       | Some p \<Rightarrow> {ach \<in> candidate_awards ops b e pid. awarded_achievements ops p ach = None})"
proof -
  let ?e = "e\<lparr>hot_achievements := hot_after ops b e\<rparr>"
  note ev = evaluated_wf [OF assms, of b]
  have wf: "tracker_wf (fst (inject_hot_achievements b (evaluated ops b e) ?e))"
    by (rule tracker_wf_inject [OF ev(1)])
  show "tracker_wf (final_tracker ops b e)"
    unfolding final_tracker_def by (rule tracker_wf_remove_duplicates [OF wf])
  show "awarded_at (final_tracker ops b e) = recorded_at b"
    by (simp add: final_tracker_def inject_hot_achievements_eq ev)
  show "awards (final_tracker ops b e) pid =
      (case read_by_id (player_registry e) pid of
         None \<Rightarrow> {}
       | Some p \<Rightarrow> {ach \<in> candidate_awards ops b e pid. awarded_achievements ops p ach = None})"
    unfolding final_tracker_def
    by (simp add: awards_remove_duplicates [OF wf] awards_inject candidate_awards_def
        split: option.split)
qed

lemma the_bloop_simps [simp]:
  "recorded_at (the_bloop ops clk a cid e) = now_bloop clk"
  "client_id (the_bloop ops clk a cid e) = cid"
  "player (the_bloop ops clk a cid e) = a"
  by (simp_all add: the_bloop_def bloop_new_def)

lemma counted_simps [simp]:
  "player_registry (counted ops a e) = count_bloop ops a (player_registry e)"
  "achievements (counted ops a e) = achievements e"
  "hot_achievements (counted ops a e) = hot_achievements e"
  "audio_base_path (counted ops a e) = audio_base_path e"
  "audio_manifest_hash (counted ops a e) = audio_manifest_hash e"
  "trigger_registry (counted ops a e) = trigger_registry e"
  "bloop_provider (counted ops a e) = bloop_provider e"
  "throttle (counted ops a e) = throttle e"
  "state (counted ops a e) = state e"
  by (simp_all add: counted_def)

lemma admittedD:
  assumes "player_traits ops" "engine_wf ops e" "admitted ops clk nfc cid e a"
  shows "engine_wf ops (counted ops a e)"
    and "player_id (the_bloop ops clk a cid e) = player_uuid ops (fst (player_registry e) ! a)"
    and "read_by_id (count_bloop ops a (player_registry e)) =
      (read_by_id (player_registry e))(player_id (the_bloop ops clk a cid e) \<mapsto>
         increment_bloops ops (fst (player_registry e) ! a))"
    and "read_by_id (player_registry e) (player_id (the_bloop ops clk a cid e)) =
      Some (fst (player_registry e) ! a)"
proof -
  have reg: "registry_wf ops (player_registry e)" using engine_wfD(1) [OF assms(2)] .
  have nfc: "get_by_nfc_uid (player_registry e) nfc = Some a" using assms(3) by (simp add: admitted_def)
  note count = count_bloop_registry [OF assms(1) reg nfc]
  show id: "player_id (the_bloop ops clk a cid e) = player_uuid ops (fst (player_registry e) ! a)"
    using count(4) by (simp add: the_bloop_def bloop_new_def)
  show "engine_wf ops (counted ops a e)" using assms(2) count(1) by (simp add: engine_wf_def)
  show "read_by_id (count_bloop ops a (player_registry e)) =
      (read_by_id (player_registry e))(player_id (the_bloop ops clk a cid e) \<mapsto>
         increment_bloops ops (fst (player_registry e) ! a))"
    using count(2) by (simp add: id)
  show "read_by_id (player_registry e) (player_id (the_bloop ops clk a cid e)) =
      Some (fst (player_registry e) ! a)"
    using count_bloop_mutate(2) [OF assms(1) reg nfc] by (simp add: id)
qed

text \<open>What an accepted bloop makes of a registered player.\<close>

definition player_after ::
  "('p, 'n) player_ops \<Rightarrow> bloop \<Rightarrow> uuid set \<Rightarrow> uuid \<Rightarrow> 'p \<Rightarrow> 'p \<Rightarrow> bool" where
  "player_after ops b new i p q \<longleftrightarrow>
     player_uuid ops q = player_uuid ops p \<and> nfc_uid ops q = nfc_uid ops p \<and>
     total_bloops ops q = total_bloops ops p + (if i = player_id b then 1 else 0) \<and>
     awarded_achievements ops q =
       (\<lambda>ach. if awarded_achievements ops p ach = None \<and> ach \<in> new then Some (recorded_at b)
              else awarded_achievements ops p ach)"

lemma accept_bloop_registry:
  fixes md5 :: "u8 list \<Rightarrow> data_hash" and fs :: "path \<Rightarrow> u8 list option"
  assumes "player_traits ops" "engine_wf ops e" "admitted ops clk nfc cid e a"
  defines "b \<equiv> the_bloop ops clk a cid e"
  defines "e' \<equiv> snd (accept_bloop md5 fs ops clk a cid e)"
  shows "registry_wf ops (player_registry e')"
    and "snd (player_registry e') = snd (player_registry e)"
    and "read_by_id (player_registry e) i = Some p \<Longrightarrow>
      \<exists>q. read_by_id (player_registry e') i = Some q \<and>
          player_after ops b (candidate_awards ops b (counted ops a e) i) i p q"
proof -
  let ?e1 = "counted ops a e"
  note adm = admittedD [OF assms(1-3)]
  note tr = final_tracker_facts [OF adm(1), of b]
  have reg: "player_registry e' = player_registry (apply_awarded ops (final_tracker ops b ?e1) ?e1)"
    by (simp add: e'_def accept_bloop_eq b_def Let_def)
  note app = apply_awarded_registry [OF assms(1) engine_wfD(1) [OF adm(1)] tr(1)]
  show "registry_wf ops (player_registry e')" using app by (simp add: reg)
  show "snd (player_registry e') = snd (player_registry e)"
    using app by (simp add: reg count_bloop_def)
  assume p: "read_by_id (player_registry e) i = Some p"
  let ?p1 = "if i = player_id b then increment_bloops ops p else p"
  have p1: "read_by_id (player_registry ?e1) i = Some ?p1"
    using p adm(3,4) by (auto simp: b_def)
  let ?q = "fold (\<lambda>i. add_awarded_achievement ops i (recorded_at b))
      (tracked (final_tracker ops b ?e1) i) ?p1"
  have "read_by_id (player_registry e') i = Some ?q"
    using app p1 by (simp add: reg tr(2))
  moreover have "awards (final_tracker ops b ?e1) i =
      {ach \<in> candidate_awards ops b ?e1 i. awarded_achievements ops p ach = None}"
    using tr(3) [of i] p1 by (simp add: player_traits.trait_simps [OF assms(1)] split: if_splits)
  then have "player_after ops b (candidate_awards ops b ?e1 i) i p ?q"
    by (auto simp: player_after_def player_traits.fold_award_keeps [OF assms(1)]
        player_traits.fold_award_awarded [OF assms(1)] player_traits.trait_simps [OF assms(1)] fun_eq_iff)
  ultimately show "\<exists>q. read_by_id (player_registry e') i = Some q \<and>
      player_after ops b (candidate_awards ops b ?e1 i) i p q" by blast
qed

section \<open>The response and the invariant\<close>

lemma accept_bloop_response:
  fixes clk :: clock and cid :: client_id
  assumes "engine_wf ops (counted ops a e)"
  defines "b \<equiv> the_bloop ops clk a cid e"
  defines "tr \<equiv> final_tracker ops b (counted ops a e)"
  shows "fst (accept_bloop md5 fs ops clk a cid e) =
    (if awards tr (player_id b) \<subseteq> fst ` set (achievements e)
     then Some (BloopAccepted (map (\<lambda>i. \<lparr>record_id = i,
            audio_hash = audio_hash_of md5 fs (audio_base_path e) (the (map_of (achievements e) i))\<rparr>)
            (tracked tr (player_id b))))
     else None)"
  by (simp add: accept_bloop_eq Let_def accepted_records_result b_def tr_def)

lemma update_set: "set (AList.update k v m) \<subseteq> insert (k, v) (set m)"
  by (induction m) auto

lemma accepted_records_preserve:
  assumes "\<And>i ach. (i, ach) \<in> set achs \<Longrightarrow> Q i ach"
    and "\<And>i ach. Q i ach \<Longrightarrow> Q i (resolve_source md5 fs base ach)"
    and "(i, ach) \<in> set (snd (accepted_records md5 fs base ids achs))"
  shows "Q i ach"
  using assms(1,3)
proof (induction ids arbitrary: achs)
  case (Cons j ids)
  show ?case
  proof (cases "map_of achs j")
    case None
    with Cons.prems show ?thesis by simp
  next
    case (Some a)
    let ?achs = "AList.update j (resolve_source md5 fs base a) achs"
    have "snd (accepted_records md5 fs base (j # ids) achs) = snd (accepted_records md5 fs base ids ?achs)"
      using resolve_in_eq(2) [of md5 fs base j a achs]
      by (cases "resolve_in md5 fs base j a achs") (simp add: Some split: prod.split)
    moreover have "Q k x" if "(k, x) \<in> set ?achs" for k x
      using that update_set [of j "resolve_source md5 fs base a" achs] Cons.prems(1)
        assms(2) [of j a] map_of_SomeD [OF Some] by auto
    ultimately show ?thesis using Cons.IH [of ?achs] Cons.prems(2) by simp
  qed
qed simp

lemma accepted_records_keys [simp]:
  "fst ` set (snd (accepted_records md5 fs base ids achs)) = fst ` set achs"
  "map_wf (snd (accepted_records md5 fs base ids achs)) \<longleftrightarrow> map_wf achs"
  using accepted_records_map [of md5 fs base ids achs] by (metis list.set_map, metis)

lemma newly_hot_ids: "hot_id ` set (newly_hot achs b ids) \<subseteq> fst ` set achs"
proof
  fix j
  assume "j \<in> hot_id ` set (newly_hot achs b ids)"
  then obtain d where "Option.bind (map_of achs j) hot_duration = Some d"
    by (auto simp: newly_hot_def hot_achievement_new_def split: option.splits dest!: sym [of "Some _"])
  then obtain ach where "map_of achs j = Some ach" by (auto simp: bind_eq_Some_conv)
  then show "j \<in> fst ` set achs" by (force dest: map_of_SomeD)
qed

lemma hot_after_ids:
  assumes "engine_wf ops e"
  shows "hot_id ` set (hot_after ops b e) \<subseteq> fst ` set (achievements e)"
  using engine_wfD(5) [OF assms] newly_hot_ids [of "achievements e" b]
  by (fastforce simp: hot_after_def)

lemma achievements_accept:
  "achievements (snd (accept_bloop md5 fs ops clk a cid e)) =
    snd (accepted_records md5 fs (audio_base_path e)
      (tracked (final_tracker ops (the_bloop ops clk a cid e) (counted ops a e))
        (player_id (the_bloop ops clk a cid e))) (achievements e))"
  by (simp add: accept_bloop_eq Let_def)

lemma engine_wf_accept [inv_intros]:
  assumes "player_traits ops" "engine_wf ops e" "admitted ops clk nfc cid e a"
  shows "engine_wf ops (snd (accept_bloop md5 fs ops clk a cid e))"
  unfolding engine_wf_def
proof (intro conjI)
  let ?e' = "snd (accept_bloop md5 fs ops clk a cid e)"
  show "registry_wf ops (player_registry ?e')" by (rule accept_bloop_registry(1) [OF assms])
  show "map_wf (achievements ?e')" using engine_wfD(2) [OF assms(2)] by (simp add: achievements_accept)
  show "\<forall>(i, ach)\<in>set (achievements ?e'). achievement_id ach = i \<and> evaluator_api (evaluator ach)"
    unfolding achievements_accept
  proof clarify
    fix i ach
    assume mem: "(i, ach) \<in> set (snd (accepted_records md5 fs (audio_base_path e)
      (tracked (final_tracker ops (the_bloop ops clk a cid e) (counted ops a e))
        (player_id (the_bloop ops clk a cid e))) (achievements e)))"
    show "achievement_id ach = i \<and> evaluator_api (evaluator ach)"
      by (rule accepted_records_preserve [where Q = "\<lambda>i ach. achievement_id ach = i \<and> evaluator_api (evaluator ach)",
            OF _ _ mem]) (use assms(2) in \<open>auto simp: engine_wf_def\<close>)
  qed
  have "hot_achievements ?e' = filter (is_hot (the_bloop ops clk a cid e))
      (hot_after ops (the_bloop ops clk a cid e) (counted ops a e))"
    by (simp add: accept_bloop_eq Let_def)
  with hot_after_ids [OF admittedD(1) [OF assms], of "the_bloop ops clk a cid e"]
  show "hot_id ` set (hot_achievements ?e') \<subseteq> fst ` set (achievements ?e')"
    by (auto simp: achievements_accept)
qed

lemma awards_by_result_accept [inv_intros]:
  assumes "awards_by_result e"
  shows "awards_by_result (snd (accept_bloop md5 fs ops clk a cid e))"
  unfolding awards_by_result_def achievements_accept
proof clarify
  fix i ach
  assume mem: "(i, ach) \<in> set (snd (accepted_records md5 fs (audio_base_path e)
    (tracked (final_tracker ops (the_bloop ops clk a cid e) (counted ops a e))
      (player_id (the_bloop ops clk a cid e))) (achievements e)))"
  show "result_evaluator (evaluator ach)"
    by (rule accepted_records_preserve [where Q = "\<lambda>i ach. result_evaluator (evaluator ach)", OF _ _ mem])
      (use assms in \<open>auto simp: awards_by_result_def\<close>)
qed

lemma final_awards_known:
  assumes "engine_wf ops e" "awards_by_result e"
  shows "awards (final_tracker ops b e) (player_id b) \<subseteq> fst ` set (achievements e)"
proof -
  have "awards (evaluated ops b e) (player_id b) \<subseteq> fst ` set (achievements e)"
    using evaluation_awards [of e ops b "player_id b"] assms(2) engine_wfD(6) [OF assms(1)]
    by (fastforce simp: evaluated_def awards_by_result_def)
  moreover have "hot_ids b (hot_after ops b e) \<subseteq> fst ` set (achievements e)"
    using hot_after_ids [OF assms(1), of b] by (auto simp: hot_ids_def)
  ultimately have "candidate_awards ops b e (player_id b) \<subseteq> fst ` set (achievements e)"
    by (simp add: candidate_awards_def)
  then show ?thesis by (auto simp: final_tracker_facts(3) [OF assms(1)] split: option.splits)
qed

lemma awards_by_result_counted [simp]: "awards_by_result (counted ops a e) \<longleftrightarrow> awards_by_result e"
  by (simp add: awards_by_result_def)

lemma accept_bloop_answers:
  assumes "player_traits ops" "engine_wf ops e" "admitted ops clk nfc cid e a" "awards_by_result e"
  shows "\<exists>records. fst (accept_bloop md5 fs ops clk a cid e) = Some (BloopAccepted records)"
  using accept_bloop_response [OF admittedD(1) [OF assms(1-3)]]
    final_awards_known [OF admittedD(1) [OF assms(1-3)], of "the_bloop ops clk a cid e"] assms(4)
  by simp

lemma records_hashes:
  assumes "set ids \<subseteq> fst ` set achs"
    and "rec \<in> set (map (\<lambda>i. \<lparr>record_id = i, audio_hash = h (the (map_of achs i))\<rparr>) ids)"
  shows "\<exists>ach. map_of achs (record_id rec) = Some ach \<and> audio_hash rec = h ach"
proof -
  from assms(2) obtain i where i: "i \<in> set ids"
    and rec: "rec = \<lparr>record_id = i, audio_hash = h (the (map_of achs i))\<rparr>" by auto
  from i assms(1) have "map_of achs i \<noteq> None" by (auto simp: map_of_eq_None_iff)
  with rec show ?thesis by auto
qed

section \<open>An engine to evaluate\<close>

definition demo_md5 :: "u8 list \<Rightarrow> data_hash" where
  "demo_md5 bs = take 16 bs"

definition demo_fs :: "path \<Rightarrow> u8 list option" where
  "demo_fs p = (if p = ''/audio/a.mp3'' then Some [1, 2, 3] else None)"

definition demo_clock :: "int \<Rightarrow> clock" where
  "demo_clock t = \<lparr>now_trigger = t, now_throttle = t, now_bloop = t, now_global = t, now_client = t\<rparr>"

definition demo_engine ::
  "(unit, nat mock_player, unit, nat, nat) achievement list \<Rightarrow>
   (unit, nat mock_player, unit, nat, nat) engine" where
  "demo_engine achs =
     \<lparr>bloop_provider = provider_new 1000, achievements = map (\<lambda>ach. (achievement_id ach, ach)) achs,
      audio_base_path = ''/audio'', audio_manifest_hash = [], player_registry = demo_players,
      state = (), trigger_registry = trigger_registry_new [99 \<mapsto> demo_spec Once], hot_achievements = [], event_tx = [],
      throttle = Some \<lparr>max_bloops = 2, threshold = 100\<rparr>\<rparr>"

definition demo_award_self :: "(unit, nat mock_player, unit, nat, nat) achievement" where
  "demo_award_self = demo_achievement 7 (dummy_evaluator AwardSelf)"

lemma demo_engine_wf: "engine_wf mock_player_ops (demo_engine [demo_award_self])"
  using dummy_evaluator.evaluator_api_axioms
  by (simp add: engine_wf_def demo_engine_def demo_players_wf demo_award_self_def demo_achievement_def)

lemma demo_engine_result: "awards_by_result (demo_engine [demo_award_self])"
  using dummy_evaluator.result_evaluator_axioms
  by (simp add: awards_by_result_def demo_engine_def demo_award_self_def demo_achievement_def)

lemma demo_admitted:
  "admitted mock_player_ops (demo_clock 50) 10 ''c'' (demo_engine [demo_award_self]) 0"
  by (simp add: admitted_def demo_engine_def trigger_registry_new_def demo_players_eval get_by_nfc_uid_def
      is_throttled_def provider_new_def for_client_def)

text \<open>An evaluator that awards an ID of its own choice through the context.\<close>

definition demo_foreign :: "(nat mock_player, unit, nat, nat) evaluator" where
  "demo_foreign ctx = (NoAward, award_achievement 42 (player_id (current_bloop ctx)) ctx)"

interpretation demo_foreign: evaluator_api demo_foreign
  by unfold_locales (auto simp: demo_foreign_def intro: ctx_step.award)

section \<open>Properties of one bloop\<close>

text \<open>C3: An accepted bloop updates every registered player exactly as promised: the scanning player's
  total grows by one (modulo the width of \<open>usize\<close>) and nobody else's changes, no UUID, NFC UID or
  registry entry changes, every award a player already had keeps its timestamp, and the awards added
  are exactly the candidates (the evaluators' awards, and the hot achievements of the client for
  the scanning player) the player did not have, stamped with the bloop's time. The registry
  stays consistent.\<close>

theorem accepted_bloop_updates_players:
  assumes "player_traits ops" "engine_wf ops e" "admitted ops clk nfc cid e a"
  shows "(let b = the_bloop ops clk a cid e; e' = snd (handle_bloop md5 fs ops clk nfc cid e)
          in registry_wf ops (player_registry e') \<and>
             snd (player_registry e') = snd (player_registry e) \<and>
             player_id b = player_uuid ops (fst (player_registry e) ! a) \<and> recorded_at b = now_bloop clk \<and>
             (\<forall>i p. read_by_id (player_registry e) i = Some p \<longrightarrow>
                (\<exists>q. read_by_id (player_registry e') i = Some q \<and>
                   player_after ops b (candidate_awards ops b (counted ops a e) i) i p q)))"
  using accept_bloop_registry [OF assms] admittedD(2) [OF assms]
  by (simp add: handle_bloop_admitted [OF assms(3)] Let_def)

theorem accepted_bloop_updates_players_witness:
  "\<exists>q. read_by_id (player_registry (snd (handle_bloop demo_md5 demo_fs mock_player_ops (demo_clock 50) 10 ''c''
          (demo_engine [demo_award_self])))) 1 = Some q \<and> bloops_count q = 1"
proof -
  have "read_by_id (player_registry (demo_engine [demo_award_self])) 1 = Some (demo_player 1 10)"
    by (simp add: demo_engine_def demo_players_eval read_by_id_def)
  moreover have "fst (player_registry (demo_engine [demo_award_self])) ! 0 = demo_player 1 10"
    by (simp add: demo_engine_def demo_players_eval)
  moreover note accepted_bloop_updates_players [where ?md5.0 = demo_md5 and fs = demo_fs,
      OF mock.player_traits_axioms demo_engine_wf demo_admitted, unfolded Let_def]
  ultimately have "\<exists>q. read_by_id (player_registry (snd (handle_bloop demo_md5 demo_fs mock_player_ops
      (demo_clock 50) 10 ''c'' (demo_engine [demo_award_self])))) 1 = Some q \<and>
      player_after mock_player_ops (the_bloop mock_player_ops (demo_clock 50) 0 ''c'' (demo_engine [demo_award_self]))
        (candidate_awards mock_player_ops (the_bloop mock_player_ops (demo_clock 50) 0 ''c'' (demo_engine [demo_award_self]))
          (counted mock_player_ops 0 (demo_engine [demo_award_self])) 1) 1 (demo_player 1 10) q \<and>
      player_id (the_bloop mock_player_ops (demo_clock 50) 0 ''c'' (demo_engine [demo_award_self])) = 1"
    by (auto simp: mock_selectors)
  then show ?thesis by (auto simp: player_after_def mock_selectors)
qed

text \<open>C7: An accepted bloop is recorded in the history, and exactly two events are sent, in this order: the
  batch of awards, which contains for every player the achievements the player gains, and the
  processed bloop. The manifest, the base path and the throttle do not change, and the trigger
  registry changes only by checks of active triggers.\<close>

theorem accepted_bloop_history_and_events:
  assumes "player_traits ops" "engine_wf ops e" "admitted ops clk nfc cid e a"
  shows "(let b = the_bloop ops clk a cid e; tr = final_tracker ops b (counted ops a e);
              e' = snd (handle_bloop md5 fs ops clk nfc cid e)
          in bloop_provider e' = provider_add (now_global clk) (now_client clk) b (bloop_provider e) \<and>
             event_tx e' = event_tx e @ [AchievementsAwarded (award_batch_from tr),
               BloopProcessed \<lparr>pb_player_id = player_id b, pb_client_id = cid, pb_recorded_at = now_bloop clk\<rparr>] \<and>
             (\<forall>i. awards tr i = (case read_by_id (player_registry e) i of None \<Rightarrow> {} | Some p \<Rightarrow>
                {ach \<in> candidate_awards ops b (counted ops a e) i. awarded_achievements ops p ach = None})) \<and>
             audio_manifest_hash e' = audio_manifest_hash e \<and> audio_base_path e' = audio_base_path e \<and>
             throttle e' = throttle e \<and> state e' = state e \<and>
             trigger_step\<^sup>*\<^sup>* (trigger_registry e) (trigger_registry e'))"
proof -
  let ?b = "the_bloop ops clk a cid e" and ?e1 = "counted ops a e"
  note adm = admittedD [OF assms]
  have "awards (final_tracker ops ?b ?e1) i = (case read_by_id (player_registry e) i of None \<Rightarrow> {} | Some p \<Rightarrow>
      {ach \<in> candidate_awards ops ?b ?e1 i. awarded_achievements ops p ach = None})" for i
    using final_tracker_facts(3) [OF adm(1), of ?b i] adm(3,4)
    by (cases "i = player_id ?b") (simp_all add: player_traits.trait_simps [OF assms(1)])
  moreover have "trigger_step\<^sup>*\<^sup>* (trigger_registry e) (ctx_trigger_registry (evaluation_context ops ?b ?e1))"
    using evaluation_tracker(3) [of ?e1 ops ?b] engine_wfD(3) [OF assms(2)] by simp
  ultimately show ?thesis
    unfolding handle_bloop_admitted [OF assms(3)] accept_bloop_eq Let_def
    by (simp add: frame_simps processed_bloop_from_def)
qed

theorem accepted_bloop_history_and_events_witness:
  "length (event_tx (snd (handle_bloop demo_md5 demo_fs mock_player_ops (demo_clock 50) 10 ''c''
     (demo_engine [demo_award_self])))) = 2"
  using accepted_bloop_history_and_events [where ?md5.0 = demo_md5 and fs = demo_fs,
      OF mock.player_traits_axioms demo_engine_wf demo_admitted]
  by (simp add: Let_def) (simp add: demo_engine_def)

text \<open>C4: When every evaluator awards through its result, the engine answers an accepted bloop (the lookup
  \<open>unwrap\<close> cannot panic), the answer lists exactly the achievements the scanning player gains, none
  of them twice, with the hash of the achievement's audio file, and the engine's invariant holds
  again.\<close>

theorem accepted_bloop_response_lists_new_awards:
  assumes "player_traits ops" "engine_wf ops e" "awards_by_result e" "admitted ops clk nfc cid e a"
  shows "\<exists>records. let (r, e') = handle_bloop md5 fs ops clk nfc cid e;
                       b = the_bloop ops clk a cid e; p = fst (player_registry e) ! a
     in r = Some (BloopAccepted records) \<and> distinct (map record_id records) \<and>
        record_id ` set records =
          {ach \<in> candidate_awards ops b (counted ops a e) (player_id b). awarded_achievements ops p ach = None} \<and>
        (\<forall>rec \<in> set records. \<exists>ach. map_of (achievements e) (record_id rec) = Some ach \<and>
           audio_hash rec = audio_hash_of md5 fs (audio_base_path e) ach) \<and>
        engine_wf ops e' \<and> awards_by_result e'"
proof -
  let ?b = "the_bloop ops clk a cid e" and ?e1 = "counted ops a e"
  let ?tr = "final_tracker ops ?b ?e1"
  let ?records = "map (\<lambda>i. \<lparr>record_id = i, audio_hash = audio_hash_of md5 fs (audio_base_path e)
      (the (map_of (achievements e) i))\<rparr>) (tracked ?tr (player_id ?b))"
  note adm = admittedD [OF assms(1,2,4)]
  have known: "awards ?tr (player_id ?b) \<subseteq> fst ` set (achievements e)"
    using final_awards_known [OF adm(1), of ?b] assms(3) by simp
  have new: "awards ?tr (player_id ?b) = {ach \<in> candidate_awards ops ?b ?e1 (player_id ?b).
      awarded_achievements ops (fst (player_registry e) ! a) ach = None}"
    using final_tracker_facts(3) [OF adm(1), of ?b "player_id ?b"] adm(3)
    by (simp add: player_traits.trait_simps [OF assms(1)])
  have dist: "distinct (map record_id ?records)"
    using tracker_wf_tracked [OF final_tracker_facts(1) [OF adm(1), of ?b], of "player_id ?b"]
    by (simp add: o_def)
  have hashes: "\<exists>ach. map_of (achievements e) (record_id rec) = Some ach \<and>
      audio_hash rec = audio_hash_of md5 fs (audio_base_path e) ach" if "rec \<in> set ?records" for rec
    using that by (rule records_hashes [rotated]) (simp add: known)
  define e' where "e' = snd (accept_bloop md5 fs ops clk a cid e)"
  define records where "records = ?records"
  have "fst (accept_bloop md5 fs ops clk a cid e) = Some (BloopAccepted records)"
    using accept_bloop_response [OF adm(1)] known by (simp add: records_def)
  then have step: "handle_bloop md5 fs ops clk nfc cid e = (Some (BloopAccepted records), e')"
    by (simp add: handle_bloop_admitted [OF assms(4)] e'_def prod_eq_iff)
  have ids: "record_id ` set records = {ach \<in> candidate_awards ops ?b ?e1 (player_id ?b).
      awarded_achievements ops (fst (player_registry e) ! a) ach = None}"
    by (simp add: records_def image_image new)
  have inv: "engine_wf ops e'" "awards_by_result e'"
    unfolding e'_def using assms by (auto intro: engine_wf_accept awards_by_result_accept)
  show ?thesis
    unfolding step Let_def prod.case
    by (rule exI [of _ records]) (use dist hashes ids inv in \<open>auto simp: records_def\<close>)
qed

theorem accepted_bloop_response_lists_new_awards_witness:
  "\<exists>records. fst (handle_bloop demo_md5 demo_fs mock_player_ops (demo_clock 50) 10 ''c''
     (demo_engine [demo_award_self])) = Some (BloopAccepted records)"
  using accepted_bloop_response_lists_new_awards [where ?md5.0 = demo_md5 and fs = demo_fs,
      OF mock.player_traits_axioms demo_engine_wf demo_engine_result demo_admitted]
  by (auto simp: Let_def case_prod_beta)

text \<open>C11: An award of an achievement the engine does not have takes the engine down: if an evaluator records,
  through the context, an award of an unknown ID for the scanning player, who does not have it yet,
  the player's total grows by one, the award is stored with the bloop's time, the bloop is in the history
  and both events are sent, the batch with that award and the processed bloop; then the lookup of the
  audio hash panics before the client is answered, and no later request is handled or answered either.\<close>

theorem foreign_award_panics:
  assumes "player_traits ops" "engine_wf ops e" "admitted ops clk nfc cid e a"
    and "ach \<in> awards (evaluated ops (the_bloop ops clk a cid e) (counted ops a e))
                 (player_id (the_bloop ops clk a cid e))"
    and "awarded_achievements ops (fst (player_registry e) ! a) ach = None"
    and "map_of (achievements e) ach = None"
  shows "(let b = the_bloop ops clk a cid e; p = fst (player_registry e) ! a;
              (r, e') = handle_bloop md5 fs ops clk nfc cid e
          in r = None \<and>
             (\<exists>q. read_by_id (player_registry e') (player_uuid ops p) = Some q \<and>
                total_bloops ops q = total_bloops ops p + 1 \<and> awarded_achievements ops q ach = Some (now_bloop clk)) \<and>
             bloop_provider e' = provider_add (now_global clk) (now_client clk) b (bloop_provider e) \<and>
             (\<exists>batch ids. event_tx e' = event_tx e @ [AchievementsAwarded batch,
                  BloopProcessed \<lparr>pb_player_id = player_uuid ops p, pb_client_id = cid, pb_recorded_at = now_bloop clk\<rparr>] \<and>
                batch_awarded_at batch = now_bloop clk \<and>
                \<lparr>award_player_id = player_uuid ops p, achievement_ids = ids\<rparr> \<in> set (batch_players batch) \<and> ach \<in> set ids) \<and>
             process_requests md5 ops
               (\<lparr>request = BloopRequest cid nfc, input_clock = clk, input_fs = fs, input_fs_task = fs_task\<rparr> # later) e =
               ([], e', False))"
proof -
  let ?b = "the_bloop ops clk a cid e" and ?e1 = "counted ops a e" and ?p = "fst (player_registry e) ! a"
  let ?tr = "final_tracker ops ?b ?e1"
  note adm = admittedD [OF assms(1-3)]
  define e' where "e' = snd (accept_bloop md5 fs ops clk a cid e)"
  have mine: "ach \<in> awards ?tr (player_id ?b)"
    using final_tracker_facts(3) [OF adm(1), of ?b "player_id ?b"] adm(3) assms(4,5)
    by (simp add: player_traits.trait_simps [OF assms(1)] candidate_awards_def)
  moreover have "ach \<notin> fst ` set (achievements e)" using assms(6) by (simp add: map_of_eq_None_iff)
  ultimately have "fst (accept_bloop md5 fs ops clk a cid e) = None"
    using accept_bloop_response [OF adm(1)] by auto
  then have step: "handle_bloop md5 fs ops clk nfc cid e = (None, e')"
    by (simp add: handle_bloop_admitted [OF assms(3)] e'_def prod_eq_iff)
  have "\<exists>q. read_by_id (player_registry e') (player_id ?b) = Some q \<and>
      total_bloops ops q = total_bloops ops ?p + 1 \<and> awarded_achievements ops q ach = Some (now_bloop clk)"
    using accept_bloop_registry(3) [OF assms(1-3) adm(4), of md5 fs] assms(4,5)
    by (auto simp: e'_def player_after_def candidate_awards_def)
  moreover obtain ids where "(player_id ?b, ids) \<in> set (awarded ?tr)" "ach \<in> set ids"
    using mine by (auto simp: awards_def for_player_def split: option.splits dest: map_of_SomeD)
  then have "\<lparr>award_player_id = player_id ?b, achievement_ids = ids\<rparr> \<in> set (batch_players (award_batch_from ?tr)) \<and> ach \<in> set ids"
    by (force simp: award_batch_from_def)
  moreover have "batch_awarded_at (award_batch_from ?tr) = now_bloop clk"
    using final_tracker_facts(2) [OF adm(1), of ?b] by (simp add: award_batch_from_def)
  moreover have "event_tx e' = event_tx e @ [AchievementsAwarded (award_batch_from ?tr),
      BloopProcessed \<lparr>pb_player_id = player_id ?b, pb_client_id = cid, pb_recorded_at = now_bloop clk\<rparr>]"
    "bloop_provider e' = provider_add (now_global clk) (now_client clk) ?b (bloop_provider e)"
    by (simp_all add: e'_def accept_bloop_eq Let_def processed_bloop_from_def)
  ultimately show ?thesis
    unfolding Let_def step prod.case by (simp add: adm(2) step) blast
qed

theorem foreign_award_panics_witness:
  "fst (handle_bloop demo_md5 demo_fs mock_player_ops (demo_clock 50) 10 ''c''
     (demo_engine [demo_achievement 7 demo_foreign])) = None"
proof -
  let ?e = "demo_engine [demo_achievement 7 demo_foreign]"
  have wf: "engine_wf mock_player_ops ?e"
    using demo_foreign.evaluator_api_axioms
    by (simp add: engine_wf_def demo_engine_def demo_players_wf demo_achievement_def)
  have adm: "admitted mock_player_ops (demo_clock 50) 10 ''c'' ?e 0"
    by (simp add: admitted_def demo_engine_def trigger_registry_new_def demo_players_eval
        get_by_nfc_uid_def is_throttled_def provider_new_def for_client_def)
  have "42 \<in> awards (evaluated mock_player_ops (the_bloop mock_player_ops (demo_clock 50) 0 ''c'' ?e)
      (counted mock_player_ops 0 ?e)) (player_id (the_bloop mock_player_ops (demo_clock 50) 0 ''c'' ?e))"
    by (simp add: evaluated_def evaluation_context_def demo_engine_def demo_achievement_def
        achievement_evaluate_def demo_foreign_def award_achievement_def demo_players_eval
        counted_def count_bloop_def mock_player_ops_def demo_player_def)
  from foreign_award_panics [OF mock.player_traits_axioms wf adm this,
      where ?md5.0 = demo_md5 and fs = demo_fs and fs_task = demo_fs and later = "[]"]
  show ?thesis
    by (simp add: case_prod_beta Let_def)
      (simp add: demo_engine_def demo_achievement_def demo_players_eval mock_selectors)
qed

text \<open>C10: A scan that is not an accepted bloop changes nothing but the triggers: a trigger tag activates its
  trigger and is answered with an empty acceptance, an unknown tag is answered with
  \<open>UnknownNfcUid\<close>, and a known tag is throttled exactly when the client's last \<open>max_bloops\<close> bloops within
  the threshold exist and are all by the same player.\<close>

theorem rejected_scan_changes_nothing:
  "(case trigger_specs (trigger_registry e) nfc of
      Some sp \<Rightarrow> handle_bloop md5 fs ops clk nfc cid e =
        (Some (BloopAccepted []), e\<lparr>trigger_registry := snd (try_activate_trigger (now_trigger clk) nfc cid (trigger_registry e))\<rparr>)
    | None \<Rightarrow>
        (case get_by_nfc_uid (player_registry e) nfc of
           None \<Rightarrow> handle_bloop md5 fs ops clk nfc cid e = (Some (ErrorMessage UnknownNfcUid), e)
         | Some a \<Rightarrow>
             if \<exists>th. throttle e = Some th \<and>
                  (let recent = filter (bloops_since (now_throttle clk - int (threshold th)))
                                  (bloops (for_client (bloop_provider e) cid))
                   in max_bloops th \<le> length recent \<and>
                      (\<forall>k < max_bloops th. player_id (recent ! k) = player_uuid ops (fst (player_registry e) ! a)))
             then handle_bloop md5 fs ops clk nfc cid e = (Some (ErrorMessage NfcUidThrottled), e)
             else handle_bloop md5 fs ops clk nfc cid e = accept_bloop md5 fs ops clk a cid e))"
proof (cases "trigger_specs (trigger_registry e) nfc")
  case (Some sp)
  then show ?thesis
    by (simp add: handle_bloop_def try_activate_trigger_def Let_def)
next
  case None
  then have no_trigger: "try_activate_trigger (now_trigger clk) nfc cid (trigger_registry e) = (False, trigger_registry e)"
    by (simp add: try_activate_trigger_def)
  show ?thesis
  proof (cases "get_by_nfc_uid (player_registry e) nfc")
    case (Some a)
    have throttled: "is_throttled th now bs pid \<longleftrightarrow>
        max_bloops th \<le> length (filter (bloops_since (now - int (threshold th))) bs) \<and>
        (\<forall>k < max_bloops th. player_id (filter (bloops_since (now - int (threshold th))) bs ! k) = pid)"
      for th now bs pid
      by (auto simp: is_throttled_def Let_def list_all_length)
    show ?thesis
      using None Some no_trigger
      by (cases "throttle e") (auto simp: handle_bloop_def Let_def throttled)
  qed (use None no_trigger in \<open>simp add: handle_bloop_def\<close>)
qed

theorem rejected_scan_changes_nothing_witness:
  "handle_bloop demo_md5 demo_fs mock_player_ops (demo_clock 50) 77 ''c'' (demo_engine []) =
     (Some (ErrorMessage UnknownNfcUid), demo_engine [])"
  using rejected_scan_changes_nothing [where e = "demo_engine []" and nfc = 77 and ?md5.0 = demo_md5
      and fs = demo_fs and ops = mock_player_ops and clk = "demo_clock 50" and cid = "''c''"]
  by (simp add: demo_engine_def trigger_registry_new_def demo_players_eval get_by_nfc_uid_def)

end
