(* ===== verification/Engine_Interference.thy ===== *)
theory Engine_Interference
  imports Engine_Correct
begin

text \<open>
  A bloop while other tasks use the players (\<open>src/src/engine.rs\<close>). The registry is behind an
  \<open>Arc<Mutex<_>>\<close> and each player behind an \<open>Arc<RwLock<_>>\<close> that the application shares. \<open>handle_bloop\<close> does
  not hold the locks from start to end: it takes and releases them for the lookup, for the throttle,
  for the counter, for the bloop, for the previous awards, waits for the application state, and takes
  the registry again for \<open>remove_duplicates\<close> and for \<open>apply_awarded\<close>. Here the handler takes, for each of
  these points, what the other tasks make of the players while it waits. With no interference it is
  the handler of the theory \<open>Engine\<close>; \<open>shared_step\<close> is what every task is expected to do with the players,
  and what the engine itself does with them.
\<close>

section \<open>The handler with interference\<close>

record ('p, 'n) interference =
  at_throttle :: "('p, 'n) players \<Rightarrow> ('p, 'n) players"
  at_count :: "('p, 'n) players \<Rightarrow> ('p, 'n) players"
  at_bloop :: "('p, 'n) players \<Rightarrow> ('p, 'n) players"
  at_awarded :: "('p, 'n) players \<Rightarrow> ('p, 'n) players"
  at_state :: "('p, 'n) players \<Rightarrow> ('p, 'n) players"
  at_duplicates :: "('p, 'n) players \<Rightarrow> ('p, 'n) players"
  at_apply :: "('p, 'n) players \<Rightarrow> ('p, 'n) players"

definition no_interference :: "('p, 'n) interference" where
  "no_interference =
     \<lparr>at_throttle = id, at_count = id, at_bloop = id, at_awarded = id, at_state = id,
      at_duplicates = id, at_apply = id\<rparr>"

definition disturb ::
  "(('p, 'n) players \<Rightarrow> ('p, 'n) players) \<Rightarrow> ('m, 'p, 's, 'n, 't) engine \<Rightarrow>
   ('m, 'p, 's, 'n, 't) engine" where
  "disturb f e = e\<lparr>player_registry := f (player_registry e)\<rparr>"

definition evaluate_achievements_with ::
  "('p, 'n) interference \<Rightarrow> ('p, 'n) player_ops \<Rightarrow> bloop \<Rightarrow> ('m, 'p, 's, 'n, 't) engine \<Rightarrow>
   awarded_tracker \<times> ('m, 'p, 's, 'n, 't) engine" where
  "evaluate_achievements_with intf ops b e =
     (let e = disturb (at_awarded intf) e;
          previous_awarded = awarded_achievements ops (fst (player_registry e) ! player b);
          e = disturb (at_state intf) e;
          ctx = context_new b (bloop_provider e) (state e) (trigger_registry e) (fst (player_registry e));
          ctx = fold (\<lambda>ach ctx. if previous_awarded (achievement_id ach) = None
                                then achievement_evaluate ach ctx else ctx)
                  (map snd (achievements e)) ctx
      in (take_awarded_tracker ctx, e\<lparr>trigger_registry := ctx_trigger_registry ctx\<rparr>))"

definition accept_bloop_with ::
  "('p, 'n) interference \<Rightarrow> (u8 list \<Rightarrow> data_hash) \<Rightarrow> (path \<Rightarrow> u8 list option) \<Rightarrow> ('p, 'n) player_ops \<Rightarrow>
   clock \<Rightarrow> addr \<Rightarrow> client_id \<Rightarrow> ('m, 'p, 's, 'n, 't) engine \<Rightarrow>
   server_message option \<times> ('m, 'p, 's, 'n, 't) engine" where
  "accept_bloop_with intf md5 fs ops clk a cid e =
     (let e = disturb (at_count intf) e;
          e = disturb (\<lambda>(store, registry). (store[a := increment_bloops ops (store ! a)], registry)) e;
          e = disturb (at_bloop intf) e;
          b = bloop_new ops (fst (player_registry e)) a cid (now_bloop clk);
          (tr, e) = evaluate_achievements_with intf ops b e;
          e = activate_hot_achievements b tr e;
          (tr, e) = inject_hot_achievements b tr e;
          e = disturb (at_duplicates intf) e;
          tr = remove_duplicates ops (player_registry e) tr;
          ids = (case for_player tr (player_id b) of None \<Rightarrow> [] | Some is \<Rightarrow> is);
          e = disturb (at_apply intf) e;
          e = apply_awarded ops tr e;
          e = e\<lparr>bloop_provider := provider_add (now_global clk) (now_client clk) b (bloop_provider e)\<rparr>;
          e = e\<lparr>event_tx := event_tx e @ [BloopProcessed (processed_bloop_from b)]\<rparr>;
          (records, achs) = accepted_records md5 fs (audio_base_path e) ids (achievements e)
      in (map_option BloopAccepted records, e\<lparr>achievements := achs\<rparr>))"

definition handle_bloop_with ::
  "('p, 'n) interference \<Rightarrow> (u8 list \<Rightarrow> data_hash) \<Rightarrow> (path \<Rightarrow> u8 list option) \<Rightarrow> ('p, 'n) player_ops \<Rightarrow>
   clock \<Rightarrow> 'n \<Rightarrow> client_id \<Rightarrow> ('m, 'p, 's, 'n, 't) engine \<Rightarrow>
   server_message option \<times> ('m, 'p, 's, 'n, 't) engine" where
  "handle_bloop_with intf md5 fs ops clk nfc cid e =
     (let (activated, triggers) = try_activate_trigger (now_trigger clk) nfc cid (trigger_registry e);
          e = e\<lparr>trigger_registry := triggers\<rparr>
      in if activated then (Some (BloopAccepted []), e)
         else case get_by_nfc_uid (player_registry e) nfc of
           None \<Rightarrow> (Some (ErrorMessage UnknownNfcUid), e)
         | Some a \<Rightarrow>
             (case throttle e of
                None \<Rightarrow> accept_bloop_with intf md5 fs ops clk a cid e
              | Some th \<Rightarrow>
                  (let e = disturb (at_throttle intf) e;
                       pid = player_uuid ops (fst (player_registry e) ! a)
                   in if is_throttled th (now_throttle clk)
                           (bloops (for_client (bloop_provider e) cid)) pid
                      then (Some (ErrorMessage NfcUidThrottled), e)
                      else accept_bloop_with intf md5 fs ops clk a cid e)))"

lemma disturb_fields [simp]:
  "player_registry (disturb f e) = f (player_registry e)"
  "bloop_provider (disturb f e) = bloop_provider e"
  "achievements (disturb f e) = achievements e"
  "audio_base_path (disturb f e) = audio_base_path e"
  "state (disturb f e) = state e"
  "trigger_registry (disturb f e) = trigger_registry e"
  "hot_achievements (disturb f e) = hot_achievements e"
  "event_tx (disturb f e) = event_tx e"
  "throttle (disturb f e) = throttle e"
  by (simp_all add: disturb_def)

lemma disturb_id [simp]: "disturb id e = e"
  by (simp add: disturb_def)

lemma evaluate_achievements_undisturbed:
  "evaluate_achievements_with no_interference ops b e = evaluate_achievements ops b e"
  by (simp add: evaluate_achievements_with_def evaluate_achievements_def no_interference_def Let_def)

lemma accept_bloop_undisturbed:
  "accept_bloop_with no_interference md5 fs ops clk a cid e = accept_bloop md5 fs ops clk a cid e"
  unfolding accept_bloop_with_def accept_bloop_def evaluate_achievements_undisturbed
  by (simp add: no_interference_def disturb_def Let_def split: prod.split)

lemma handle_bloop_undisturbed:
  "handle_bloop_with no_interference md5 fs ops clk nfc cid e = handle_bloop md5 fs ops clk nfc cid e"
  unfolding handle_bloop_with_def handle_bloop_def accept_bloop_undisturbed
  by (simp add: no_interference_def Let_def cong: if_cong option.case_cong)

section \<open>What the tasks do with the players\<close>

text \<open>
  A task adds a player whose IDs are free, removes a player, mutates a player through the registry or
  writes to a player's cell. It neither changes a UUID nor takes an award away, and it changes an NFC
  UID only through the registry and to a free one.
\<close>

definition keeps_player :: "('p, 'n) player_ops \<Rightarrow> 'p \<Rightarrow> 'p \<Rightarrow> bool" where
  "keeps_player ops p q \<longleftrightarrow>
     player_uuid ops q = player_uuid ops p \<and>
     dom (awarded_achievements ops p) \<subseteq> dom (awarded_achievements ops q)"

inductive shared_step ::
  "('p, 'n) player_ops \<Rightarrow> ('p, 'n) players \<Rightarrow> ('p, 'n) players \<Rightarrow> bool" for ops where
  add: "read_by_id w (player_uuid ops p) = None \<Longrightarrow> read_by_nfc_uid w (nfc_uid ops p) = None \<Longrightarrow>
    shared_step ops w (registry_add ops p w)"
| remove: "shared_step ops w (registry_remove ops i w)"
| mutate: "read_by_id w i = Some p \<Longrightarrow> keeps_player ops p (f p) \<Longrightarrow>
    nfc_uid ops (f p) = nfc_uid ops p \<or> read_by_nfc_uid w (nfc_uid ops (f p)) = None \<Longrightarrow>
    shared_step ops w (mutate_by_id ops i f w)"
| write_cell: "keeps_player ops (st ! a) p \<Longrightarrow> nfc_uid ops p = nfc_uid ops (st ! a) \<Longrightarrow>
    shared_step ops (st, reg) (st[a := p], reg)"

abbreviation shared_steps ::
  "('p, 'n) player_ops \<Rightarrow> ('p, 'n) players \<Rightarrow> ('p, 'n) players \<Rightarrow> bool" where
  "shared_steps ops \<equiv> (shared_step ops)\<^sup>*\<^sup>*"

text \<open>The other tasks only take such steps, from the well-formed registries they find.\<close>

definition fair_interference :: "('p, 'n) player_ops \<Rightarrow> ('p, 'n) interference \<Rightarrow> bool" where
  "fair_interference ops intf \<longleftrightarrow>
     (\<forall>w. registry_wf ops w \<longrightarrow>
        (\<forall>f \<in> {at_throttle intf, at_count intf, at_bloop intf, at_awarded intf, at_state intf,
               at_duplicates intf, at_apply intf}. shared_steps ops w (f w)))"

definition cells_kept :: "('p, 'n) player_ops \<Rightarrow> ('p, 'n) players \<Rightarrow> ('p, 'n) players \<Rightarrow> bool" where
  "cells_kept ops w w' \<longleftrightarrow>
     length (fst w) \<le> length (fst w') \<and>
     (\<forall>a < length (fst w). keeps_player ops (fst w ! a) (fst w' ! a))"

lemma keeps_player_refl [simp]: "keeps_player ops p p"
  by (simp add: keeps_player_def)

lemma keeps_player_trans: "keeps_player ops p q \<Longrightarrow> keeps_player ops q r \<Longrightarrow> keeps_player ops p r"
  by (auto simp: keeps_player_def)

lemma cells_kept_refl [simp]: "cells_kept ops w w"
  by (simp add: cells_kept_def)

lemma cells_kept_trans: "cells_kept ops w w' \<Longrightarrow> cells_kept ops w' w'' \<Longrightarrow> cells_kept ops w w''"
  unfolding cells_kept_def by (meson keeps_player_trans less_le_trans order_trans)

lemma nth_list_update': "b < length xs \<Longrightarrow> xs[a := x] ! b = (if a = b then x else xs ! b)"
  by (cases "a = b") simp_all

lemma registry_wf_write_cell:
  assumes "registry_wf ops (st, reg)" "player_uuid ops p = player_uuid ops (st ! a)"
    "nfc_uid ops p = nfc_uid ops (st ! a)"
  shows "registry_wf ops (st[a := p], reg)"
proof -
  have "player_uuid ops (st[a := p] ! b) = player_uuid ops (st ! b)"
    "nfc_uid ops (st[a := p] ! b) = nfc_uid ops (st ! b)" if "b < length st" for b
    using that assms(2,3) by (cases "a = b"; simp)+
  with assms(1) show ?thesis
    by (auto simp: registry_wf_def valid_addr_def)
qed

lemma shared_step_wf:
  assumes "shared_step ops w w'" "registry_wf ops w"
  shows "registry_wf ops w'"
  using assms(1)
proof (cases rule: shared_step.cases)
  case (add p)
  then show ?thesis using assms(2) by (auto intro: registry.add_invar)
next
  case (remove i)
  then show ?thesis using assms(2) by (simp add: registry.remove_invar)
next
  case (mutate i p f)
  then show ?thesis
    using assms(2) registry.dir_id [OF assms(2) mutate(2)]
    by (auto simp: keeps_player_def intro!: registry.mutate_invar)
next
  case (write_cell st a p reg)
  then show ?thesis using assms(2) by (auto simp: keeps_player_def intro: registry_wf_write_cell)
qed

lemma shared_step_cells:
  assumes "shared_step ops w w'"
  shows "cells_kept ops w w'"
  using assms
proof (cases rule: shared_step.cases)
  case (add p)
  then show ?thesis by (simp add: cells_kept_def registry_add_simps nth_append)
next
  case (remove i)
  have "fst (registry_remove ops i w) = fst w"
    by (cases w) (simp add: registry_remove_def split: option.split)
  with remove show ?thesis by (simp add: cells_kept_def)
next
  case (mutate i p f)
  then obtain a where a: "by_id (snd w) i = Some a" "p = fst w ! a" by (auto simp: read_by_id_def)
  with mutate show ?thesis by (auto simp: cells_kept_def mutate_by_id_Some nth_list_update')
next
  case (write_cell st a p reg)
  then show ?thesis by (auto simp: cells_kept_def nth_list_update')
qed

lemma shared_steps_wf: "shared_steps ops w w' \<Longrightarrow> registry_wf ops w \<Longrightarrow> registry_wf ops w'"
  by (induction rule: rtranclp_induct) (auto intro: shared_step_wf)

lemma shared_steps_cells: "shared_steps ops w w' \<Longrightarrow> cells_kept ops w w'"
  by (induction rule: rtranclp_induct) (auto intro: cells_kept_trans shared_step_cells)

lemma fair_interferenceD:
  assumes "fair_interference ops intf" "registry_wf ops w"
  shows "shared_steps ops w (at_throttle intf w)" "shared_steps ops w (at_count intf w)"
    "shared_steps ops w (at_bloop intf w)" "shared_steps ops w (at_awarded intf w)"
    "shared_steps ops w (at_state intf w)" "shared_steps ops w (at_duplicates intf w)"
    "shared_steps ops w (at_apply intf w)"
  using assms unfolding fair_interference_def by blast+

section \<open>What the engine does with the players\<close>

lemma count_shared:
  assumes "player_traits ops"
  shows "shared_steps ops w ((\<lambda>(store, registry). (store[a := increment_bloops ops (store ! a)], registry)) w)"
proof -
  have "shared_step ops (st, reg) (st[a := increment_bloops ops (st ! a)], reg)" for st and reg :: "'b player_registry"
    by (rule shared_step.write_cell)
      (simp_all add: keeps_player_def player_traits.trait_simps [OF assms])
  then show ?thesis by (cases w) auto
qed

lemma award_shared:
  assumes "player_traits ops"
  shows "shared_steps ops w
    (mutate_by_id ops i (fold (\<lambda>k. add_awarded_achievement ops k t) ids) w)"
proof (cases "read_by_id w i")
  case None
  then show ?thesis by (simp add: mutate_by_id_None read_by_id_def)
next
  case (Some p)
  have "shared_step ops w (mutate_by_id ops i (fold (\<lambda>k. add_awarded_achievement ops k t) ids) w)"
    by (rule shared_step.mutate [OF Some])
      (auto simp: keeps_player_def player_traits.fold_award_keeps [OF assms]
        player_traits.fold_award_awarded [OF assms])
  then show ?thesis by (rule r_into_rtranclp)
qed

lemma apply_awarded_shared:
  assumes "player_traits ops"
  shows "shared_steps ops (player_registry e) (player_registry (apply_awarded ops tr e))"
proof -
  have "shared_steps ops w (fold (\<lambda>aw. mutate_by_id ops (award_player_id aw)
      (fold (\<lambda>i. add_awarded_achievement ops i t) (achievement_ids aw))) aws w)" for aws w t
  proof (induction aws arbitrary: w)
    case (Cons aw aws)
    show ?case
      using rtranclp_trans [OF award_shared [OF assms] Cons.IH] by simp
  qed simp
  then show ?thesis by (simp add: apply_awarded_def Let_def)
qed

section \<open>The parts of a disturbed bloop\<close>

text \<open>The players when the bloop is made, when the evaluators run, and the tracker after the
  evaluation and the hot achievements.\<close>

definition players_at_bloop ::
  "('p, 'n) interference \<Rightarrow> ('p, 'n) player_ops \<Rightarrow> addr \<Rightarrow> ('p, 'n) players \<Rightarrow> ('p, 'n) players" where
  "players_at_bloop intf ops a w = at_bloop intf (count_bloop ops a (at_count intf w))"

definition players_at_evaluation ::
  "('p, 'n) interference \<Rightarrow> ('p, 'n) player_ops \<Rightarrow> addr \<Rightarrow> ('p, 'n) players \<Rightarrow> ('p, 'n) players" where
  "players_at_evaluation intf ops a w = at_state intf (at_awarded intf (players_at_bloop intf ops a w))"

definition disturbed_bloop ::
  "('p, 'n) interference \<Rightarrow> ('p, 'n) player_ops \<Rightarrow> clock \<Rightarrow> addr \<Rightarrow> client_id \<Rightarrow>
   ('m, 'p, 's, 'n, 't) engine \<Rightarrow> bloop" where
  "disturbed_bloop intf ops clk a cid e =
     bloop_new ops (fst (players_at_bloop intf ops a (player_registry e))) a cid (now_bloop clk)"

definition disturbed_tracker ::
  "('p, 'n) interference \<Rightarrow> ('p, 'n) player_ops \<Rightarrow> clock \<Rightarrow> addr \<Rightarrow> client_id \<Rightarrow>
   ('m, 'p, 's, 'n, 't) engine \<Rightarrow> awarded_tracker" where
  "disturbed_tracker intf ops clk a cid e =
     (let b = disturbed_bloop intf ops clk a cid e;
          (tr, e) = evaluate_achievements_with intf ops b (disturb (players_at_bloop intf ops a) e)
      in fst (inject_hot_achievements b tr (activate_hot_achievements b tr e)))"

definition disturbed_awards ::
  "('p, 'n) interference \<Rightarrow> ('p, 'n) player_ops \<Rightarrow> clock \<Rightarrow> addr \<Rightarrow> client_id \<Rightarrow>
   ('m, 'p, 's, 'n, 't) engine \<Rightarrow> awarded_tracker" where
  "disturbed_awards intf ops clk a cid e =
     remove_duplicates ops (at_duplicates intf (players_at_evaluation intf ops a (player_registry e)))
       (disturbed_tracker intf ops clk a cid e)"

lemma evaluate_achievements_with_fields:
  "player_registry (snd (evaluate_achievements_with intf ops b e)) =
     at_state intf (at_awarded intf (player_registry e))"
  "achievements (snd (evaluate_achievements_with intf ops b e)) = achievements e"
  "audio_base_path (snd (evaluate_achievements_with intf ops b e)) = audio_base_path e"
  "event_tx (snd (evaluate_achievements_with intf ops b e)) = event_tx e"
  by (simp_all add: evaluate_achievements_with_def Let_def)

lemma accept_bloop_with_parts:
  fixes e :: "('m, 'p, 's, 'n, 't) engine" and ops :: "('p, 'n) player_ops" and intf clk a cid
  defines "b \<equiv> disturbed_bloop intf ops clk a cid e" and "tr \<equiv> disturbed_awards intf ops clk a cid e"
  shows "fst (accept_bloop_with intf md5 fs ops clk a cid e) =
      map_option BloopAccepted (fst (accepted_records md5 fs (audio_base_path e)
        (tracked tr (player_id b)) (achievements e)))" (is ?response)
    and "player_registry (snd (accept_bloop_with intf md5 fs ops clk a cid e)) =
      player_registry (apply_awarded ops tr (disturb (\<lambda>w. at_apply intf (at_duplicates intf
        (players_at_evaluation intf ops a w))) e))" (is ?players)
    and "event_tx (snd (accept_bloop_with intf md5 fs ops clk a cid e)) =
      event_tx e @ [AchievementsAwarded (award_batch_from tr), BloopProcessed (processed_bloop_from b)]"
      (is ?events)
proof -
  have count: "(\<lambda>(store, registry). (store[a := increment_bloops ops (store ! a)], registry)) w =
      count_bloop ops a w" for w :: "('p, 'n) players"
    by (simp add: count_bloop_def split: prod.split)
  have twice: "disturb f (disturb g e') = disturb (\<lambda>w. f (g w)) e'" for f g and e' :: "('m, 'p, 's, 'n, 't) engine"
    by (simp add: disturb_def)
  let ?d = "disturb (players_at_bloop intf ops a) e"
  obtain tr0 e0 where ev: "evaluate_achievements_with intf ops b ?d = (tr0, e0)" by fastforce
  have e0: "player_registry e0 = players_at_evaluation intf ops a (player_registry e)"
    "achievements e0 = achievements e" "audio_base_path e0 = audio_base_path e" "event_tx e0 = event_tx e"
    using evaluate_achievements_with_fields [of intf ops b ?d]
    by (simp_all add: ev players_at_evaluation_def)
  have d: "disturb (at_bloop intf) (disturb (count_bloop ops a) (disturb (at_count intf) e)) = ?d"
    by (simp add: twice players_at_bloop_def [abs_def])
  have b: "bloop_new ops (fst (player_registry ?d)) a cid (now_bloop clk) = b"
    by (simp add: b_def disturbed_bloop_def)
  have tr: "tr = remove_duplicates ops (at_duplicates intf (player_registry e0))
      (fst (inject_hot_achievements b tr0 (activate_hot_achievements b tr0 e0)))"
    by (simp add: tr_def disturbed_awards_def disturbed_tracker_def b_def [symmetric] ev e0)
  note eqs = accept_bloop_with_def count d b ev inject_hot_achievements_eq activate_hot_achievements_eq
  show ?response ?players ?events
    unfolding eqs Let_def
    by (simp_all add: tr e0 inject_hot_achievements_eq activate_hot_achievements_eq tracked_def
        apply_awarded_def Let_def d b ev split: prod.split)
qed

lemma disturbed_tracker_wf:
  assumes "engine_wf ops e"
  shows "tracker_wf (disturbed_tracker intf ops clk a cid e)"
    and "awarded_at (disturbed_tracker intf ops clk a cid e) = now_bloop clk"
proof -
  let ?b = "disturbed_bloop intf ops clk a cid e" and ?d = "disturb (players_at_bloop intf ops a) e"
  obtain tr e' where ev: "evaluate_achievements_with intf ops ?b ?d = (tr, e')" by fastforce
  have api: "evaluator_api (evaluator ach)" if "ach \<in> set (map snd (achievements e))" for ach
    using engine_wfD(3) [OF assms that] .
  let ?ctx = "context_new ?b (bloop_provider e) (state e) (trigger_registry e)
    (fst (players_at_evaluation intf ops a (player_registry e)))"
  let ?P = "\<lambda>ach. awarded_achievements ops (fst (at_awarded intf (players_at_bloop intf ops a (player_registry e))) ! a)
    (achievement_id ach) = None"
  note ext = fold_evaluate_extends [where P = ?P and achs = "map snd (achievements e)" and ctx = ?ctx, OF api]
  have "tr = ctx_awarded_tracker (fold (\<lambda>ach ctx. if ?P ach then achievement_evaluate ach ctx else ctx)
      (map snd (achievements e)) ?ctx)"
    using ev by (auto simp: evaluate_achievements_with_def Let_def take_awarded_tracker_def
        players_at_evaluation_def disturbed_bloop_def bloop_new_def)
  then have tr: "tracker_wf tr" "awarded_at tr = now_bloop clk"
    using ctx_extendsD(5,6) [OF ext] by (simp_all add: disturbed_bloop_def bloop_new_def)
  show "tracker_wf (disturbed_tracker intf ops clk a cid e)"
    using tr(1) by (simp add: disturbed_tracker_def ev Let_def tracker_wf_inject)
  show "awarded_at (disturbed_tracker intf ops clk a cid e) = now_bloop clk"
    using tr(2) by (simp add: disturbed_tracker_def ev Let_def inject_hot_achievements_eq)
qed

lemma disturbed_awards_wf:
  assumes "engine_wf ops e"
  shows "tracker_wf (disturbed_awards intf ops clk a cid e)"
    and "awarded_at (disturbed_awards intf ops clk a cid e) = now_bloop clk"
  using disturbed_tracker_wf [OF assms]
  by (simp_all add: disturbed_awards_def tracker_wf_remove_duplicates)

lemma players_at_bloop_shared:
  assumes "player_traits ops" "fair_interference ops intf" "registry_wf ops w"
  shows "shared_steps ops w (players_at_bloop intf ops a w)"
    and "shared_steps ops w (players_at_evaluation intf ops a w)"
proof -
  note step = fair_interferenceD [OF assms(2)]
  have count: "shared_steps ops v (count_bloop ops a v)" for v
    using count_shared [OF assms(1), of v a] by (simp add: count_bloop_def split: prod.splits)
  show bloop: "shared_steps ops w (players_at_bloop intf ops a w)"
    unfolding players_at_bloop_def
    by (meson assms(3) count shared_steps_wf step(2,3) rtranclp_trans)
  show "shared_steps ops w (players_at_evaluation intf ops a w)"
    unfolding players_at_evaluation_def
    by (meson assms(3) bloop shared_steps_wf step(4,5) rtranclp_trans)
qed

lemma players_before_apply_shared:
  assumes "player_traits ops" "fair_interference ops intf" "registry_wf ops w"
  shows "shared_steps ops w (at_apply intf (at_duplicates intf (players_at_evaluation intf ops a w)))"
  by (meson assms players_at_bloop_shared(2) fair_interferenceD(6,7) shared_steps_wf rtranclp_trans)

lemma accept_bloop_with_shared:
  assumes "player_traits ops" "fair_interference ops intf" "engine_wf ops e"
  shows "shared_steps ops (player_registry e)
    (player_registry (snd (accept_bloop_with intf md5 fs ops clk a cid e)))"
  unfolding accept_bloop_with_parts(2)
  using players_before_apply_shared [OF assms(1,2) engine_wfD(1) [OF assms(3)]]
    apply_awarded_shared [OF assms(1)]
  by (metis (no_types, lifting) disturb_fields(1) rtranclp_trans)

lemma players_after_awards:
  assumes "player_traits ops" "fair_interference ops intf" "engine_wf ops e"
  shows "read_by_id (player_registry (snd (accept_bloop_with intf md5 fs ops clk a cid e))) i =
    map_option (fold (\<lambda>k. add_awarded_achievement ops k (now_bloop clk))
        (tracked (disturbed_awards intf ops clk a cid e) i))
      (read_by_id (at_apply intf (at_duplicates intf (players_at_evaluation intf ops a (player_registry e)))) i)"
proof -
  let ?e = "disturb (\<lambda>w. at_apply intf (at_duplicates intf (players_at_evaluation intf ops a w))) e"
  have "registry_wf ops (player_registry ?e)"
    using shared_steps_wf [OF players_before_apply_shared [OF assms(1,2)]] engine_wfD(1) [OF assms(3)]
    by simp
  from apply_awarded_registry [OF assms(1) this disturbed_awards_wf(1) [OF assms(3)]]
  show ?thesis
    by (simp add: accept_bloop_with_parts(2) disturbed_awards_wf(2) [OF assms(3)])
qed

lemma accepted_ids:
  assumes "fst (accept_bloop_with intf md5 fs ops clk a cid e) = Some (BloopAccepted records)"
  shows "record_id ` set records = awards (disturbed_awards intf ops clk a cid e)
    (player_id (disturbed_bloop intf ops clk a cid e))"
  using assms
  by (auto simp: accept_bloop_with_parts(1) accepted_records_result image_image split: if_splits)

lemma disturbed_player_id:
  assumes "player_traits ops" "fair_interference ops intf" "registry_wf ops (player_registry e)"
    "valid_addr (fst (player_registry e)) a"
  shows "player_id (disturbed_bloop intf ops clk a cid e) = player_uuid ops (fst (player_registry e) ! a)"
  using shared_steps_cells [OF players_at_bloop_shared(1) [OF assms(1-3), of a]] assms(4)
  by (simp add: disturbed_bloop_def bloop_new_def cells_kept_def keeps_player_def valid_addr_def)

lemma accepted_awards_stored:
  assumes "player_traits ops" "fair_interference ops intf" "engine_wf ops e"
    and "valid_addr (fst (player_registry e)) a"
    and "fst (accept_bloop_with intf md5 fs ops clk a cid e) = Some (BloopAccepted records)"
    and "rec \<in> set records"
    and "read_by_id (player_registry (snd (accept_bloop_with intf md5 fs ops clk a cid e)))
           (player_uuid ops (fst (player_registry e) ! a)) = Some q"
  shows "awarded_achievements ops q (record_id rec) = Some (now_bloop clk)"
proof -
  let ?pid = "player_uuid ops (fst (player_registry e) ! a)"
  have "record_id rec \<in> set (tracked (disturbed_awards intf ops clk a cid e) ?pid)"
    using accepted_ids [OF assms(5)] assms(6)
      disturbed_player_id [OF assms(1,2) engine_wfD(1) [OF assms(3)] assms(4)] by auto
  with assms(7) show ?thesis
    by (auto simp: players_after_awards [OF assms(1-3)] player_traits.fold_award_awarded [OF assms(1)])
qed

lemma engine_wf_disturb:
  assumes "fair_interference ops intf" "engine_wf ops e"
  shows "engine_wf ops (disturb (at_throttle intf) e)"
  using assms(2) shared_steps_wf [OF fair_interferenceD(1) [OF assms(1) engine_wfD(1) [OF assms(2)]]]
  by (simp add: engine_wf_def)

text \<open>The handler with interference answers an error, activates a trigger, or accepts the bloop from
  the players the other tasks have left it.\<close>

lemma handle_bloop_with_cases:
  obtains (rejected) r reg f where
      "handle_bloop_with intf md5 fs ops clk nfc cid e = (Some r, disturb f (e\<lparr>trigger_registry := reg\<rparr>))"
      "f \<in> {id, at_throttle intf}" "\<And>rec records. r = BloopAccepted records \<Longrightarrow> rec \<notin> set records"
    | (accepted) a f where
      "handle_bloop_with intf md5 fs ops clk nfc cid e = accept_bloop_with intf md5 fs ops clk a cid (disturb f e)"
      "get_by_nfc_uid (player_registry e) nfc = Some a" "f \<in> {id, at_throttle intf}"
proof (cases "trigger_specs (trigger_registry e) nfc")
  case (Some sp)
  then have "handle_bloop_with intf md5 fs ops clk nfc cid e = (Some (BloopAccepted []),
      disturb id (e\<lparr>trigger_registry := snd (try_activate_trigger (now_trigger clk) nfc cid (trigger_registry e))\<rparr>))"
    by (simp add: handle_bloop_with_def try_activate_trigger_def Let_def)
  then show ?thesis by (rule rejected) auto
next
  case None
  then have act: "try_activate_trigger (now_trigger clk) nfc cid (trigger_registry e) = (False, trigger_registry e)"
    by (simp add: try_activate_trigger_def)
  have e: "e\<lparr>trigger_registry := trigger_registry e\<rparr> = e" by simp
  note def = handle_bloop_with_def act prod.case Let_def e if_False
  show ?thesis
  proof (cases "get_by_nfc_uid (player_registry e) nfc")
    case None
    then show ?thesis by (intro rejected [of "ErrorMessage UnknownNfcUid" id "trigger_registry e"]) (simp_all add: def)
  next
    case (Some a)
    show ?thesis
    proof (cases "throttle e")
      case None
      with Some show ?thesis by (intro accepted [of a id]) (simp_all add: def)
    next
      case th: (Some th)
      show ?thesis
      proof (cases "is_throttled th (now_throttle clk) (bloops (for_client (bloop_provider e) cid))
          (player_uuid ops (fst (at_throttle intf (player_registry e)) ! a))")
        case True
        with Some th show ?thesis
          by (intro rejected [of "ErrorMessage NfcUidThrottled" "at_throttle intf" "trigger_registry e"]) (simp_all add: def)
      next
        case False
        with Some th show ?thesis by (intro accepted [of a "at_throttle intf"]) (simp_all add: def)
      qed
    qed
  qed
qed

section \<open>Another task that awards\<close>

text \<open>Another task stores an award for a player: while the engine waits for the registry to remove
  duplicates, or while it waits for it again to apply the awards.\<close>

definition early_award ::
  "('p, 'n) player_ops \<Rightarrow> uuid \<Rightarrow> uuid \<Rightarrow> datetime \<Rightarrow> ('p, 'n) interference" where
  "early_award ops pid ach t =
     no_interference\<lparr>at_duplicates := mutate_by_id ops pid (add_awarded_achievement ops ach t)\<rparr>"

definition racing_award ::
  "('p, 'n) player_ops \<Rightarrow> uuid \<Rightarrow> uuid \<Rightarrow> datetime \<Rightarrow> ('p, 'n) interference" where
  "racing_award ops pid ach t =
     no_interference\<lparr>at_apply := mutate_by_id ops pid (add_awarded_achievement ops ach t)\<rparr>"

definition announced :: "achievement_award_batch \<Rightarrow> uuid \<Rightarrow> uuid set" where
  "announced batch pid =
     (\<Union>aw \<in> {aw \<in> set (batch_players batch). award_player_id aw = pid}. set (achievement_ids aw))"

lemma announced_batch:
  assumes "tracker_wf tr"
  shows "announced (award_batch_from tr) pid = awards tr pid"
proof -
  have "map_wf (awarded tr)" using assms by (simp add: tracker_wf_def)
  then have "{ids. (pid, ids) \<in> set (awarded tr)} = {ids. for_player tr pid = Some ids}"
    by (simp add: for_player_def)
  moreover have "{aw \<in> set (batch_players (award_batch_from tr)). award_player_id aw = pid} =
      (\<lambda>ids. \<lparr>award_player_id = pid, achievement_ids = ids\<rparr>) ` {ids. (pid, ids) \<in> set (awarded tr)}"
    by (rule set_eqI) (auto simp: award_batch_from_def image_iff split: prod.splits)
  ultimately have "announced (award_batch_from tr) pid = \<Union> (set ` {ids. for_player tr pid = Some ids})"
    by (simp add: announced_def)
  then show ?thesis by (cases "for_player tr pid") (simp_all add: awards_def)
qed

lemma no_interference_fair: "fair_interference ops no_interference"
  by (simp add: fair_interference_def no_interference_def)

lemma racing_award_fair:
  assumes "player_traits ops"
  shows "fair_interference ops (racing_award ops pid ach t)"
  using award_shared [OF assms, of _ pid t "[ach]"]
  by (simp add: fair_interference_def racing_award_def no_interference_def)

lemma early_award_fair:
  assumes "player_traits ops"
  shows "fair_interference ops (early_award ops pid ach t)"
  using award_shared [OF assms, of _ pid t "[ach]"]
  by (simp add: fair_interference_def early_award_def no_interference_def)

lemma race_parts:
  "at_duplicates (early_award ops pid ach t) = mutate_by_id ops pid (add_awarded_achievement ops ach t)"
  "at_apply (early_award ops pid ach t) = id"
  "at_duplicates (racing_award ops pid ach t) = id"
  "at_apply (racing_award ops pid ach t) = mutate_by_id ops pid (add_awarded_achievement ops ach t)"
  "players_at_evaluation (early_award ops pid ach t) = players_at_evaluation no_interference"
  "players_at_evaluation (racing_award ops pid ach t) = players_at_evaluation no_interference"
  "disturbed_tracker (early_award ops pid ach t) = disturbed_tracker no_interference"
  "disturbed_tracker (racing_award ops pid ach t) = disturbed_tracker no_interference"
  by (simp_all add: fun_eq_iff early_award_def racing_award_def no_interference_def players_at_evaluation_def
      players_at_bloop_def disturbed_tracker_def disturbed_bloop_def evaluate_achievements_with_def disturb_def)

lemma evaluation_players_awards:
  assumes "player_traits ops" "registry_wf ops w" "read_by_id w pid = Some p"
  shows "\<exists>p'. read_by_id (players_at_evaluation no_interference ops a w) pid = Some p' \<and>
    awarded_achievements ops p' = awarded_achievements ops p"
proof -
  obtain b where b: "by_id (snd w) pid = Some b" "p = fst w ! b" using assms(3) by (auto simp: read_by_id_def)
  then have "b < length (fst w)" using registry_wf_idD(1) [OF assms(2)] by (auto simp: valid_addr_def)
  with b show ?thesis
    by (simp add: players_at_evaluation_def players_at_bloop_def no_interference_def count_bloop_def
        read_by_id_def nth_list_update' player_traits.trait_simps [OF assms(1)])
qed

section \<open>Properties\<close>

text \<open>C6: A bloop is handled correctly while other tasks use the players as \<open>shared_step\<close> allows: they add players
  whose UUID and NFC UID are free, remove players, and change players without taking awards away or changing
  a UUID, and an NFC UID only through the registry and to a free one (without these conditions the two
  indexes of the registry can disagree). Then so does the engine: from the
  players it finds to those it leaves there are only such steps, the two indexes of the registry agree at the
  end, and no player cell loses an award or changes its UUID. Every achievement of the answer is stored for
  the scanning player, with the time of the bloop, if the player is still registered.\<close>

theorem bloop_under_interference:
  assumes "player_traits ops" "fair_interference ops intf" "engine_wf ops e"
  shows "(let (r, e') = handle_bloop_with intf md5 fs ops clk nfc cid e
          in shared_steps ops (player_registry e) (player_registry e') \<and>
             registry_wf ops (player_registry e') \<and>
             cells_kept ops (player_registry e) (player_registry e') \<and>
             (\<forall>p records rec q.
                read_by_nfc_uid (player_registry e) nfc = Some p \<and> r = Some (BloopAccepted records) \<and>
                rec \<in> set records \<and> read_by_id (player_registry e') (player_uuid ops p) = Some q \<longrightarrow>
                awarded_achievements ops q (record_id rec) = Some (now_bloop clk)))"
proof -
  note wf = engine_wfD(1) [OF assms(3)]
  obtain r e' where re: "handle_bloop_with intf md5 fs ops clk nfc cid e = (r, e')" by fastforce
  have steps: "shared_steps ops (player_registry e) (player_registry e') \<and>
      (\<forall>p records rec q.
         read_by_nfc_uid (player_registry e) nfc = Some p \<and> r = Some (BloopAccepted records) \<and>
         rec \<in> set records \<and> read_by_id (player_registry e') (player_uuid ops p) = Some q \<longrightarrow>
         awarded_achievements ops q (record_id rec) = Some (now_bloop clk))"
  proof (cases rule: handle_bloop_with_cases [of intf md5 fs ops clk nfc cid e])
    case (rejected r' reg f)
    with re fair_interferenceD(1) [OF assms(2) wf] show ?thesis by auto
  next
    case (accepted a f)
    let ?e = "disturb f e"
    have f: "shared_steps ops (player_registry e) (player_registry ?e)" "engine_wf ops ?e"
      using accepted(3) fair_interferenceD(1) [OF assms(2) wf] engine_wf_disturb [OF assms(2,3)] assms(3)
      by auto
    have a: "by_nfc_uid (snd (player_registry e)) nfc = Some a"
      using accepted(2) by (simp add: get_by_nfc_uid_def)
    note kept = shared_steps_cells [OF f(1)] registry_wf_nfcD(1) [OF wf a]
    then have addr: "valid_addr (fst (player_registry ?e)) a"
      "player_uuid ops (fst (player_registry ?e) ! a) = player_uuid ops (fst (player_registry e) ! a)"
      by (auto simp: cells_kept_def keeps_player_def valid_addr_def)
    have acc: "accept_bloop_with intf md5 fs ops clk a cid ?e = (r, e')" using accepted(1) re by simp
    have "shared_steps ops (player_registry e) (player_registry e')"
      using rtranclp_trans [OF f(1) accept_bloop_with_shared [OF assms(1,2) f(2)]] acc by (metis snd_conv)
    moreover have "awarded_achievements ops q (record_id rec) = Some (now_bloop clk)"
      if "read_by_nfc_uid (player_registry e) nfc = Some p" "r = Some (BloopAccepted records)"
        "rec \<in> set records" "read_by_id (player_registry e') (player_uuid ops p) = Some q" for p records rec q
      using accepted_awards_stored [OF assms(1,2) f(2) addr(1), where ?md5.0 = md5 and fs = fs
          and clk = clk and cid = cid and records = records and rec = rec and q = q] that acc addr(2) a
      by (simp add: read_by_nfc_uid_def)
    ultimately show ?thesis by blast
  qed
  then have reached: "shared_steps ops (player_registry e) (player_registry e')" by blast
  with steps shared_steps_wf [OF reached wf] shared_steps_cells [OF reached]
  show ?thesis by (simp add: re)
qed

theorem bloop_under_interference_witness:
  "(let e' = snd (handle_bloop_with (racing_award mock_player_ops 1 7 3) demo_md5 demo_fs mock_player_ops
                (demo_clock 50) 10 ''c'' (demo_engine [demo_award_self]))
    in registry_wf mock_player_ops (player_registry e') \<and>
       cells_kept mock_player_ops (player_registry (demo_engine [demo_award_self])) (player_registry e'))"
  using bloop_under_interference [OF mock.player_traits_axioms
      racing_award_fair [OF mock.player_traits_axioms] demo_engine_wf, where ?md5.0 = demo_md5 and fs = demo_fs
      and clk = "demo_clock 50" and nfc = 10 and cid = "''c''"]
  by (simp add: Let_def case_prod_beta)

text \<open>C14: The engine's check for duplicates and its award are two critical sections. An award that another task
  stores for the player before the check is kept with its time and not announced. The same award
  stored between the two is overwritten: the player ends with the time of the bloop in place of the
  time of the award, and the achievement is announced as newly awarded.\<close>

theorem award_race_overwrites_time:
  assumes "player_traits ops" "engine_wf ops e"
    and "read_by_id (player_registry e) pid = Some p" "awarded_achievements ops p ach = None"
    and "ach \<in> awards (disturbed_tracker no_interference ops clk a cid e) pid"
  shows "(let early = snd (accept_bloop_with (early_award ops pid ach t) md5 fs ops clk a cid e);
              late = snd (accept_bloop_with (racing_award ops pid ach t) md5 fs ops clk a cid e)
          in (\<exists>q batch. read_by_id (player_registry early) pid = Some q \<and>
                awarded_achievements ops q ach = Some t \<and>
                event_tx early ! length (event_tx e) = AchievementsAwarded batch \<and>
                ach \<notin> announced batch pid) \<and>
             (\<exists>q batch. read_by_id (player_registry late) pid = Some q \<and>
                awarded_achievements ops q ach = Some (now_bloop clk) \<and>
                event_tx late ! length (event_tx e) = AchievementsAwarded batch \<and>
                ach \<in> announced batch pid))"
proof -
  let ?w = "players_at_evaluation no_interference ops a (player_registry e)"
  let ?award = "mutate_by_id ops pid (add_awarded_achievement ops ach t)"
  note wf = engine_wfD(1) [OF assms(2)]
  have w: "registry_wf ops ?w"
    using shared_steps_wf [OF players_at_bloop_shared(2) [OF assms(1) no_interference_fair wf] wf] .
  obtain p' where p': "read_by_id ?w pid = Some p'" "awarded_achievements ops p' ach = None"
    using evaluation_players_awards [OF assms(1) wf assms(3)] assms(4) by force
  note read = registry.mutate_dir [OF w p'(1), of "add_awarded_achievement ops ach t"]
  let ?E = "disturbed_awards (early_award ops pid ach t) ops clk a cid e"
  let ?L = "disturbed_awards (racing_award ops pid ach t) ops clk a cid e"
  note tr_wf = disturbed_tracker_wf(1) [OF assms(2), of no_interference clk a cid]
  have E: "?E = remove_duplicates ops (?award ?w) (disturbed_tracker no_interference ops clk a cid e)"
    and L: "?L = remove_duplicates ops ?w (disturbed_tracker no_interference ops clk a cid e)"
    by (simp_all add: disturbed_awards_def race_parts)
  have notE: "ach \<notin> awards ?E pid"
    unfolding E awards_remove_duplicates [OF tr_wf]
    by (simp add: read player_traits.trait_simps [OF assms(1)])
  have inL: "ach \<in> awards ?L pid"
    unfolding L awards_remove_duplicates [OF tr_wf] using p' assms(5) by simp
  note after = players_after_awards [OF assms(1) _ assms(2), where i = pid and clk = clk and a = a and cid = cid]
  show ?thesis
    unfolding Let_def accept_bloop_with_parts(3)
    using notE inL
    by (simp add: after [OF early_award_fair [OF assms(1)]] after [OF racing_award_fair [OF assms(1)]] race_parts
        read player_traits.fold_award_awarded [OF assms(1)] player_traits.trait_simps [OF assms(1)]
        nth_append announced_batch [OF disturbed_awards_wf(1) [OF assms(2)]])
qed

theorem award_race_overwrites_time_witness:
  "\<exists>q. read_by_id (player_registry (snd (accept_bloop_with (racing_award mock_player_ops 1 7 3) demo_md5 demo_fs
      mock_player_ops (demo_clock 50) 0 ''c'' (demo_engine [demo_award_self])))) 1 = Some q \<and>
      mock_awarded q 7 = Some 50"
proof -
  let ?e = "demo_engine [demo_award_self]"
  have p: "read_by_id (player_registry ?e) 1 = Some (demo_player 1 10)"
    by (simp add: demo_engine_def demo_players_eval read_by_id_def)
  have none: "awarded_achievements mock_player_ops (demo_player 1 10) 7 = None"
    by (simp add: mock_selectors)
  have "7 \<in> awards (disturbed_tracker no_interference mock_player_ops (demo_clock 50) 0 ''c'' ?e) 1"
    by (simp add: disturbed_tracker_def disturbed_bloop_def players_at_bloop_def no_interference_def
        evaluate_achievements_with_def demo_engine_def demo_award_self_def demo_achievement_def awards_inject
        achievement_evaluate_def dummy_evaluator_def award_achievement_def demo_players_eval count_bloop_def
        mock_player_ops_def demo_player_def bloop_new_def context_new_def take_awarded_tracker_def disturb_def Let_def)
  from award_race_overwrites_time [OF mock.player_traits_axioms demo_engine_wf p none this, of 3 demo_md5 demo_fs]
  show ?thesis
    by (auto simp: Let_def mock_selectors demo_clock_def)
qed

end
