(* ===== verification/Engine_Run.thy ===== *)
theory Engine_Run
  imports Engine_Correct
begin

text \<open>
  Sequences of requests. \<open>evolves\<close> is what any number of requests does to the engine: players only
  gain awards, their totals grow by the bloops reported in the event log, the log only grows, the
  achievements keep their IDs. The second half is about audio: once the builder has resolved every
  audio source, no request changes the achievements, so the manifest hash stays the hash of what
  the preload response lists.
\<close>

section \<open>Evolution\<close>

definition processed_by :: "uuid \<Rightarrow> event \<Rightarrow> bool" where
  "processed_by i ev = (case ev of BloopProcessed pb \<Rightarrow> pb_player_id pb = i | _ \<Rightarrow> False)"

definition evolves ::
  "('p, 'n) player_ops \<Rightarrow> ('m, 'p, 's, 'n, 't) engine \<Rightarrow> ('m, 'p, 's, 'n, 't) engine \<Rightarrow> bool" where
  "evolves ops e e' \<longleftrightarrow>
     snd (player_registry e') = snd (player_registry e) \<and>
     map fst (achievements e') = map fst (achievements e) \<and>
     audio_manifest_hash e' = audio_manifest_hash e \<and> audio_base_path e' = audio_base_path e \<and>
     (\<exists>evs. event_tx e' = event_tx e @ evs \<and>
        (\<forall>i p. read_by_id (player_registry e) i = Some p \<longrightarrow>
           (\<exists>q. read_by_id (player_registry e') i = Some q \<and>
              player_uuid ops q = player_uuid ops p \<and> nfc_uid ops q = nfc_uid ops p \<and>
              awarded_achievements ops p \<subseteq>\<^sub>m awarded_achievements ops q \<and>
              total_bloops ops q = total_bloops ops p + of_nat (length (filter (processed_by i) evs)))))"

lemma evolves_refl [simp]: "evolves ops e e"
  by (auto simp: evolves_def)

lemma evolves_trans:
  assumes "evolves ops e1 e2" "evolves ops e2 e3"
  shows "evolves ops e1 e3"
proof -
  from assms(1) obtain evs1 where 1: "event_tx e2 = event_tx e1 @ evs1"
    "\<And>i p. read_by_id (player_registry e1) i = Some p \<Longrightarrow>
       \<exists>q. read_by_id (player_registry e2) i = Some q \<and>
         player_uuid ops q = player_uuid ops p \<and> nfc_uid ops q = nfc_uid ops p \<and>
         awarded_achievements ops p \<subseteq>\<^sub>m awarded_achievements ops q \<and>
         total_bloops ops q = total_bloops ops p + of_nat (length (filter (processed_by i) evs1))"
    unfolding evolves_def by blast
  from assms(2) obtain evs2 where 2: "event_tx e3 = event_tx e2 @ evs2"
    "\<And>i p. read_by_id (player_registry e2) i = Some p \<Longrightarrow>
       \<exists>q. read_by_id (player_registry e3) i = Some q \<and>
         player_uuid ops q = player_uuid ops p \<and> nfc_uid ops q = nfc_uid ops p \<and>
         awarded_achievements ops p \<subseteq>\<^sub>m awarded_achievements ops q \<and>
         total_bloops ops q = total_bloops ops p + of_nat (length (filter (processed_by i) evs2))"
    unfolding evolves_def by blast
  have "\<exists>q. read_by_id (player_registry e3) i = Some q \<and>
      player_uuid ops q = player_uuid ops p \<and> nfc_uid ops q = nfc_uid ops p \<and>
      awarded_achievements ops p \<subseteq>\<^sub>m awarded_achievements ops q \<and>
      total_bloops ops q = total_bloops ops p + of_nat (length (filter (processed_by i) (evs1 @ evs2)))"
    if "read_by_id (player_registry e1) i = Some p" for i p
    using 1(2) [OF that] 2(2) by (fastforce intro: map_le_trans)
  then show ?thesis
    using assms 1(1) 2(1) unfolding evolves_def by (auto intro!: exI [of _ "evs1 @ evs2"])
qed

lemma evolves_accept:
  assumes "player_traits ops" "engine_wf ops e" "admitted ops clk nfc cid e a"
  shows "evolves ops e (snd (accept_bloop md5 fs ops clk a cid e))"
proof -
  let ?b = "the_bloop ops clk a cid e" and ?e' = "snd (accept_bloop md5 fs ops clk a cid e)"
  let ?tr = "final_tracker ops ?b (counted ops a e)"
  let ?evs = "[AchievementsAwarded (award_batch_from ?tr), BloopProcessed (processed_bloop_from ?b)]"
  have "\<exists>q. read_by_id (player_registry ?e') i = Some q \<and>
      player_uuid ops q = player_uuid ops p \<and> nfc_uid ops q = nfc_uid ops p \<and>
      awarded_achievements ops p \<subseteq>\<^sub>m awarded_achievements ops q \<and>
      total_bloops ops q = total_bloops ops p + of_nat (length (filter (processed_by i) ?evs))"
    if "read_by_id (player_registry e) i = Some p" for i p
    using accept_bloop_registry(3) [OF assms that, of md5 fs]
    by (auto simp: player_after_def map_le_def processed_by_def processed_bloop_from_def)
  moreover have "event_tx ?e' = event_tx e @ ?evs" by (simp add: accept_bloop_eq Let_def)
  moreover have "map fst (achievements ?e') = map fst (achievements e)"
    unfolding achievements_accept using accepted_records_map by blast
  moreover have "audio_manifest_hash ?e' = audio_manifest_hash e" "audio_base_path ?e' = audio_base_path e"
    by (simp_all add: accept_bloop_eq Let_def frame_simps)
  ultimately show ?thesis
    using accept_bloop_registry(2) [OF assms, of md5 fs] unfolding evolves_def by blast
qed

text \<open>Replacing achievements by resolved ones.\<close>

lemma engine_update_achievements:
  assumes "engine_wf ops e" "map fst achs = map fst (achievements e)"
    and "\<And>i ach. (i, ach) \<in> set achs \<Longrightarrow>
      \<exists>old. (i, old) \<in> set (achievements e) \<and> achievement_id ach = achievement_id old \<and> evaluator ach = evaluator old"
  shows "engine_wf ops (e\<lparr>achievements := achs\<rparr>)" "evolves ops e (e\<lparr>achievements := achs\<rparr>)"
    "awards_by_result e \<Longrightarrow> awards_by_result (e\<lparr>achievements := achs\<rparr>)"
proof -
  have keys: "fst ` set achs = fst ` set (achievements e)" using assms(2) by (metis list.set_map)
  show "engine_wf ops (e\<lparr>achievements := achs\<rparr>)"
    using assms(1,3) unfolding engine_wf_def by (fastforce simp: keys assms(2))
  show "evolves ops e (e\<lparr>achievements := achs\<rparr>)"
    using evolves_refl [of ops e] by (auto simp: evolves_def assms(2))
  show "awards_by_result e \<Longrightarrow> awards_by_result (e\<lparr>achievements := achs\<rparr>)"
    using assms(3) unfolding awards_by_result_def by fastforce
qed

lemma resolve_in_updates:
  assumes "map_of achs i = Some ach" "(j, x) \<in> set (snd (resolve_in md5 fs base i ach achs))"
  shows "\<exists>old. (j, old) \<in> set achs \<and> achievement_id x = achievement_id old \<and> evaluator x = evaluator old"
  using assms update_set [of i "resolve_source md5 fs base ach" achs] map_of_SomeD [OF assms(1)]
  by (fastforce simp: resolve_in_eq)

lemma handle_retrieve_audio_engine:
  "snd (handle_retrieve_audio md5 fs fs_task i e) =
     (case map_of (achievements e) i of
        None \<Rightarrow> e
      | Some ach \<Rightarrow> e\<lparr>achievements := snd (resolve_in md5 fs (audio_base_path e) i ach (achievements e))\<rparr>)"
  by (auto simp: handle_retrieve_audio_def Let_def split: option.splits prod.splits)

lemma handle_preload_check_engine:
  "snd (handle_preload_check md5 fs h e) =
     (if h = Some (audio_manifest_hash e) then e
      else e\<lparr>achievements := map (\<lambda>(i, ach). (i, resolve_source md5 fs (audio_base_path e) ach)) (achievements e)\<rparr>)"
  by (simp add: handle_preload_check_def)

lemma handle_bloop_safe:
  assumes "player_traits ops" "engine_wf ops e"
  shows "engine_wf ops (snd (handle_bloop md5 fs ops clk nfc cid e)) \<and>
    evolves ops e (snd (handle_bloop md5 fs ops clk nfc cid e)) \<and>
    (awards_by_result e \<longrightarrow> awards_by_result (snd (handle_bloop md5 fs ops clk nfc cid e)) \<and>
       fst (handle_bloop md5 fs ops clk nfc cid e) \<noteq> None)"
proof (cases "\<exists>a. admitted ops clk nfc cid e a")
  case True
  then obtain a where adm: "admitted ops clk nfc cid e a" ..
  show ?thesis
    unfolding handle_bloop_admitted [OF adm]
    using engine_wf_accept [OF assms adm] evolves_accept [OF assms adm] awards_by_result_accept
      accept_bloop_answers [OF assms adm] by fastforce
next
  case False
  then obtain r reg where "handle_bloop md5 fs ops clk nfc cid e = (Some r, e\<lparr>trigger_registry := reg\<rparr>)"
    using handle_bloop_not_admitted [of ops clk nfc cid e md5 fs] by blast
  then show ?thesis
    using assms(2) evolves_refl [of ops e]
    by (auto simp: engine_wf_def evolves_def awards_by_result_def)
qed

lemma handle_request_safe:
  assumes "player_traits ops" "engine_wf ops e"
  shows "engine_wf ops (snd (handle_request md5 ops inp e)) \<and>
    evolves ops e (snd (handle_request md5 ops inp e)) \<and>
    (awards_by_result e \<longrightarrow> awards_by_result (snd (handle_request md5 ops inp e)) \<and>
       fst (handle_request md5 ops inp e) \<noteq> None)"
proof (cases "request inp")
  case (BloopRequest cid nfc)
  then show ?thesis using handle_bloop_safe [OF assms] by simp
next
  case (RetrieveAudio i)
  have answered: "fst (handle_retrieve_audio md5 fs fs_task i e) \<noteq> None" for fs fs_task
    by (auto simp: handle_retrieve_audio_def Let_def split: option.splits prod.splits)
  show ?thesis
  proof (cases "map_of (achievements e) i")
    case None
    then show ?thesis using RetrieveAudio assms answered by (simp add: handle_retrieve_audio_engine)
  next
    case (Some ach)
    note upd = engine_update_achievements [OF assms(2) _ resolve_in_updates [OF Some]]
    show ?thesis
      using RetrieveAudio Some upd answered
      by (simp add: handle_retrieve_audio_engine resolve_in_eq update_keys [OF Some])
  qed
next
  case (PreloadCheck h)
  let ?achs = "\<lambda>fs. map (\<lambda>(i, ach). (i, resolve_source md5 fs (audio_base_path e) ach)) (achievements e)"
  have "map fst (?achs fs) = map fst (achievements e)" for fs by (simp add: case_prod_beta' o_def)
  moreover have "\<exists>old. (i, old) \<in> set (achievements e) \<and> achievement_id ach = achievement_id old \<and>
      evaluator ach = evaluator old" if "(i, ach) \<in> set (?achs fs)" for i ach fs
    using that by auto
  ultimately show ?thesis
    using PreloadCheck assms engine_update_achievements [OF assms(2), of "?achs (input_fs inp)"]
    by (simp add: handle_preload_check_engine) (simp add: handle_preload_check_def)
qed

lemma process_requests_safe:
  assumes "player_traits ops" "engine_wf ops e"
  shows "(let (responses, e', alive) = process_requests md5 ops inps e
          in engine_wf ops e' \<and> evolves ops e e' \<and>
             (awards_by_result e \<longrightarrow> awards_by_result e' \<and> alive \<and> length responses = length inps))"
  using assms(2)
proof (induction inps arbitrary: e)
  case (Cons inp inps)
  obtain r e1 where step: "handle_request md5 ops inp e = (r, e1)"
    by (cases "handle_request md5 ops inp e")
  note safe = handle_request_safe [OF assms(1) Cons.prems, of md5 inp, unfolded step]
  show ?case
  proof (cases r)
    case None
    with safe step show ?thesis by simp
  next
    case (Some msg)
    obtain rs e2 alive where rest: "process_requests md5 ops inps e1 = (rs, e2, alive)"
      by (cases "process_requests md5 ops inps e1")
    have "engine_wf ops e1" using safe by simp
    from Cons.IH [OF this] rest have "engine_wf ops e2 \<and> evolves ops e1 e2 \<and>
        (awards_by_result e1 \<longrightarrow> awards_by_result e2 \<and> alive \<and> length rs = length inps)" by simp
    with safe step Some rest show ?thesis by (auto intro: evolves_trans)
  qed
qed simp

section \<open>Audio\<close>

definition all_resolved :: "('m, 'p, 's, 'n, 't) achievement_map \<Rightarrow> bool" where
  "all_resolved achs \<longleftrightarrow> (\<forall>(i, ach) \<in> set achs. resolved (audio_file ach) \<noteq> None)"

lemma resolve_source_id:
  assumes "resolved (audio_file ach) \<noteq> None"
  shows "resolve_source md5 fs base ach = ach"
  using assms by (auto simp: resolve_source_def audio_resolve_def)

lemma audio_hash_of_resolved:
  assumes "resolved (audio_file ach) \<noteq> None"
  shows "audio_hash_of md5 fs base ach = map_option file_hash (the (resolved (audio_file ach)))"
  using assms by (auto simp: audio_hash_of_def audio_resolve_def)

lemma update_id: "map_of m k = Some v \<Longrightarrow> AList.update k v m = m"
  by (induction m) (auto split: if_splits)

lemma resolve_in_resolved:
  assumes "all_resolved achs" "map_of achs i = Some ach"
  shows "snd (resolve_in md5 fs base i ach achs) = achs"
  using assms map_of_SomeD [OF assms(2)]
  by (fastforce simp: resolve_in_eq all_resolved_def resolve_source_id update_id)

lemma accepted_records_resolved:
  assumes "all_resolved achs"
  shows "snd (accepted_records md5 fs base ids achs) = achs"
proof (induction ids)
  case (Cons i ids)
  show ?case
  proof (cases "map_of achs i")
    case (Some ach)
    with Cons resolve_in_resolved [OF assms Some, of md5 fs base] show ?thesis
      by (cases "resolve_in md5 fs base i ach achs"; cases "accepted_records md5 fs base ids achs") simp
  qed simp
qed simp

lemma map_resolve_source_resolved:
  assumes "all_resolved achs"
  shows "map (\<lambda>(i, ach). (i, resolve_source md5 fs base ach)) achs = achs"
  using assms by (induction achs) (auto simp: all_resolved_def resolve_source_id)

lemma handle_request_achievements:
  assumes "all_resolved (achievements e)"
  shows "achievements (snd (handle_request md5 ops inp e)) = achievements e \<and>
    audio_manifest_hash (snd (handle_request md5 ops inp e)) = audio_manifest_hash e \<and>
    audio_base_path (snd (handle_request md5 ops inp e)) = audio_base_path e"
proof (cases "request inp")
  case (BloopRequest cid nfc)
  show ?thesis
  proof (cases "\<exists>a. admitted ops (input_clock inp) nfc cid e a")
    case True
    then obtain a where adm: "admitted ops (input_clock inp) nfc cid e a" ..
    show ?thesis
      using accepted_records_resolved [OF assms] BloopRequest
      by (simp add: handle_bloop_admitted [OF adm] achievements_accept)
        (simp add: accept_bloop_eq Let_def frame_simps)
  next
    case False
    then show ?thesis
      using handle_bloop_not_admitted [of ops "input_clock inp" nfc cid e md5 "input_fs inp"] BloopRequest
      by fastforce
  qed
next
  case (RetrieveAudio i)
  then show ?thesis
    using resolve_in_resolved [OF assms]
    by (auto simp: handle_retrieve_audio_engine split: option.split)
next
  case (PreloadCheck h)
  then show ?thesis
    using map_resolve_source_resolved [OF assms] by (simp add: handle_preload_check_engine)
qed

lemma process_requests_achievements:
  assumes "all_resolved (achievements e)"
  shows "(let (responses, e', alive) = process_requests md5 ops inps e
          in achievements e' = achievements e \<and> audio_manifest_hash e' = audio_manifest_hash e \<and>
             audio_base_path e' = audio_base_path e)"
  using assms
proof (induction inps arbitrary: e)
  case (Cons inp inps)
  obtain r e1 where step: "handle_request md5 ops inp e = (r, e1)"
    by (cases "handle_request md5 ops inp e")
  note same = handle_request_achievements [OF Cons.prems, of md5 ops inp, unfolded step]
  show ?case
  proof (cases r)
    case (Some msg)
    obtain rs e2 alive where rest: "process_requests md5 ops inps e1 = (rs, e2, alive)"
      by (cases "process_requests md5 ops inps e1")
    have "all_resolved (achievements e1)" using same Cons.prems by simp
    from Cons.IH [OF this] rest same step Some show ?thesis by simp
  qed (use same step in simp)
qed simp

text \<open>The bytes that are hashed for the records a client is told about.\<close>

definition manifest_input :: "achievement_record list \<Rightarrow> u8 list" where
  "manifest_input records =
     concat (map (\<lambda>(i, h). uuid_bytes i @ h)
       (sort_key fst (List.map_filter (\<lambda>r. map_option (Pair (record_id r)) (audio_hash r)) records)))"

definition record_of ::
  "(u8 list \<Rightarrow> data_hash) \<Rightarrow> (path \<Rightarrow> u8 list option) \<Rightarrow> path \<Rightarrow> ('m, 'p, 's, 'n, 't) achievement \<Rightarrow>
   achievement_record" where
  "record_of md5 fs base ach =
     \<lparr>record_id = achievement_id ach, audio_hash = audio_hash_of md5 fs base ach\<rparr>"

lemma update_new: "k \<notin> fst ` set m \<Longrightarrow> AList.update k v m = m @ [(k, v)]"
  by (induction m) auto

lemma fold_update_distinct:
  assumes "distinct (map f xs)" "f ` set xs \<inter> fst ` set m = {}"
  shows "fold (\<lambda>x. AList.update (f x) (g x)) xs m = m @ map (\<lambda>x. (f x, g x)) xs"
  using assms by (induction xs arbitrary: m) (simp_all add: update_new)

lemma audio_entries_distinct:
  assumes "distinct (map achievement_id achs)"
  shows "audio_entries md5 fs base achs =
    List.map_filter (\<lambda>r. map_option (Pair (record_id r)) (audio_hash r)) (map (record_of md5 fs base) achs)"
proof -
  have "fold (\<lambda>ach m. case audio_hash_of md5 fs base ach of
          None \<Rightarrow> m | Some h \<Rightarrow> AList.update (achievement_id ach) h m) achs m =
      m @ List.map_filter (\<lambda>r. map_option (Pair (record_id r)) (audio_hash r)) (map (record_of md5 fs base) achs)"
    if "distinct (map achievement_id achs)" "achievement_id ` set achs \<inter> fst ` set m = {}" for m
    using that
  proof (induction achs arbitrary: m)
    case (Cons ach achs)
    show ?case
    proof (cases "audio_hash_of md5 fs base ach")
      case None
      with Cons show ?thesis by (simp add: record_of_def map_filter_simps)
    next
      case (Some h)
      have new: "AList.update (achievement_id ach) h m = m @ [(achievement_id ach, h)]"
        using Cons.prems by (intro update_new) auto
      with Some Cons.prems Cons.IH [of "m @ [(achievement_id ach, h)]"] show ?thesis
        by (simp add: record_of_def map_filter_simps)
    qed
  qed (simp add: map_filter_simps)
  from this [OF assms, of "[]"] show ?thesis by (simp add: audio_entries_def)
qed

lemma resolve_source_resolves: "resolved (audio_file (resolve_source md5 fs base ach)) \<noteq> None"
  by (simp add: resolve_source_def audio_resolve_def Let_def split: option.split)

lemma engine_build_audio:
  assumes "engine_build md5 fs default_state bld = Inr e" "distinct (map achievement_id (eb_achievements bld))"
  shows "achievements e = map (\<lambda>ach. (achievement_id ach, ach))
      (map (resolve_source md5 fs (audio_base_path e)) (eb_achievements bld))"
    and "all_resolved (achievements e)"
    and "audio_manifest_hash e =
      md5 (manifest_input (map (record_of md5 fs (audio_base_path e)) (eb_achievements bld)))"
proof -
  from assms(1) obtain base where base: "eb_audio_base_path bld = Some base" "audio_base_path e = base"
    and achs: "achievements e = fold (\<lambda>ach. AList.update (achievement_id ach) ach)
      (map (resolve_source md5 fs base) (eb_achievements bld)) []"
    and hash: "audio_manifest_hash e = fst (calculate_manifest_hash md5 fs base (eb_achievements bld))"
    by (auto simp: engine_build_def try_bind_Inr calculate_manifest_hash_def Let_def ok_or_def
        split: option.splits)
  show eq: "achievements e = map (\<lambda>ach. (achievement_id ach, ach))
      (map (resolve_source md5 fs (audio_base_path e)) (eb_achievements bld))"
    unfolding achs base
    using fold_update_distinct [of achievement_id "map (resolve_source md5 fs base) (eb_achievements bld)" "[]" "\<lambda>x. x"]
      assms(2) by (simp add: o_def)
  show "all_resolved (achievements e)"
    unfolding eq all_resolved_def using resolve_source_resolves by fastforce
  show "audio_manifest_hash e =
      md5 (manifest_input (map (record_of md5 fs (audio_base_path e)) (eb_achievements bld)))"
    by (simp add: hash calculate_manifest_hash_def manifest_input_def base audio_entries_distinct [OF assms(2)])
qed

section \<open>Properties\<close>

text \<open>C5: However many requests of whatever kind the engine processes, its invariant holds, the registry's
  indexes do not change, no player ever loses an award or has its timestamp changed, the event log
  only grows, and every player's total has grown by exactly the number of processed-bloop events
  sent for that player (modulo the width of \<open>usize\<close>). If the evaluators award through their result,
  every request is answered.\<close>

theorem requests_keep_awards_and_count_bloops:
  assumes "player_traits ops" "engine_wf ops e"
  shows "(let (responses, e', alive) = process_requests md5 ops inps e
          in engine_wf ops e' \<and> snd (player_registry e') = snd (player_registry e) \<and>
             (awards_by_result e \<longrightarrow> alive \<and> length responses = length inps) \<and>
             (\<exists>evs. event_tx e' = event_tx e @ evs \<and>
                (\<forall>i p. read_by_id (player_registry e) i = Some p \<longrightarrow>
                   (\<exists>q. read_by_id (player_registry e') i = Some q \<and>
                      awarded_achievements ops p \<subseteq>\<^sub>m awarded_achievements ops q \<and>
                      total_bloops ops q = total_bloops ops p + of_nat (length (filter (processed_by i) evs))))))"
proof -
  obtain responses e' alive where run: "process_requests md5 ops inps e = (responses, e', alive)"
    by (cases "process_requests md5 ops inps e")
  note safe = process_requests_safe [OF assms, of md5 inps, unfolded run Let_def prod.case]
  then have "evolves ops e e'" by simp
  then obtain evs where "event_tx e' = event_tx e @ evs" "snd (player_registry e') = snd (player_registry e)"
    "\<forall>i p. read_by_id (player_registry e) i = Some p \<longrightarrow>
       (\<exists>q. read_by_id (player_registry e') i = Some q \<and>
          awarded_achievements ops p \<subseteq>\<^sub>m awarded_achievements ops q \<and>
          total_bloops ops q = total_bloops ops p + of_nat (length (filter (processed_by i) evs)))"
    unfolding evolves_def by blast
  with safe show ?thesis unfolding run Let_def prod.case by blast
qed

definition demo_request :: "int \<Rightarrow> nat engine_request \<Rightarrow> nat request_input" where
  "demo_request t r = \<lparr>request = r, input_clock = demo_clock t, input_fs = demo_fs, input_fs_task = demo_fs\<rparr>"

theorem requests_keep_awards_and_count_bloops_witness:
  "length (fst (process_requests demo_md5 mock_player_ops
     [demo_request 50 (BloopRequest ''c'' 10), demo_request 60 (RetrieveAudio 7),
      demo_request 70 (BloopRequest ''c'' 20), demo_request 80 (PreloadCheck None)]
     (demo_engine [demo_award_self]))) = 4"
  using requests_keep_awards_and_count_bloops [where ?md5.0 = demo_md5 and
      inps = "[demo_request 50 (BloopRequest ''c'' 10), demo_request 60 (RetrieveAudio 7),
      demo_request 70 (BloopRequest ''c'' 20), demo_request 80 (PreloadCheck None)]",
      OF mock.player_traits_axioms demo_engine_wf] demo_engine_result
  by (simp add: Let_def case_prod_beta)

text \<open>C8: Hot achievements: a bloop drops the hot achievements that have expired, keeps the others and adds
  those its own evaluation made hot, for its client and until their duration has passed. The scanning
  player has, afterwards, every achievement that is then hot at the client, whether it was hot before or
  has just become hot. An achievement that is only gained because it is hot does not become hot again, so
  the window is never extended.\<close>

theorem hot_achievements_window:
  assumes "player_traits ops" "engine_wf ops e" "admitted ops clk nfc cid e a"
  shows "(let b = the_bloop ops clk a cid e; e' = snd (handle_bloop md5 fs ops clk nfc cid e);
              own = tracked (evaluated ops b (counted ops a e)) (player_id b)
          in hot_achievements e' =
               filter (\<lambda>h. now_bloop clk \<le> until h) (hot_achievements e) @
               concat (map (\<lambda>i. case Option.bind (map_of (achievements e) i) hot_duration of
                     None \<Rightarrow> []
                   | Some d \<Rightarrow> [\<lparr>hot_id = i, hot_client_id = cid, until = now_bloop clk + int d\<rparr>]) own) \<and>
             (\<forall>h \<in> set (hot_achievements e'). hot_client_id h = cid \<longrightarrow>
                (\<exists>q. read_by_id (player_registry e') (player_uuid ops (fst (player_registry e) ! a)) = Some q \<and>
                   awarded_achievements ops q (hot_id h) \<noteq> None)))"
proof -
  let ?b = "the_bloop ops clk a cid e" and ?e1 = "counted ops a e"
  let ?e' = "snd (accept_bloop md5 fs ops clk a cid e)"
  let ?own = "tracked (evaluated ops ?b ?e1) (player_id ?b)"
  note adm = admittedD [OF assms]
  have fresh: "newly_hot achs ?b ids = concat (map (\<lambda>i. case Option.bind (map_of achs i) hot_duration of
      None \<Rightarrow> [] | Some d \<Rightarrow> [\<lparr>hot_id = i, hot_client_id = cid, until = now_bloop clk + int d\<rparr>]) ids)"
    for achs :: "('c, 'a, 'd, 'b, 'e) achievement_map" and ids
    by (simp add: newly_hot_def hot_achievement_new_def cong: option.case_cong)
  have after: "hot_achievements ?e' = filter (is_hot ?b) (hot_after ops ?b ?e1)"
    by (simp add: accept_bloop_eq Let_def)
  have "filter (is_hot ?b) (newly_hot achs ?b ids) = newly_hot achs ?b ids"
    for achs :: "('c, 'a, 'd, 'b, 'e) achievement_map" and ids
    by (induction ids) (auto simp: newly_hot_def is_hot_def hot_achievement_new_def split: option.split)
  then have hot: "hot_achievements ?e' =
      filter (\<lambda>h. now_bloop clk \<le> until h) (hot_achievements e) @ newly_hot (achievements e) ?b ?own"
    by (simp add: after hot_after_def is_hot_def [abs_def])
  have "hot_id h \<in> candidate_awards ops ?b ?e1 (player_id ?b)"
    if "h \<in> set (hot_achievements ?e')" "hot_client_id h = cid" for h
    using that unfolding after by (auto simp: candidate_awards_def hot_ids_def)
  then have "\<exists>q. read_by_id (player_registry ?e') (player_id ?b) = Some q \<and> awarded_achievements ops q (hot_id h) \<noteq> None"
    if "h \<in> set (hot_achievements ?e')" "hot_client_id h = cid" for h
    using that accept_bloop_registry(3) [OF assms adm(4), of md5 fs] by (fastforce simp: player_after_def)
  with hot show ?thesis
    unfolding handle_bloop_admitted [OF assms(3)] Let_def fresh adm(2) by blast
qed

text \<open>An engine with a hot achievement of another player, an expired one, and an achievement that becomes hot.\<close>

definition demo_hot_engine :: "(unit, nat mock_player, unit, nat, nat) engine" where
  "demo_hot_engine =
     (demo_engine [demo_award_self\<lparr>hot_duration := Some 100\<rparr>, demo_achievement 8 (dummy_evaluator NoAward)])
       \<lparr>hot_achievements := [\<lparr>hot_id = 8, hot_client_id = ''c'', until = 40\<rparr>, \<lparr>hot_id = 8, hot_client_id = ''c'', until = 60\<rparr>]\<rparr>"

lemma demo_hot_engine_ok:
  "engine_wf mock_player_ops demo_hot_engine"
  "admitted mock_player_ops (demo_clock 50) 10 ''c'' demo_hot_engine 0"
proof -
  show "engine_wf mock_player_ops demo_hot_engine"
    by (simp add: demo_hot_engine_def engine_wf_def demo_engine_def demo_players_wf demo_award_self_def
        demo_achievement_def dummy_evaluator.evaluator_api_axioms)
  show "admitted mock_player_ops (demo_clock 50) 10 ''c'' demo_hot_engine 0"
    by (simp add: demo_hot_engine_def demo_engine_def admitted_def trigger_registry_new_def demo_players_eval
        get_by_nfc_uid_def is_throttled_def provider_new_def for_client_def)
qed

theorem hot_achievements_window_witness:
  "(let e' = snd (handle_bloop demo_md5 demo_fs mock_player_ops (demo_clock 50) 10 ''c'' demo_hot_engine)
    in hot_achievements e' =
         [\<lparr>hot_id = 8, hot_client_id = ''c'', until = 60\<rparr>, \<lparr>hot_id = 7, hot_client_id = ''c'', until = 150\<rparr>] \<and>
       (\<exists>q. read_by_id (player_registry e') 1 = Some q \<and> mock_awarded q 8 \<noteq> None) \<and>
       (\<exists>q. read_by_id (player_registry e') 1 = Some q \<and> mock_awarded q 7 \<noteq> None))"
proof -
  have own: "tracked (evaluated mock_player_ops (the_bloop mock_player_ops (demo_clock 50) 0 ''c'' demo_hot_engine)
      (counted mock_player_ops 0 demo_hot_engine)) (player_id (the_bloop mock_player_ops (demo_clock 50) 0 ''c'' demo_hot_engine)) = [7]"
    by (simp add: evaluated_def evaluation_context_def demo_hot_engine_def demo_engine_def demo_award_self_def
        demo_achievement_def achievement_evaluate_def dummy_evaluator_def award_achievement_def demo_players_eval
        counted_def count_bloop_def mock_player_ops_def demo_player_def tracked_def for_player_def tracker_add_def tracker_new_def)
  have demo: "hot_achievements demo_hot_engine =
      [\<lparr>hot_id = 8, hot_client_id = ''c'', until = 40\<rparr>, \<lparr>hot_id = 8, hot_client_id = ''c'', until = 60\<rparr>]"
    "Option.bind (map_of (achievements demo_hot_engine) 7) hot_duration = Some 100"
    "player_uuid mock_player_ops (fst (player_registry demo_hot_engine) ! 0) = 1"
    "awarded_achievements mock_player_ops = mock_awarded" "now_bloop (demo_clock 50) = 50"
    by (simp_all add: demo_hot_engine_def demo_engine_def demo_award_self_def demo_achievement_def demo_players_eval
        demo_player_def mock_player_ops_def demo_clock_def)
  show ?thesis
    using hot_achievements_window [where ?md5.0 = demo_md5 and fs = demo_fs,
        OF mock.player_traits_axioms demo_hot_engine_ok]
    unfolding own demo Let_def by (auto simp: demo(2))
qed

text \<open>C12: The audio manifest stays true. For an engine built from achievements with distinct IDs, after any
  requests and whatever has happened to the files since, a preload check is answered with a match
  exactly for the manifest hash, and otherwise with that hash and a list of records whose IDs are
  those of the achievements and whose own manifest hash it is.\<close>

theorem manifest_matches_preload_records:
  assumes "engine_build md5 fs default_state bld = Inr e"
    and "distinct (map achievement_id (eb_achievements bld))"
    and "process_requests md5 ops inps e = (responses, e', alive)"
  shows "\<exists>records.
    fst (handle_preload_check md5 fs' h e') =
      Some (if h = Some (md5 (manifest_input records)) then PreloadMatch
            else PreloadMismatch (md5 (manifest_input records)) records) \<and>
    map record_id records = map achievement_id (eb_achievements bld)"
proof -
  note built = engine_build_audio [OF assms(1,2)]
  have same: "achievements e' = achievements e" "audio_manifest_hash e' = audio_manifest_hash e"
    "audio_base_path e' = audio_base_path e"
    using process_requests_achievements [OF built(2), of md5 ops inps] assms(3) by simp_all
  let ?records = "map (record_of md5 fs (audio_base_path e)) (eb_achievements bld)"
  have "map (\<lambda>(i, ach). \<lparr>record_id = achievement_id ach,
      audio_hash = audio_hash_of md5 fs' (audio_base_path e) ach\<rparr>) (achievements e) = ?records"
    by (simp add: built(1) o_def record_of_def)
  then have "fst (handle_preload_check md5 fs' h e') =
      Some (if h = Some (md5 (manifest_input ?records)) then PreloadMatch
            else PreloadMismatch (md5 (manifest_input ?records)) ?records)"
    by (simp add: handle_preload_check_def same built(3))
  moreover have "map record_id ?records = map achievement_id (eb_achievements bld)"
    by (simp add: o_def record_of_def)
  ultimately show ?thesis by blast
qed

definition demo_builder :: "(unit, nat mock_player, unit, nat, nat) engine_builder" where
  "demo_builder =
     \<lparr>eb_bloops = [], eb_achievements = [demo_award_self\<lparr>audio_file := audio_source_from (Some ''a.mp3'')\<rparr>],
      eb_bloop_retention = Some 1000, eb_audio_base_path = Some ''/audio'',
      eb_player_registry = Some demo_players, eb_state = None, eb_trigger_registry = None,
      eb_network_rx = Some (), eb_event_tx = Some [], eb_throttle = None\<rparr>"

theorem manifest_matches_preload_records_witness:
  "\<exists>e records. engine_build demo_md5 demo_fs () demo_builder = Inr e \<and>
     fst (handle_preload_check demo_md5 (\<lambda>_. None) None
       (fst (snd (process_requests demo_md5 mock_player_ops [demo_request 50 (BloopRequest ''c'' 10)] e)))) =
       Some (PreloadMismatch (demo_md5 (manifest_input records)) records) \<and>
     map record_id records = [7]"
proof -
  obtain e where e: "engine_build demo_md5 demo_fs () demo_builder = Inr e"
    by (simp add: engine_build_def demo_builder_def Let_def case_prod_beta)
  have "distinct (map achievement_id (eb_achievements demo_builder))"
    by (simp add: demo_builder_def)
  moreover obtain rs e' alive where run:
    "process_requests demo_md5 mock_player_ops [demo_request 50 (BloopRequest ''c'' 10)] e = (rs, e', alive)"
    by (cases "process_requests demo_md5 mock_player_ops [demo_request 50 (BloopRequest ''c'' 10)] e")
  ultimately obtain records where "fst (handle_preload_check demo_md5 (\<lambda>_. None) None e') =
      Some (PreloadMismatch (demo_md5 (manifest_input records)) records)"
    "map record_id records = map achievement_id (eb_achievements demo_builder)"
    using manifest_matches_preload_records [OF e _ run, of "\<lambda>_. None" None] by auto
  with e run show ?thesis
    by (auto simp: demo_builder_def demo_award_self_def demo_achievement_def)
qed

section \<open>What the builder establishes\<close>

lemma fold_update_by_id:
  assumes "map_wf m" "\<And>i ach. (i, ach) \<in> set m \<Longrightarrow> Q i ach" "\<And>ach. ach \<in> set achs \<Longrightarrow> Q (achievement_id ach) ach"
  shows "map_wf (fold (\<lambda>ach. AList.update (achievement_id ach) ach) achs m)"
    and "(i, ach) \<in> set (fold (\<lambda>ach. AList.update (achievement_id ach) ach) achs m) \<Longrightarrow> Q i ach"
proof -
  have "map_wf (fold (\<lambda>ach. AList.update (achievement_id ach) ach) achs m) \<and>
    (\<forall>(i, ach) \<in> set (fold (\<lambda>ach. AList.update (achievement_id ach) ach) achs m). Q i ach)"
    using assms
  proof (induction achs arbitrary: m)
    case (Cons a achs)
    have "Q i ach" if "(i, ach) \<in> set (AList.update (achievement_id a) a m)" for i ach
      using that Cons.prems(2) Cons.prems(3) [of a] update_set [of "achievement_id a" a m] by auto
    with Cons.IH [of "AList.update (achievement_id a) a m"] Cons.prems(1,3) show ?case
      by (simp add: distinct_update)
  qed auto
  then show "map_wf (fold (\<lambda>ach. AList.update (achievement_id ach) ach) achs m)"
    and "(i, ach) \<in> set (fold (\<lambda>ach. AList.update (achievement_id ach) ach) achs m) \<Longrightarrow> Q i ach" by auto
qed

lemma keys_fold_update:
  "fst ` set (fold (\<lambda>ach. AList.update (achievement_id ach) ach) achs m) = fst ` set m \<union> achievement_id ` set achs"
  by (induction achs arbitrary: m) (auto simp: dom_update)

lemma engine_build_Inr:
  assumes "engine_build md5 fs default_state bld = Inr e"
  shows "\<exists>players base. eb_player_registry bld = Some players \<and> player_registry e = players \<and>
    achievements e = fold (\<lambda>ach. AList.update (achievement_id ach) ach)
       (map (resolve_source md5 fs base) (eb_achievements bld)) [] \<and>
    hot_achievements e = []"
  using assms
  by (auto simp: engine_build_def try_bind_Inr calculate_manifest_hash_def Let_def ok_or_def
      split: option.splits)

text \<open>C13: The builder fails exactly when one of the retention, the audio path, the players, the request channel
  and the event channel is not set, and names the first of them that is missing. Otherwise, for a
  well-formed registry and evaluators that act through their context, whatever the achievements' IDs, it
  delivers an engine that satisfies the engine's invariant and whose achievements are stored under their own
  IDs, without duplicates.\<close>

theorem engine_build_establishes_invariant:
  assumes "\<And>players. eb_player_registry bld = Some players \<Longrightarrow> registry_wf ops players"
    and "\<And>ach. ach \<in> set (eb_achievements bld) \<Longrightarrow> evaluator_api (evaluator ach)"
  shows "(let missing = map fst (filter snd
          [(''bloop_retention'', eb_bloop_retention bld = None), (''audio_base_path'', eb_audio_base_path bld = None),
           (''player_registry'', eb_player_registry bld = None), (''network_rx'', eb_network_rx bld = None),
           (''event_tx'', eb_event_tx bld = None)])
    in case engine_build md5 fs default_state bld of
         Inl err \<Rightarrow> missing \<noteq> [] \<and> err = MissingField (hd missing)
       | Inr e \<Rightarrow> missing = [] \<and> engine_wf ops e \<and> map_wf (achievements e) \<and>
           (\<forall>(i, ach) \<in> set (achievements e). achievement_id ach = i) \<and>
           fst ` set (achievements e) = achievement_id ` set (eb_achievements bld))"
proof (cases "engine_build md5 fs default_state bld")
  case (Inl err)
  then show ?thesis
    by (simp add: engine_build_def ok_or_def Let_def split: option.splits prod.splits)
next
  case (Inr e)
  have set: "eb_bloop_retention bld \<noteq> None" "eb_audio_base_path bld \<noteq> None" "eb_network_rx bld \<noteq> None"
    "eb_event_tx bld \<noteq> None"
    using Inr by (auto simp: engine_build_def try_bind_Inr ok_or_def split: option.splits)
  obtain players base where e: "eb_player_registry bld = Some players" "player_registry e = players"
    "achievements e = fold (\<lambda>ach. AList.update (achievement_id ach) ach)
       (map (resolve_source md5 fs base) (eb_achievements bld)) []"
    "hot_achievements e = []" using engine_build_Inr [OF Inr] by (elim exE conjE)
  let ?Q = "\<lambda>i ach. achievement_id ach = i \<and> evaluator_api (evaluator ach)"
  have own: "?Q (achievement_id ach) ach" if "ach \<in> set (map (resolve_source md5 fs base) (eb_achievements bld))" for ach
    using that assms(2) by auto
  have "map_wf (achievements e)"
    unfolding e(3) by (rule fold_update_by_id(1) [where Q = ?Q, OF _ _ own]) simp_all
  moreover have "?Q i ach" if "(i, ach) \<in> set (achievements e)" for i ach
    by (rule fold_update_by_id(2) [where Q = ?Q and m = "[]", OF _ _ own that [unfolded e(3)]]) simp_all
  ultimately have "engine_wf ops e"
    using assms(1) [OF e(1)] by (auto simp: engine_wf_def e(2,4))
  moreover from this have "map_wf (achievements e)" "\<forall>(i, ach) \<in> set (achievements e). achievement_id ach = i"
    by (auto simp: engine_wf_def)
  ultimately show ?thesis using set by (simp add: Inr e(1) Let_def) (simp add: e(3) keys_fold_update image_image)
qed

theorem engine_build_establishes_invariant_witness:
  "\<exists>e. engine_build demo_md5 demo_fs () demo_builder = Inr e \<and> engine_wf mock_player_ops e"
proof -
  have reg: "registry_wf mock_player_ops players" if "eb_player_registry demo_builder = Some players" for players
    using that demo_players_wf by (simp add: demo_builder_def)
  have api: "evaluator_api (evaluator ach)" if "ach \<in> set (eb_achievements demo_builder)" for ach
    using that dummy_evaluator.evaluator_api_axioms
    by (simp add: demo_builder_def demo_award_self_def demo_achievement_def)
  obtain e where e: "engine_build demo_md5 demo_fs () demo_builder = Inr e"
    by (simp add: engine_build_def demo_builder_def Let_def case_prod_beta)
  then show ?thesis
    using engine_build_establishes_invariant [where bld = demo_builder and ops = mock_player_ops, OF reg api,
        of demo_md5 demo_fs "()"] by (simp add: Let_def)
qed

end
