(* ===== verification/Evaluators.thy ===== *)
theory Evaluators
  imports Achievement
begin

text \<open>
  The evaluators of \<open>src/src/evaluator/\<close> that look at the history: \<open>min_bloops.rs\<close>, \<open>trigger.rs\<close>,
  \<open>streak.rs\<close>, \<open>distinct_values.rs\<close> and \<open>spelling_bee.rs\<close>, with the type-state builders of the two window
  evaluators (\<open>src/src/builder.rs\<close>). Predicates, extractors and the derivation of a context are the
  application's and are arguments. Each evaluator interprets \<open>result_evaluator\<close>, the contract under which
  the engine answers every request.
\<close>

section \<open>Minimum number of bloops and triggers\<close>

record min_bloops_evaluator =
  min_count :: usize

definition min_bloops_new :: "usize \<Rightarrow> min_bloops_evaluator" where
  "min_bloops_new n = \<lparr>min_count = n\<rparr>"

definition min_bloops_evaluate ::
  "('p, 'n) player_ops \<Rightarrow> min_bloops_evaluator \<Rightarrow> ('p, 's, 'n, 't) evaluator" where
  "min_bloops_evaluate ops ev ctx =
     (eval_result_from_bool
        (total_bloops ops (ctx_players ctx ! player (current_bloop ctx)) \<ge> min_count ev), ctx)"

record 't trigger_evaluator =
  evaluator_trigger :: 't

definition trigger_evaluator_new :: "'t \<Rightarrow> 't trigger_evaluator" where
  "trigger_evaluator_new t = \<lparr>evaluator_trigger = t\<rparr>"

definition trigger_evaluate :: "'t trigger_evaluator \<Rightarrow> ('p, 's, 'n, 't) evaluator" where
  "trigger_evaluate ev ctx =
     (let (active, ctx) = has_trigger (evaluator_trigger ev) ctx
      in (eval_result_from_bool active, ctx))"

section \<open>Type-state builders\<close>

datatype no_value = NoValue
datatype 'a set_value = Value 'a

record ('r, 'w) window_builder =
  wb_min_required :: 'r
  wb_max_window :: 'w
  wb_award_mode :: award_mode

definition streak_builder_new :: "(no_value, no_value) window_builder" where
  "streak_builder_new = \<lparr>wb_min_required = NoValue, wb_max_window = NoValue, wb_award_mode = Current\<rparr>"

definition streak_award_all :: "('r, 'w) window_builder \<Rightarrow> ('r, 'w) window_builder" where
  "streak_award_all b = b\<lparr>wb_award_mode := All\<rparr>"

definition streak_min_required :: "nat \<Rightarrow> (no_value, 'w) window_builder \<Rightarrow> (nat set_value, 'w) window_builder" where
  "streak_min_required n b =
     \<lparr>wb_min_required = Value n, wb_max_window = wb_max_window b, wb_award_mode = wb_award_mode b\<rparr>"

definition streak_max_window ::
  "duration \<Rightarrow> ('r, no_value) window_builder \<Rightarrow> ('r, duration set_value) window_builder" where
  "streak_max_window d b =
     \<lparr>wb_min_required = wb_min_required b, wb_max_window = Value d, wb_award_mode = wb_award_mode b\<rparr>"

fun get_value :: "'a set_value \<Rightarrow> 'a" where
  "get_value (Value x) = x"

section \<open>Streaks\<close>

record ('p, 's, 'n, 't, 'c) streak_evaluator =
  min_required :: nat
  max_window :: duration
  streak_mode :: award_mode
  derive_ctx :: "('p, 's, 'n, 't) achievement_context \<Rightarrow> 'c derived_ctx"
  predicate :: "'p \<Rightarrow> 'c \<Rightarrow> bool"

definition streak_build_with_derived_ctx ::
  "(nat set_value, duration set_value) window_builder \<Rightarrow>
   (('p, 's, 'n, 't) achievement_context \<Rightarrow> 'c derived_ctx) \<Rightarrow> ('p \<Rightarrow> 'c \<Rightarrow> bool) \<Rightarrow>
   ('p, 's, 'n, 't, 'c) streak_evaluator" where
  "streak_build_with_derived_ctx b derive P =
     \<lparr>min_required = get_value (wb_min_required b), max_window = get_value (wb_max_window b),
      streak_mode = wb_award_mode b, derive_ctx = derive, predicate = P\<rparr>"

definition streak_build ::
  "(nat set_value, duration set_value) window_builder \<Rightarrow> ('p \<Rightarrow> bool) \<Rightarrow>
   ('p, 's, 'n, 't, unit) streak_evaluator" where
  "streak_build b P =
     \<lparr>min_required = get_value (wb_min_required b), max_window = get_value (wb_max_window b),
      streak_mode = wb_award_mode b, derive_ctx = (\<lambda>_. Owned ()), predicate = (\<lambda>p _. P p)\<rparr>"

text \<open>The loop of \<open>evaluate\<close>; \<open>None\<close> is its early return.\<close>

fun streak_loop :: "('p \<Rightarrow> bool) \<Rightarrow> 'p store \<Rightarrow> bloop list \<Rightarrow> uuid list \<Rightarrow> uuid list option" where
  "streak_loop P st [] player_ids = Some player_ids"
| "streak_loop P st (b # bs) player_ids =
     (if player_id b \<in> set player_ids \<or> \<not> P (st ! player b) then None
      else streak_loop P st bs (player_ids @ [player_id b]))"

definition recent_client_bloops ::
  "('p, 's, 'n, 't) achievement_context \<Rightarrow> duration \<Rightarrow> nat \<Rightarrow> bloop list" where
  "recent_client_bloops ctx window n =
     take n (filter (filter_within_window ctx window) (client_bloops ctx))"

definition award_by_mode :: "award_mode \<Rightarrow> uuid list \<Rightarrow> eval_result" where
  "award_by_mode mode player_ids =
     (case mode of Current \<Rightarrow> AwardSelf | All \<Rightarrow> AwardMultiple player_ids)"

definition streak_evaluate ::
  "('p, 's, 'n, 't, 'c) streak_evaluator \<Rightarrow> ('p, 's, 'n, 't) evaluator" where
  "streak_evaluate ev ctx =
     (let derived = derived_as_ref (derive_ctx ev ctx);
          player_ids = [player_id (current_bloop ctx)];
          bs = recent_client_bloops ctx (max_window ev) (min_required ev)
      in (case streak_loop (\<lambda>p. predicate ev p derived) (ctx_players ctx) bs player_ids of
            None \<Rightarrow> NoAward
          | Some player_ids \<Rightarrow>
              if length player_ids \<le> min_required ev then NoAward
              else award_by_mode (streak_mode ev) player_ids, ctx))"

section \<open>Distinct values\<close>

datatype 'v extract_result = Single 'v | Multiple "'v list" | Abort

text \<open>The builder of \<open>distinct_values.rs\<close> has the same fields and setters under its own type.\<close>

definition distinct_builder_new :: "(no_value, no_value) window_builder" where
  "distinct_builder_new = \<lparr>wb_min_required = NoValue, wb_max_window = NoValue, wb_award_mode = Current\<rparr>"

definition distinct_award_all :: "('r, 'w) window_builder \<Rightarrow> ('r, 'w) window_builder" where
  "distinct_award_all b = b\<lparr>wb_award_mode := All\<rparr>"

definition distinct_min_required :: "nat \<Rightarrow> (no_value, 'w) window_builder \<Rightarrow> (nat set_value, 'w) window_builder" where
  "distinct_min_required n b =
     \<lparr>wb_min_required = Value n, wb_max_window = wb_max_window b, wb_award_mode = wb_award_mode b\<rparr>"

definition distinct_max_window ::
  "duration \<Rightarrow> ('r, no_value) window_builder \<Rightarrow> ('r, duration set_value) window_builder" where
  "distinct_max_window d b =
     \<lparr>wb_min_required = wb_min_required b, wb_max_window = Value d, wb_award_mode = wb_award_mode b\<rparr>"

record ('p, 's, 'n, 't, 'c, 'v) distinct_values_evaluator =
  dv_min_required :: nat
  dv_max_window :: duration
  dv_award_mode :: award_mode
  dv_derive_ctx :: "('p, 's, 'n, 't) achievement_context \<Rightarrow> 'c derived_ctx"
  extractor :: "'p \<Rightarrow> 'c \<Rightarrow> 'v extract_result"

definition distinct_build_with_derived_ctx ::
  "(nat set_value, duration set_value) window_builder \<Rightarrow>
   (('p, 's, 'n, 't) achievement_context \<Rightarrow> 'c derived_ctx) \<Rightarrow> ('p \<Rightarrow> 'c \<Rightarrow> 'v extract_result) \<Rightarrow>
   ('p, 's, 'n, 't, 'c, 'v) distinct_values_evaluator" where
  "distinct_build_with_derived_ctx b derive E =
     \<lparr>dv_min_required = get_value (wb_min_required b), dv_max_window = get_value (wb_max_window b),
      dv_award_mode = wb_award_mode b, dv_derive_ctx = derive, extractor = E\<rparr>"

definition distinct_build ::
  "(nat set_value, duration set_value) window_builder \<Rightarrow> ('p \<Rightarrow> 'v extract_result) \<Rightarrow>
   ('p, 's, 'n, 't, unit, 'v) distinct_values_evaluator" where
  "distinct_build b E =
     \<lparr>dv_min_required = get_value (wb_min_required b), dv_max_window = get_value (wb_max_window b),
      dv_award_mode = wb_award_mode b, dv_derive_ctx = (\<lambda>_. Owned ()), extractor = (\<lambda>p _. E p)\<rparr>"

text \<open>The loop of \<open>evaluate\<close>: the set of values and the players, or \<open>None\<close> for an early return. The
  \<open>break\<close> ends it as soon as enough values have been seen.\<close>

fun distinct_loop ::
  "nat \<Rightarrow> ('p \<Rightarrow> 'v extract_result) \<Rightarrow> 'p store \<Rightarrow> bloop list \<Rightarrow> 'v list \<Rightarrow> uuid list \<Rightarrow>
   ('v list \<times> uuid list) option" where
  "distinct_loop n E st [] seen player_ids = Some (seen, player_ids)"
| "distinct_loop n E st (b # bs) seen player_ids =
     (if player_id b \<in> set player_ids then None
      else
        (let player_ids = player_ids @ [player_id b];
             continue = (\<lambda>seen. if length seen \<ge> n then Some (seen, player_ids)
                                 else distinct_loop n E st bs seen player_ids)
         in case E (st ! player b) of
              Single v \<Rightarrow> continue (List.insert v seen)
            | Multiple vs \<Rightarrow> continue (fold List.insert vs seen)
            | Abort \<Rightarrow> None))"

definition distinct_values_evaluate ::
  "('p, 's, 'n, 't, 'c, 'v) distinct_values_evaluator \<Rightarrow> ('p, 's, 'n, 't) evaluator" where
  "distinct_values_evaluate ev ctx =
     (let derived = derived_as_ref (dv_derive_ctx ev ctx);
          player_ids = [player_id (current_bloop ctx)];
          bs = recent_client_bloops ctx (dv_max_window ev) (dv_min_required ev)
      in (case distinct_loop (dv_min_required ev) (\<lambda>p. extractor ev p derived) (ctx_players ctx) bs [] player_ids of
            None \<Rightarrow> NoAward
          | Some (seen, player_ids) \<Rightarrow>
              if length seen < dv_min_required ev then NoAward
              else award_by_mode (dv_award_mode ev) player_ids, ctx))"

section \<open>Spelling bee\<close>

datatype spelling_error = UnregisteredCharacter char | WordTooShort | WordTooLong

record spelling_bee_evaluator =
  client_ids :: "client_id list"
  max_time :: duration

text \<open>The largest \<open>Duration\<close> in nanoseconds: \<open>checked_mul\<close> fails beyond it.\<close>

definition max_duration :: nat where
  "max_duration = 2 ^ 64 * 1000000000 - 1"

fun spelling_clients ::
  "string \<Rightarrow> (char \<rightharpoonup> client_id) \<Rightarrow> client_id list \<Rightarrow> spelling_error + client_id list" where
  "spelling_clients [] characters ids = Inr ids"
| "spelling_clients (c # cs) characters ids =
     (case characters c of
        None \<Rightarrow> Inl (UnregisteredCharacter c)
      | Some cid \<Rightarrow> spelling_clients cs characters (ids @ [cid]))"

text \<open>Characters are the 8-bit characters of HOL, the code points below 256; \<open>word.len()\<close> is the length of
  the UTF-8 encoding, two bytes for each of the upper half.\<close>

definition utf8_len :: "string \<Rightarrow> nat" where
  "utf8_len word = sum_list (map (\<lambda>c. if (of_char c :: nat) < 128 then 1 else 2) word)"

definition spelling_bee_new ::
  "string \<Rightarrow> (char \<rightharpoonup> client_id) \<Rightarrow> duration \<Rightarrow> spelling_error + spelling_bee_evaluator" where
  "spelling_bee_new word characters time_per_character =
     (if word = [] then Inl WordTooShort
      else if utf8_len word > 100 then Inl WordTooLong
      else
        try_bind (if time_per_character * utf8_len word > max_duration then Inl WordTooLong
                  else Inr (time_per_character * utf8_len word)) (\<lambda>max_t.
        try_bind (spelling_clients (rev word) characters []) (\<lambda>ids.
          Inr \<lparr>client_ids = ids, max_time = max_t\<rparr>)))"

text \<open>\<open>first().unwrap()\<close> panics for an evaluator without clients: \<open>None\<close>.\<close>

definition spelling_bee_matches ::
  "spelling_bee_evaluator \<Rightarrow> ('p, 's, 'n, 't) achievement_context \<Rightarrow> bool option" where
  "spelling_bee_matches ev ctx =
     (case client_ids ev of
        [] \<Rightarrow> None
      | first # rest \<Rightarrow>
          if client_id (current_bloop ctx) \<noteq> first then Some False
          else
            (let last_client_ids = map client_id (take (length (client_ids ev) - 1)
                   (filter (filter_current_player ctx)
                     (filter (filter_within_window ctx (max_time ev)) (global_bloops ctx))))
             in Some (last_client_ids = rest)))"

text \<open>As an evaluator, with a panic taken as no award; \<open>spelling_bee_new\<close> makes none that panics.\<close>

definition spelling_bee_evaluate :: "spelling_bee_evaluator \<Rightarrow> ('p, 's, 'n, 't) evaluator" where
  "spelling_bee_evaluate ev ctx =
     (eval_result_from_bool (spelling_bee_matches ev ctx = Some True), ctx)"

section \<open>The evaluators keep the engine's contract\<close>

interpretation min_bloops: result_evaluator "min_bloops_evaluate ops ev" for ops ev
  by unfold_locales (simp_all add: min_bloops_evaluate_def)

interpretation trigger: result_evaluator "trigger_evaluate ev" for ev
proof (unfold_locales, goal_cases)
  case (1 ctx)
  have "snd (trigger_evaluate ev ctx) = snd (has_trigger (evaluator_trigger ev) ctx)"
    by (simp add: trigger_evaluate_def Let_def split: prod.split)
  then show ?case by (simp add: ctx_step.trigger r_into_rtranclp)
next
  case (2 ctx)
  have "snd (trigger_evaluate ev ctx) = snd (has_trigger (evaluator_trigger ev) ctx)"
    by (simp add: trigger_evaluate_def Let_def split: prod.split)
  then show ?case by (simp add: has_trigger_snd)
qed

interpretation streak: result_evaluator "streak_evaluate ev" for ev
  by unfold_locales (simp_all add: streak_evaluate_def Let_def)

interpretation distinct_values: result_evaluator "distinct_values_evaluate ev" for ev
  by unfold_locales (simp_all add: distinct_values_evaluate_def Let_def)

interpretation spelling_bee: result_evaluator "spelling_bee_evaluate ev" for ev
  by unfold_locales (simp_all add: spelling_bee_evaluate_def)

section \<open>The loops\<close>

lemma streak_loop_eq:
  assumes "distinct ids"
  shows "streak_loop P st bs ids =
    (if distinct (ids @ map player_id bs) \<and> list_all (\<lambda>b. P (st ! player b)) bs
     then Some (ids @ map player_id bs) else None)"
  using assms by (induction P st bs ids rule: streak_loop.induct) auto

definition values_of :: "'v extract_result \<Rightarrow> 'v set" where
  "values_of r = (case r of Single v \<Rightarrow> {v} | Multiple vs \<Rightarrow> set vs | Abort \<Rightarrow> {})"

definition seen_values :: "('p \<Rightarrow> 'v extract_result) \<Rightarrow> 'p store \<Rightarrow> bloop list \<Rightarrow> 'v set" where
  "seen_values E st bs = (\<Union>b \<in> set bs. values_of (E (st ! player b)))"

definition usable :: "('p \<Rightarrow> 'v extract_result) \<Rightarrow> 'p store \<Rightarrow> uuid list \<Rightarrow> bloop list \<Rightarrow> bool" where
  "usable E st ids bs \<longleftrightarrow>
     distinct (ids @ map player_id bs) \<and> list_all (\<lambda>b. E (st ! player b) \<noteq> Abort) bs"

lemma distinct_fold_insert: "distinct seen \<Longrightarrow> distinct (fold List.insert vs seen)"
  by (induction vs arbitrary: seen) simp_all

lemma set_fold_insert: "set (fold List.insert vs seen) = set seen \<union> set vs"
  by (induction vs arbitrary: seen) auto

text \<open>A step of the loop that neither meets a known player nor aborts.\<close>

lemma distinct_loop_step:
  assumes "player_id b \<notin> set ids" "E (st ! player b) \<noteq> Abort" "distinct seen"
  obtains seen' where "distinct seen'" "set seen' = set seen \<union> values_of (E (st ! player b))"
    "distinct_loop n E st (b # bs) seen ids =
       (if length seen' \<ge> n then Some (seen', ids @ [player_id b])
        else distinct_loop n E st bs seen' (ids @ [player_id b]))"
proof (cases "E (st ! player b)")
  case (Single v)
  with assms that [of "List.insert v seen"] show ?thesis by (simp add: values_of_def)
next
  case (Multiple vs)
  with assms that [of "fold List.insert vs seen"] show ?thesis
    by (simp add: values_of_def distinct_fold_insert set_fold_insert)
qed (use assms in simp)

lemma seen_values_Cons [simp]:
  "seen_values E st (b # bs) = values_of (E (st ! player b)) \<union> seen_values E st bs"
  "seen_values E st [] = {}"
  by (simp_all add: seen_values_def)

lemma finite_seen_values [simp]: "finite (seen_values E st bs)"
  by (auto simp: seen_values_def values_of_def split: extract_result.split)

text \<open>A prefix of the bloops that the loop can walk through and that has enough values.\<close>

definition enough ::
  "nat \<Rightarrow> ('p \<Rightarrow> 'v extract_result) \<Rightarrow> 'p store \<Rightarrow> uuid list \<Rightarrow> 'v set \<Rightarrow> bloop list \<Rightarrow> nat \<Rightarrow> bool" where
  "enough n E st ids seen bs k \<longleftrightarrow>
     usable E st ids (take k bs) \<and> n \<le> card (seen \<union> seen_values E st (take k bs))"

lemma find_map: "find P (map f xs) = map_option f (find (P \<circ> f) xs)"
  by (induction xs) simp_all

lemma upt_0_Suc: "[0..<Suc n] = 0 # map Suc [0..<n]"
  by (simp add: map_Suc_upt upt_conv_Cons del: upt_Suc)

lemma enough_Suc_unusable:
  assumes "player_id b \<in> set ids \<or> E (st ! player b) = Abort"
  shows "\<not> enough n E st ids seen (b # bs) (Suc k)"
  using assms by (auto simp: enough_def usable_def)

lemma enough_Suc_usable:
  assumes "player_id b \<notin> set ids" "E (st ! player b) \<noteq> Abort" "set seen' = seen \<union> values_of (E (st ! player b))"
  shows "enough n E st ids seen (b # bs) (Suc k) \<longleftrightarrow> enough n E st (ids @ [player_id b]) (set seen') bs k"
  using assms by (auto simp: enough_def usable_def Un_assoc)

text \<open>The loop succeeds with the players of the shortest prefix that has enough values.\<close>

lemma distinct_loop_first:
  assumes "distinct ids" "distinct seen" "length seen < n"
  shows "(case distinct_loop n E st bs seen ids of
            None \<Rightarrow> None | Some (seen', ids') \<Rightarrow> if length seen' < n then None else Some ids') =
    map_option (\<lambda>k. ids @ map player_id (take k bs)) (find (enough n E st ids (set seen) bs) [0..<Suc (length bs)])"
  using assms
proof (induction bs arbitrary: seen ids)
  case Nil
  then show ?case by (simp add: enough_def distinct_card)
next
  case (Cons b bs)
  have none: "\<not> enough n E st ids (set seen) (b # bs) 0"
    using Cons.prems by (simp add: enough_def distinct_card)
  have shift: "find (enough n E st ids (set seen) (b # bs)) [0..<Suc (length (b # bs))] =
      map_option Suc (find (enough n E st ids (set seen) (b # bs) \<circ> Suc) [0..<Suc (length bs)])"
    unfolding upt_0_Suc [of "length (b # bs)"] using none by (simp add: find_map del: upt_Suc)
  show ?case
  proof (cases "player_id b \<in> set ids \<or> E (st ! player b) = Abort")
    case True
    then have "find (enough n E st ids (set seen) (b # bs) \<circ> Suc) [0..<Suc (length bs)] = None"
      using enough_Suc_unusable by (fastforce simp: find_None_iff)
    with True shift show ?thesis by (auto split: extract_result.split)
  next
    case False
    from distinct_loop_step [of b ids E st seen n bs] False Cons.prems(2)
    obtain seen' where seen': "distinct seen'" "set seen' = set seen \<union> values_of (E (st ! player b))"
      "distinct_loop n E st (b # bs) seen ids =
         (if length seen' \<ge> n then Some (seen', ids @ [player_id b])
          else distinct_loop n E st bs seen' (ids @ [player_id b]))" by metis
    have ids: "distinct (ids @ [player_id b])" using False Cons.prems(1) by simp
    have "enough n E st ids (set seen) (b # bs) \<circ> Suc = enough n E st (ids @ [player_id b]) (set seen') bs"
      using False enough_Suc_usable [where seen' = seen' and seen = "set seen" and b = b and E = E and st = st] seen'(2)
      by (auto simp: fun_eq_iff)
    note shift = shift [unfolded this]
    show ?thesis
    proof (cases "length seen' \<ge> n")
      case True
      have "enough n E st (ids @ [player_id b]) (set seen') bs 0"
        using True ids seen'(1) by (simp add: enough_def usable_def distinct_card)
      then have "find (enough n E st (ids @ [player_id b]) (set seen') bs) [0..<Suc (length bs)] = Some 0"
        by (simp add: upt_0_Suc del: upt_Suc)
      with True seen'(3) show ?thesis unfolding shift by simp
    next
      case short: False
      with Cons.IH [OF ids seen'(1)] seen'(3) show ?thesis
        unfolding shift by (simp add: option.map_comp o_def del: upt_Suc)
    qed
  qed
qed

lemma spelling_clients_eq:
  "spelling_clients cs characters ids =
     (case find (\<lambda>c. characters c = None) cs of
        Some c \<Rightarrow> Inl (UnregisteredCharacter c)
      | None \<Rightarrow> Inr (ids @ map (\<lambda>c. the (characters c)) cs))"
  by (induction cs characters ids rule: spelling_clients.induct) (auto split: option.splits)

lemma map_the_rev:
  assumes "\<forall>c \<in> set w. f c \<noteq> None"
  shows "map (\<lambda>c. the (f c)) (rev w) = xs \<longleftrightarrow> map f w = map Some (rev xs)"
proof -
  have f: "map f w = map Some (map (\<lambda>c. the (f c)) w)" using assms by auto
  have "map (\<lambda>c. the (f c)) (rev w) = xs \<longleftrightarrow> map (\<lambda>c. the (f c)) w = rev xs"
    by (simp add: rev_map [symmetric] rev_swap)
  also have "\<dots> \<longleftrightarrow> map Some (map (\<lambda>c. the (f c)) w) = map Some (rev xs)"
    by (rule inj_map_eq_map [symmetric]) simp
  finally show ?thesis by (simp only: f)
qed

section \<open>Properties\<close>

text \<open>C34: The streak evaluator awards exactly when the client's last \<open>min_required\<close> bloops within the window
  exist, are by pairwise different players who also differ from the current one, and all satisfy the
  predicate; it then awards the current player or, in mode \<open>All\<close>, the current player and those.\<close>

theorem streak_awards_iff:
  "(let n = min_required ev; current = player_id (current_bloop ctx);
        recent = filter (\<lambda>b. recorded_at (current_bloop ctx) - int (max_window ev) \<le> recorded_at b) (client_bloops ctx);
        streak = take n recent
    in streak_evaluate ev ctx =
       (if n \<le> length recent \<and> distinct (current # map player_id streak) \<and>
           list_all (\<lambda>b. predicate ev (ctx_players ctx ! player b) (derived_as_ref (derive_ctx ev ctx))) streak
        then (case streak_mode ev of Current \<Rightarrow> AwardSelf | All \<Rightarrow> AwardMultiple (current # map player_id streak))
        else NoAward, ctx))"
proof -
  have "recent_client_bloops ctx (max_window ev) (min_required ev) = take (min_required ev)
      (filter (\<lambda>b. recorded_at (current_bloop ctx) - int (max_window ev) \<le> recorded_at b) (client_bloops ctx))"
    by (simp add: recent_client_bloops_def filter_within_window_def bloops_since_def)
  then show ?thesis
    by (auto simp: streak_evaluate_def Let_def streak_loop_eq award_by_mode_def)
qed

text \<open>C35: The distinct-values evaluator looks at the client's last \<open>min_required\<close> bloops within the window. It
  awards exactly when some prefix of them has \<open>min_required\<close> distinct values, is by pairwise different
  players who also differ from the current one, and has no bloop that aborts. In mode \<open>All\<close> it then awards
  the current player and the players of the shortest such prefix, in mode \<open>Current\<close> the current player; with
  \<open>min_required\<close> zero the prefix is empty. The context does not change.\<close>

theorem distinct_values_awards_iff:
  "(let n = dv_min_required ev; current = player_id (current_bloop ctx);
        E = (\<lambda>p. extractor ev p (derived_as_ref (dv_derive_ctx ev ctx)));
        recent = take n (filter (\<lambda>b. recorded_at (current_bloop ctx) - int (dv_max_window ev) \<le> recorded_at b) (client_bloops ctx));
        good = (\<lambda>bs. distinct (current # map player_id bs) \<and> (\<forall>b \<in> set bs. E (ctx_players ctx ! player b) \<noteq> Abort) \<and>
                  n \<le> card (\<Union>b \<in> set bs. values_of (E (ctx_players ctx ! player b))))
    in distinct_values_evaluate ev ctx =
       (case find (\<lambda>k. good (take k recent)) [0..<Suc (length recent)] of
          None \<Rightarrow> NoAward
        | Some k \<Rightarrow>
            (case dv_award_mode ev of
               Current \<Rightarrow> AwardSelf
             | All \<Rightarrow> AwardMultiple (current # map player_id (take k recent))), ctx))"
proof -
  let ?n = "dv_min_required ev" and ?current = "player_id (current_bloop ctx)"
  let ?E = "\<lambda>p. extractor ev p (derived_as_ref (dv_derive_ctx ev ctx))"
  let ?recent = "recent_client_bloops ctx (dv_max_window ev) ?n"
  let ?loop = "case distinct_loop ?n ?E (ctx_players ctx) ?recent [] [?current] of
      None \<Rightarrow> None | Some (seen', ids') \<Rightarrow> if length seen' < ?n then None else Some ids'"
  have recent: "take ?n (filter (\<lambda>b. recorded_at (current_bloop ctx) - int (dv_max_window ev) \<le> recorded_at b)
      (client_bloops ctx)) = ?recent"
    by (simp add: recent_client_bloops_def filter_within_window_def bloops_since_def)
  have res: "distinct_values_evaluate ev ctx =
      (case ?loop of None \<Rightarrow> NoAward | Some ids \<Rightarrow> award_by_mode (dv_award_mode ev) ids, ctx)"
    by (simp add: distinct_values_evaluate_def Let_def split: option.split)
  have good: "enough ?n ?E (ctx_players ctx) [?current] {} ?recent =
      (\<lambda>k. distinct (?current # map player_id (take k ?recent)) \<and>
        (\<forall>b \<in> set (take k ?recent). ?E (ctx_players ctx ! player b) \<noteq> Abort) \<and>
        ?n \<le> card (\<Union>b \<in> set (take k ?recent). values_of (?E (ctx_players ctx ! player b))))"
    by (rule ext) (simp only: enough_def usable_def seen_values_def list_all_iff append_Cons append_Nil Un_empty_left conj_assoc)
  have loop: "?loop = map_option (\<lambda>k. ?current # map player_id (take k ?recent))
      (find (enough ?n ?E (ctx_players ctx) [?current] {} ?recent) [0..<Suc (length ?recent)])"
  proof (cases "?n = 0")
    case True
    then have "?recent = []" by (simp add: recent_client_bloops_def)
    with True show ?thesis by (simp add: enough_def usable_def)
  next
    case False
    then show ?thesis using distinct_loop_first [of "[?current]" "[]" ?n ?E "ctx_players ctx" ?recent] by simp
  qed
  show ?thesis
    unfolding Let_def recent res loop good [symmetric]
    by (simp add: award_by_mode_def split: option.split award_mode.split)
qed

definition demo_history :: bloop_provider where
  "demo_history = provider_with_bloops 1000 [demo_bloop 2 ''c'' 40, demo_bloop 1 ''d'' 30]"

definition demo_distinct :: "(nat mock_player, unit, nat, nat, unit, nat) distinct_values_evaluator" where
  "demo_distinct = distinct_build
     (distinct_award_all (distinct_max_window 100 (distinct_min_required 1 distinct_builder_new)))
     (\<lambda>p. Single (mock_nfc_uid p))"

lemma demo_client_bloops:
  "client_bloops (demo_ctx demo_history (demo_bloop 1 ''c'' 50)) = [demo_bloop 2 ''c'' 40]"
  by (simp add: client_bloops_def demo_ctx_def context_new_def demo_history_def for_client_with_bloops
      demo_bloop_def of_client_def)

theorem distinct_values_awards_iff_witness:
  "fst (distinct_values_evaluate demo_distinct (demo_ctx demo_history (demo_bloop 1 ''c'' 50))) = AwardMultiple [1, 2]"
proof -
  let ?ctx = "demo_ctx demo_history (demo_bloop 1 ''c'' 50)"
  have ctx: "current_bloop ?ctx = demo_bloop 1 ''c'' 50"
    by (simp add: demo_ctx_def context_new_def)
  have bloops: "player_id (demo_bloop i c t) = i" "recorded_at (demo_bloop i c t) = t" for i c t
    by (simp_all add: demo_bloop_def)
  have ev: "dv_min_required demo_distinct = 1" "dv_max_window demo_distinct = 100" "dv_award_mode demo_distinct = All"
    "extractor demo_distinct = (\<lambda>p _. Single (mock_nfc_uid p))"
    by (simp_all add: demo_distinct_def distinct_build_def distinct_award_all_def distinct_min_required_def
        distinct_max_window_def distinct_builder_new_def)
  show ?thesis
    using distinct_values_awards_iff [of demo_distinct ?ctx]
    by (simp add: ev ctx bloops demo_client_bloops values_of_def Let_def)
qed

text \<open>A spelling bee evaluator can be built exactly for a non-empty word of at most 100 bytes, a total time
  that fits a \<open>Duration\<close> and registered characters; it never panics, and it is satisfied exactly when
  the clients of the player's last bloops within the window, oldest first and ending with the
  current one, are the clients of the word's characters.\<close>

theorem spelling_bee_spells_word:
  assumes "spelling_bee_new word characters t = Inr ev"
  shows "(let own = filter (\<lambda>b. recorded_at (current_bloop ctx) - int (t * utf8_len word) \<le> recorded_at b \<and>
                 player_id b = player_id (current_bloop ctx)) (global_bloops ctx)
          in spelling_bee_matches ev ctx =
             Some (map characters word =
                   map Some (rev (client_id (current_bloop ctx) # map client_id (take (length word - 1) own))))) \<and>
    word \<noteq> [] \<and> utf8_len word \<le> 100 \<and> (\<forall>c \<in> set word. characters c \<noteq> None)"
proof -
  from assms have ok: "word \<noteq> []" "utf8_len word \<le> 100" "max_time ev = t * utf8_len word"
    and none: "find (\<lambda>c. characters c = None) (rev word) = None"
    and ids: "client_ids ev = map (\<lambda>c. the (characters c)) (rev word)"
    by (auto simp: spelling_bee_new_def try_bind_Inr spelling_clients_eq split: if_splits option.splits)
  from none have reg: "\<forall>c \<in> set word. characters c \<noteq> None" by (auto simp: find_None_iff)
  let ?own = "filter (\<lambda>b. recorded_at (current_bloop ctx) - int (t * utf8_len word) \<le> recorded_at b \<and>
      player_id b = player_id (current_bloop ctx)) (global_bloops ctx)"
  let ?clients = "client_id (current_bloop ctx) # map client_id (take (length word - 1) ?own)"
  have own: "filter (filter_current_player ctx) (filter (filter_within_window ctx (max_time ev)) (global_bloops ctx)) = ?own"
    by (simp add: filter_current_player_def filter_within_window_def bloops_since_def bloops_for_player_def ok)
  have "rev word \<noteq> []" using ok by simp
  then obtain c cs where w: "rev word = c # cs" by (cases "rev word") auto
  then have len: "length (client_ids ev) - 1 = length word - 1" by (simp add: ids)
  have "spelling_bee_matches ev ctx = Some (map (\<lambda>c. the (characters c)) (rev word) = ?clients)"
    unfolding spelling_bee_matches_def own len Let_def by (auto simp: ids w)
  also have "map (\<lambda>c. the (characters c)) (rev word) = ?clients \<longleftrightarrow> map characters word = map Some (rev ?clients)"
    by (rule map_the_rev [OF reg])
  finally show ?thesis using ok reg by (simp add: Let_def)
qed

theorem spelling_bee_spells_word_witness:
  "\<exists>ev. spelling_bee_new ''hi'' [CHR ''h'' \<mapsto> ''c'', CHR ''i'' \<mapsto> ''d''] 30 = Inr ev \<and>
     spelling_bee_matches ev (demo_ctx (provider_with_bloops 1000 [demo_bloop 1 ''c'' 40]) (demo_bloop 1 ''d'' 50)) = Some True"
proof -
  obtain ev where ev: "spelling_bee_new ''hi'' [CHR ''h'' \<mapsto> ''c'', CHR ''i'' \<mapsto> ''d''] 30 = Inr ev"
    by (simp add: spelling_bee_new_def utf8_len_def max_duration_def)
  with spelling_bee_spells_word [OF ev, of "demo_ctx (provider_with_bloops 1000 [demo_bloop 1 ''c'' 40]) (demo_bloop 1 ''d'' 50)"]
  show ?thesis
    by (auto simp: Let_def global_bloops_def demo_ctx_def context_new_def provider_with_bloops_def
        demo_bloop_def utf8_len_def)
qed

end
