(* ===== verification/Time_Evaluator.thy ===== *)
theory Time_Evaluator
  imports Evaluators
begin

text \<open>
  The time evaluator (\<open>src/src/evaluator/time.rs\<close>). Time zones are those of chrono-tz: a zone is a
  record of the operations the sources call: the local hour, minute and date (in days since the
  epoch) of an instant, and the instants of the same local day at a given time of day. \<open>fixed_offset\<close> is the concrete zone with a
  constant offset from UTC.
\<close>

datatype local_result = LocalSingle datetime | LocalAmbiguous datetime datetime | LocalNone

record timezone =
  hour_of :: "datetime \<Rightarrow> nat"
  minute_of :: "datetime \<Rightarrow> nat"
  date_of :: "datetime \<Rightarrow> int"
  with_time :: "datetime \<Rightarrow> nat \<times> nat \<times> nat \<Rightarrow> local_result"

record time_evaluator =
  te_hour :: "nat option"
  te_minute :: "nat option"
  leeway :: duration

datatype time_error = InvalidHour nat | InvalidMinute nat

definition time_evaluator_new ::
  "nat option \<Rightarrow> nat option \<Rightarrow> duration option \<Rightarrow> time_error + time_evaluator" where
  "time_evaluator_new h m lw =
     (if (case h of Some hour \<Rightarrow> hour > 23 | None \<Rightarrow> False) then Inl (InvalidHour (the h))
      else if (case m of Some minute \<Rightarrow> minute > 59 | None \<Rightarrow> False) then Inl (InvalidMinute (the m))
      else Inr \<lparr>te_hour = h, te_minute = m, leeway = (case lw of None \<Rightarrow> 0 | Some d \<Rightarrow> d)\<rparr>)"

abbreviation minute_ns :: int where "minute_ns \<equiv> 60 * 1000000000"
abbreviation hour_ns :: int where "hour_ns \<equiv> 60 * 60 * 1000000000"
abbreviation day_ns :: int where "day_ns \<equiv> 24 * 60 * 60 * 1000000000"

definition from_hms_opt :: "nat \<Rightarrow> nat \<Rightarrow> nat \<Rightarrow> (nat \<times> nat \<times> nat) option" where
  "from_hms_opt h m s = (if h < 24 \<and> m < 60 \<and> s < 60 then Some (h, m, s) else None)"

text \<open>\<open>from_hms_opt(..).unwrap()\<close> panics outside the day: \<open>None\<close>.\<close>

definition time_matches :: "timezone \<Rightarrow> time_evaluator \<Rightarrow> datetime \<Rightarrow> bool option" where
  "time_matches tz ev now =
     (let hour = (case te_hour ev of None \<Rightarrow> hour_of tz now | Some h \<Rightarrow> h);
          minute = (case te_minute ev of None \<Rightarrow> minute_of tz now | Some m \<Rightarrow> m);
          width = (if te_minute ev \<noteq> None then minute_ns else hour_ns)
      in case from_hms_opt hour minute 0 of
           None \<Rightarrow> None
         | Some t \<Rightarrow>
             (case with_time tz now t of
                LocalSingle target \<Rightarrow>
                  Some (now \<ge> target \<and> now < target + width + int (leeway ev))
              | LocalAmbiguous earliest latest \<Rightarrow>
                  Some (now \<ge> earliest \<and> now < latest + width + int (leeway ev))
              | LocalNone \<Rightarrow> Some False))"

definition time_evaluate :: "timezone \<Rightarrow> time_evaluator \<Rightarrow> ('p, 's, 'n, 't) evaluator" where
  "time_evaluate tz ev ctx =
     (eval_result_from_bool (time_matches tz ev (recorded_at (current_bloop ctx)) = Some True), ctx)"

interpretation time: result_evaluator "time_evaluate tz ev" for tz ev
  by unfold_locales (simp_all add: time_evaluate_def)

section \<open>Zones with a constant offset\<close>

definition fixed_offset :: "int \<Rightarrow> timezone" where
  "fixed_offset off =
     \<lparr>hour_of = (\<lambda>t. nat (((t + off) mod day_ns) div hour_ns)),
      minute_of = (\<lambda>t. nat (((t + off) mod hour_ns) div minute_ns)),
      date_of = (\<lambda>t. (t + off) div day_ns),
      with_time = (\<lambda>t (h, m, s). LocalSingle
        ((t + off) div day_ns * day_ns + int h * hour_ns + int m * minute_ns + int s * 1000000000 - off))\<rparr>"

text \<open>The local time of day of an instant, in nanoseconds since midnight.\<close>

definition time_of_day :: "int \<Rightarrow> datetime \<Rightarrow> int" where
  "time_of_day off t = (t + off) mod day_ns"

lemma time_of_day_bounds: "0 \<le> time_of_day off t" "time_of_day off t < day_ns"
  by (simp_all add: time_of_day_def)

lemma fixed_offset_hour: "hour_of (fixed_offset off) t = nat (time_of_day off t div hour_ns)"
  by (simp add: fixed_offset_def time_of_day_def)

lemma fixed_offset_minute: "minute_of (fixed_offset off) t = nat (time_of_day off t mod hour_ns div minute_ns)"
proof -
  have "(t + off) mod hour_ns = time_of_day off t mod hour_ns"
    unfolding time_of_day_def by (rule mod_mod_cancel [symmetric], rule dvdI [of _ _ 24]) simp
  then show ?thesis by (simp add: fixed_offset_def)
qed

lemma fixed_offset_ranges: "hour_of (fixed_offset off) t < 24" "minute_of (fixed_offset off) t < 60"
proof -
  have "time_of_day off t div hour_ns < 24"
    using time_of_day_bounds [of off t] by (simp add: div_less_iff_less_mult)
  then show "hour_of (fixed_offset off) t < 24" by (simp add: fixed_offset_hour)
  have "time_of_day off t mod hour_ns < hour_ns" by simp
  then have "time_of_day off t mod hour_ns div minute_ns < 60" by (simp add: div_less_iff_less_mult)
  then show "minute_of (fixed_offset off) t < 60" by (simp add: fixed_offset_minute)
qed

lemma fixed_offset_with_time:
  "with_time (fixed_offset off) t (h, m, 0) =
     LocalSingle (t - time_of_day off t + int h * hour_ns + int m * minute_ns)"
proof -
  have "(t + off) div day_ns * day_ns = t + off - (t + off) mod day_ns"
    by (simp add: minus_mod_eq_div_mult)
  then show ?thesis by (simp add: fixed_offset_def time_of_day_def)
qed

lemma time_matches_fixed:
  fixes off :: int and t :: datetime
  assumes "time_evaluator_new h m lw = Inr ev"
  defines "hour \<equiv> case h of None \<Rightarrow> hour_of (fixed_offset off) t | Some x \<Rightarrow> x"
    and "minute \<equiv> case m of None \<Rightarrow> minute_of (fixed_offset off) t | Some x \<Rightarrow> x"
  shows "time_matches (fixed_offset off) ev t =
    Some (int hour * hour_ns + int minute * minute_ns \<le> time_of_day off t \<and>
          time_of_day off t < int hour * hour_ns + int minute * minute_ns +
            (if m \<noteq> None then minute_ns else hour_ns) + int (case lw of None \<Rightarrow> 0 | Some d \<Rightarrow> d))"
proof -
  have ev: "te_hour ev = h" "te_minute ev = m" "leeway ev = (case lw of None \<Rightarrow> 0 | Some d \<Rightarrow> d)"
    and range: "hour < 24" "minute < 60"
    using assms(1) fixed_offset_ranges [of off t]
    by (auto simp: time_evaluator_new_def hour_def minute_def split: if_splits option.splits)
  then have "from_hms_opt hour minute 0 = Some (hour, minute, 0)" by (simp add: from_hms_opt_def)
  then show ?thesis
    unfolding time_matches_def ev hour_def [symmetric] minute_def [symmetric] Let_def
    by (simp add: fixed_offset_with_time) linarith
qed

section \<open>Properties\<close>

text \<open>In a zone with a constant offset, an evaluator with an hour and a minute matches exactly from that
  time of day for one minute plus the leeway (on the same day), and one with an hour and no leeway
  matches exactly during that hour; neither can panic.\<close>

theorem time_evaluator_fixed_offset:
  assumes "time_evaluator_new (Some h) (Some m) (Some lw) = Inr ev"
    and "time_evaluator_new (Some h) None None = Inr ev'"
  shows "(let start = int h * hour_ns + int m * minute_ns
          in time_matches (fixed_offset off) ev t =
               Some (start \<le> time_of_day off t \<and> time_of_day off t < start + minute_ns + int lw)) \<and>
    time_matches (fixed_offset off) ev' t = Some (hour_of (fixed_offset off) t = h)"
proof -
  let ?d = "time_of_day off t" and ?min = "minute_of (fixed_offset off) t"
  have "?d = ?d div hour_ns * hour_ns + ?d mod hour_ns" by simp
  moreover have "?d mod hour_ns = int ?min * minute_ns + ?d mod hour_ns mod minute_ns"
    by (simp add: fixed_offset_minute)
  moreover have "0 \<le> ?d mod hour_ns mod minute_ns" "?d mod hour_ns mod minute_ns < minute_ns" "int ?min < 60"
    using fixed_offset_ranges(2) [of off t] by simp_all
  moreover have "int (hour_of (fixed_offset off) t) = ?d div hour_ns"
    using time_of_day_bounds(1) [of off t] by (simp add: fixed_offset_hour pos_imp_zdiv_nonneg_iff)
  ultimately have "int h * hour_ns + int ?min * minute_ns \<le> ?d \<and>
      ?d < int h * hour_ns + int ?min * minute_ns + hour_ns \<longleftrightarrow> hour_of (fixed_offset off) t = h"
    by linarith
  then show ?thesis
    using time_matches_fixed [OF assms(1), of off t] time_matches_fixed [OF assms(2), of off t]
    by (simp add: Let_def)
qed

theorem time_evaluator_fixed_offset_witness:
  "\<exists>ev. time_evaluator_new (Some 12) (Some 30) (Some 0) = Inr ev \<and>
     time_matches (fixed_offset 0) ev (12 * hour_ns + 30 * minute_ns + 5) = Some True"
proof -
  obtain ev ev' where ev: "time_evaluator_new (Some 12) (Some 30) (Some 0) = Inr ev"
    and ev': "time_evaluator_new (Some 12) None None = Inr ev'"
    by (simp add: time_evaluator_new_def)
  from time_evaluator_fixed_offset [OF ev ev', of 0 "12 * hour_ns + 30 * minute_ns + 5"]
  show ?thesis using ev by (auto simp: time_of_day_def)
qed

text \<open>C36: In a zone with a constant offset, an evaluator with an hour and no minute takes the missing minute
  from the bloop itself, so that its window moves along with the bloop: it matches a bloop made \<open>k\<close> hours
  after the configured hour on the same local day, whatever the minute, exactly when \<open>k\<close> hours and the
  seconds of the bloop's minute are less than an hour and the leeway together. With a leeway of a minute
  or more it therefore matches during the whole following hour (if the configured hour is not the last of the
  day). The documentation says that the hour has to be equal and that the window, which starts at the configured
  hour, extends by the leeway.\<close>

theorem hour_with_leeway_matches_next_hour:
  assumes "time_evaluator_new (Some h) None (Some lw) = Inr ev"
  shows "(let k = int (hour_of (fixed_offset off) t) - int h; seconds = time_of_day off t mod minute_ns
          in time_matches (fixed_offset off) ev t = Some (0 \<le> k \<and> k * hour_ns + seconds < hour_ns + int lw)) \<and>
    (from_secs 60 \<le> lw \<and> hour_of (fixed_offset off) t = h + 1 \<longrightarrow> time_matches (fixed_offset off) ev t = Some True)"
proof -
  let ?d = "time_of_day off t" and ?hour = "hour_of (fixed_offset off) t" and ?min = "minute_of (fixed_offset off) t"
  have "?d = ?d div hour_ns * hour_ns + ?d mod hour_ns" by simp
  moreover have "?d mod hour_ns = int ?min * minute_ns + ?d mod hour_ns mod minute_ns"
    by (simp add: fixed_offset_minute)
  moreover have sec: "?d mod hour_ns mod minute_ns = ?d mod minute_ns"
    by (rule mod_mod_cancel, rule dvdI [of _ _ 60]) simp
  moreover have bounds: "0 \<le> ?d mod minute_ns" "?d mod minute_ns < minute_ns" by simp_all
  moreover have "int ?hour = ?d div hour_ns"
    using time_of_day_bounds(1) [of off t] by (simp add: fixed_offset_hour pos_imp_zdiv_nonneg_iff)
  ultimately have d: "?d = int ?hour * hour_ns + int ?min * minute_ns + ?d mod minute_ns" by linarith
  have "int h * hour_ns + int ?min * minute_ns \<le> ?d \<longleftrightarrow> 0 \<le> int ?hour - int h"
    using d bounds by linarith
  moreover have "?d < int h * hour_ns + int ?min * minute_ns + hour_ns + int lw \<longleftrightarrow>
      (int ?hour - int h) * hour_ns + ?d mod minute_ns < hour_ns + int lw"
    using d by (simp add: left_diff_distrib) linarith
  ultimately have iff: "time_matches (fixed_offset off) ev t =
      Some (0 \<le> int ?hour - int h \<and> (int ?hour - int h) * hour_ns + ?d mod minute_ns < hour_ns + int lw)"
    using time_matches_fixed [OF assms, of off t] by simp
  have "time_matches (fixed_offset off) ev t = Some True" if "from_secs 60 \<le> lw" "?hour = h + 1"
  proof -
    have "minute_ns \<le> int lw" using that(1) by linarith
    with bounds(2) that(2) show ?thesis by (simp add: iff)
  qed
  with iff show ?thesis by (simp add: Let_def)
qed

theorem hour_with_leeway_matches_next_hour_witness:
  "\<exists>ev. time_evaluator_new (Some 12) None (Some (from_secs 60)) = Inr ev \<and>
     time_matches (fixed_offset 0) ev (13 * hour_ns + 45 * minute_ns) = Some True \<and>
     time_matches (fixed_offset 0) ev (14 * hour_ns + 45 * minute_ns) = Some False"
proof -
  obtain ev where ev: "time_evaluator_new (Some 12) None (Some (from_secs 60)) = Inr ev"
    by (simp add: time_evaluator_new_def)
  show ?thesis
    using hour_with_leeway_matches_next_hour [OF ev, of 0 "13 * hour_ns + 45 * minute_ns"]
      hour_with_leeway_matches_next_hour [OF ev, of 0 "14 * hour_ns + 45 * minute_ns"] ev
    by (auto simp: fixed_offset_def time_of_day_def Let_def)
qed

text \<open>When the configured time occurs twice on a day, the evaluator matches every instant between the two
  occurrences, whatever the local minute is then: the window starts at the earlier one and ends
  after the later one, where the documentation says that the earliest one is selected.\<close>

theorem ambiguous_time_matches_in_between:
  assumes "time_evaluator_new (Some h) (Some m) lw = Inr ev"
    and "with_time tz t (h, m, 0) = LocalAmbiguous earliest latest"
    and "earliest \<le> t" "t < latest"
  shows "time_matches tz ev t = Some True"
proof -
  have ev: "te_hour ev = Some h" "te_minute ev = Some m" and "from_hms_opt h m 0 = Some (h, m, 0)"
    using assms(1) by (auto simp: time_evaluator_new_def from_hms_opt_def split: if_splits)
  then show ?thesis using assms(2-4) by (simp add: time_matches_def)
qed

text \<open>A zone that is set back by an hour at three o'clock, at the instant three hours after the epoch.\<close>

definition demo_set_back :: timezone where
  "demo_set_back =
     (fixed_offset 0)\<lparr>with_time := (\<lambda>t (h, m, s).
        let first = int h * hour_ns + int m * minute_ns + int s * 1000000000
        in if h = 2 then LocalAmbiguous first (first + hour_ns) else LocalSingle first)\<rparr>"

theorem ambiguous_time_matches_in_between_witness:
  "\<exists>ev. time_evaluator_new (Some 2) (Some 30) None = Inr ev \<and>
     minute_of demo_set_back (2 * hour_ns + 45 * minute_ns) = 45 \<and>
     time_matches demo_set_back ev (2 * hour_ns + 45 * minute_ns) = Some True"
proof -
  obtain ev where ev: "time_evaluator_new (Some 2) (Some 30) None = Inr ev"
    by (simp add: time_evaluator_new_def)
  from ambiguous_time_matches_in_between [OF ev, of demo_set_back "2 * hour_ns + 45 * minute_ns"] ev show ?thesis
    by (auto simp: demo_set_back_def fixed_offset_def)
qed

end
