(* ===== verification/Statistics.thy ===== *)
theory Statistics
  imports Time_Evaluator Event
begin

text \<open>
  The statistics server (\<open>src/src/statistics.rs\<close>): per-client counters with a ring of 1440 minute
  buckets, the tracker with its cached snapshot, the server's event loop and its builder. Counters
  keep their widths (\<open>u8\<close> saturating, \<open>u32\<close> and \<open>u64\<close> wrapping, as in a build without overflow checks). A
  \<open>NaiveDate\<close> is a number of days since the epoch. Parsing an address and serialising to JSON are
  arguments.

  \<open>client_stats_spec\<close> relates the ring to the list of bloops recorded; the server's loop interprets
  \<open>event_consumer\<close>.
\<close>

type_synonym date = int

abbreviation minutes_in_day :: nat where
  "minutes_in_day \<equiv> 1440"

definition naive_date_min :: date where
  "naive_date_min = - 96465292"

section \<open>Counters of a client\<close>

record client_stats =
  stats_total_bloops :: u64
  per_minute_bloops :: "u8 list"
  per_minute_dates :: "date list"
  bloops_per_hour :: "u32 list"
  bloops_per_day :: "(date \<times> u32) list"

definition client_stats_new :: client_stats where
  "client_stats_new =
     \<lparr>stats_total_bloops = 0, per_minute_bloops = replicate minutes_in_day 0,
      per_minute_dates = replicate minutes_in_day naive_date_min,
      bloops_per_hour = replicate 24 0, bloops_per_day = []\<rparr>"

text \<open>The date and the time of day of a UTC instant.\<close>

definition utc_date :: "datetime \<Rightarrow> date" where
  "utc_date t = t div day_ns"

definition utc_hour :: "datetime \<Rightarrow> nat" where
  "utc_hour t = nat (t mod day_ns div hour_ns)"

definition utc_minute :: "datetime \<Rightarrow> nat" where
  "utc_minute t = nat (t mod hour_ns div minute_ns)"

definition minute_index :: "datetime \<Rightarrow> nat" where
  "minute_index t = utc_hour t * 60 + utc_minute t"

definition saturating_add_u8 :: "u8 \<Rightarrow> u8 \<Rightarrow> u8" where
  "saturating_add_u8 a b = (if unat a + unat b \<ge> 256 then - 1 else a + b)"

definition client_record_bloop :: "timezone \<Rightarrow> processed_bloop \<Rightarrow> client_stats \<Rightarrow> client_stats" where
  "client_record_bloop tz b st =
     (let t = pb_recorded_at b;
          idx = utc_hour t * 60 + utc_minute t;
          st = (if per_minute_dates st ! idx \<noteq> utc_date t
                then st\<lparr>per_minute_dates := (per_minute_dates st)[idx := utc_date t],
                        per_minute_bloops := (per_minute_bloops st)[idx := 1]\<rparr>
                else st\<lparr>per_minute_bloops :=
                          (per_minute_bloops st)[idx := saturating_add_u8 (per_minute_bloops st ! idx) 1]\<rparr>);
          local_hour = hour_of tz t;
          local_date = date_of tz t
      in st\<lparr>stats_total_bloops := stats_total_bloops st + 1,
            bloops_per_hour := (bloops_per_hour st)[local_hour := bloops_per_hour st ! local_hour + 1],
            bloops_per_day := entry_update 0 local_date (\<lambda>n. n + 1) (bloops_per_day st)\<rparr>)"

definition count_last_minutes :: "client_stats \<Rightarrow> datetime \<Rightarrow> nat \<Rightarrow> u32" where
  "count_last_minutes st now minutes =
     (let now_minute = utc_hour now * 60 + utc_minute now
      in fold (\<lambda>i total.
           let idx = (now_minute + minutes_in_day - i) mod minutes_in_day;
               expected_date = utc_date (now - int i * minute_ns)
           in if per_minute_dates st ! idx = expected_date
              then total + ucast (per_minute_bloops st ! idx) else total) [0..<minutes] 0)"

section \<open>The tracker\<close>

record stats_summary =
  sum_total_bloops :: u64
  bloops_last_hour :: u32
  bloops_last_24_hours :: u32
  sum_bloops_per_hour :: "u32 list"
  sum_bloops_per_day :: "(date \<times> u32) list"

record stats_snapshot =
  created_at :: datetime
  snapshot_clients :: "(client_id \<times> stats_summary) list"
  snapshot_global :: stats_summary

record stats_tracker =
  tracker_clients :: "(client_id \<times> client_stats) list"
  cached_snapshot :: "stats_snapshot option"

definition stats_tracker_new :: "(client_id \<times> client_stats) list \<Rightarrow> stats_tracker" where
  "stats_tracker_new cs = \<lparr>tracker_clients = cs, cached_snapshot = None\<rparr>"

definition tracker_record_bloop :: "timezone \<Rightarrow> processed_bloop \<Rightarrow> stats_tracker \<Rightarrow> stats_tracker" where
  "tracker_record_bloop tz b tr =
     tr\<lparr>tracker_clients :=
          entry_update client_stats_new (pb_client_id b) (client_record_bloop tz b) (tracker_clients tr)\<rparr>"

definition summary_of :: "datetime \<Rightarrow> client_stats \<Rightarrow> stats_summary" where
  "summary_of now st =
     \<lparr>sum_total_bloops = stats_total_bloops st, bloops_last_hour = count_last_minutes st now 60,
      bloops_last_24_hours = count_last_minutes st now minutes_in_day,
      sum_bloops_per_hour = bloops_per_hour st, sum_bloops_per_day = bloops_per_day st\<rparr>"

definition add_summary :: "stats_summary \<Rightarrow> stats_summary \<Rightarrow> stats_summary" where
  "add_summary s g =
     g\<lparr>sum_total_bloops := sum_total_bloops g + sum_total_bloops s,
       bloops_last_hour := bloops_last_hour g + bloops_last_hour s,
       bloops_last_24_hours := bloops_last_24_hours g + bloops_last_24_hours s,
       sum_bloops_per_hour := fold (\<lambda>hour xs. xs[hour := xs ! hour + sum_bloops_per_hour s ! hour]) [0..<24]
         (sum_bloops_per_hour g),
       sum_bloops_per_day := fold (\<lambda>(day, count). entry_update 0 day (\<lambda>n. n + count))
         (sum_bloops_per_day s) (sum_bloops_per_day g)\<rparr>"

definition compute_snapshot :: "datetime \<Rightarrow> stats_tracker \<Rightarrow> stats_snapshot" where
  "compute_snapshot now tr =
     (let global0 = \<lparr>sum_total_bloops = 0, bloops_last_hour = 0, bloops_last_24_hours = 0,
            sum_bloops_per_hour = replicate 24 0, sum_bloops_per_day = []\<rparr>;
          (clients_snapshots, global) =
            fold (\<lambda>(cid, client) (snapshots, global).
              let s = summary_of now client
              in (AList.update cid s snapshots, add_summary s global)) (tracker_clients tr) ([], global0)
      in \<lparr>created_at = now, snapshot_clients = clients_snapshots, snapshot_global = global\<rparr>)"

definition tracker_snapshot :: "datetime \<Rightarrow> stats_tracker \<Rightarrow> stats_snapshot \<times> stats_tracker" where
  "tracker_snapshot now tr =
     (case cached_snapshot tr of
        Some s \<Rightarrow>
          if created_at s > now - minute_ns then (s, tr)
          else (let s' = compute_snapshot now tr in (s', tr\<lparr>cached_snapshot := Some s'\<rparr>))
      | None \<Rightarrow> (let s' = compute_snapshot now tr in (s', tr\<lparr>cached_snapshot := Some s'\<rparr>)))"

section \<open>The server\<close>

record 'a statistics_server =
  server_addr :: 'a
  server_stats :: stats_tracker
  server_tz :: timezone

datatype 'j http_response = HttpOk 'j | HttpError nat

definition serve_request ::
  "(stats_snapshot \<Rightarrow> 'j option) \<Rightarrow> datetime \<Rightarrow> stats_tracker \<Rightarrow> 'j http_response \<times> stats_tracker" where
  "serve_request to_json now tr =
     (let (snapshot, tr) = tracker_snapshot now tr
      in (case to_json snapshot of None \<Rightarrow> HttpError 500 | Some body \<Rightarrow> HttpOk body, tr))"

text \<open>A connection is a list of the instants at which its requests are served; an accept that fails is
  \<open>None\<close>. The spawned task only touches the cached snapshot.\<close>

type_synonym connection = "datetime list option"

definition stats_handle_connection :: "datetime list \<Rightarrow> 'a statistics_server \<Rightarrow> 'a statistics_server" where
  "stats_handle_connection instants srv =
     srv\<lparr>server_stats := fold (\<lambda>now tr. snd (tracker_snapshot now tr)) instants (server_stats srv)\<rparr>"

fun stats_handle_recv :: "recv_result \<Rightarrow> 'a statistics_server \<Rightarrow> 'a statistics_server \<times> bool" where
  "stats_handle_recv (Inr (BloopProcessed b)) srv =
     (srv\<lparr>server_stats := tracker_record_bloop (server_tz srv) b (server_stats srv)\<rparr>, True)"
| "stats_handle_recv (Inr e) srv = (srv, True)"
| "stats_handle_recv (Inl (Lagged n)) srv = (srv, True)"
| "stats_handle_recv (Inl Closed) srv = (srv, False)"

fun stats_step :: "connection select_branch \<Rightarrow> 'a statistics_server \<Rightarrow> 'a statistics_server \<times> bool" where
  "stats_step (Other (Some instants)) srv = (stats_handle_connection instants srv, True)"
| "stats_step (Other None) srv = (srv, True)"
| "stats_step (Recv result) srv = stats_handle_recv result srv"

text \<open>\<open>listen\<close> returns the error of \<open>bind\<close>, or \<open>Ok\<close> once its loop has ended; it is \<open>None\<close> while the loop waits.\<close>

definition stats_loop ::
  "connection select_branch list \<Rightarrow> 'a statistics_server \<Rightarrow> 'a statistics_server \<times> bool" where
  "stats_loop = event_loop stats_step"

definition stats_listen ::
  "'io option \<Rightarrow> connection select_branch list \<Rightarrow> 'a statistics_server \<Rightarrow>
   ('io + unit) option \<times> 'a statistics_server" where
  "stats_listen bind_error branches srv =
     (case bind_error of
        Some e \<Rightarrow> (Some (Inl e), srv)
      | None \<Rightarrow>
          (let (srv, waiting) = stats_loop branches srv
           in (if waiting then None else Some (Inr ()), srv)))"

section \<open>The builder\<close>

datatype stats_builder_error = StatsMissingField string | StatsAddrParse

record stats_builder =
  stb_address :: "string option"
  stb_tz :: "timezone option"
  stb_stats :: "(client_id \<times> client_stats) list option"
  stb_event_rx :: "unit option"

definition stats_builder_new :: stats_builder where
  "stats_builder_new = \<lparr>stb_address = None, stb_tz = None, stb_stats = None, stb_event_rx = None\<rparr>"

definition stats_builder_address :: "string \<Rightarrow> stats_builder \<Rightarrow> stats_builder" where
  "stats_builder_address x b = b\<lparr>stb_address := Some x\<rparr>"

definition stats_builder_tz :: "timezone \<Rightarrow> stats_builder \<Rightarrow> stats_builder" where
  "stats_builder_tz x b = b\<lparr>stb_tz := Some x\<rparr>"

definition stats_builder_stats :: "(client_id \<times> client_stats) list \<Rightarrow> stats_builder \<Rightarrow> stats_builder" where
  "stats_builder_stats x b = b\<lparr>stb_stats := Some x\<rparr>"

definition stats_builder_event_rx :: "unit \<Rightarrow> stats_builder \<Rightarrow> stats_builder" where
  "stats_builder_event_rx x b = b\<lparr>stb_event_rx := Some x\<rparr>"

definition stats_build ::
  "(string \<Rightarrow> 'a option) \<Rightarrow> stats_builder \<Rightarrow> stats_builder_error + 'a statistics_server" where
  "stats_build parse_addr b =
     try_bind (ok_or (StatsMissingField ''address'') (stb_address b)) (\<lambda>address.
     try_bind (ok_or StatsAddrParse (parse_addr address)) (\<lambda>addr.
     try_bind (ok_or (StatsMissingField ''event_rx'') (stb_event_rx b)) (\<lambda>rx.
       Inr \<lparr>server_addr = addr,
            server_stats = stats_tracker_new (case stb_stats b of None \<Rightarrow> [] | Some cs \<Rightarrow> cs),
            server_tz = (case stb_tz b of None \<Rightarrow> fixed_offset 0 | Some tz \<Rightarrow> tz)\<rparr>)))"

interpretation stats: event_consumer stats_step
proof (unfold_locales, goal_cases)
  case (1 i s)
  show ?case
  proof (cases i)
    case (Other k)
    then show ?thesis by (cases k) simp_all
  next
    case (Recv r)
    then show ?thesis by (cases "(r, s)" rule: stats_handle_recv.cases) simp_all
  qed
qed simp

section \<open>Minutes\<close>

text \<open>The number of the minute of an instant since the epoch; the ring has one bucket per minute of the
  day, and the date tells which of the minutes with the same index the bucket holds.\<close>

definition abs_minute :: "datetime \<Rightarrow> int" where
  "abs_minute t = t div minute_ns"

definition bucket :: "int \<Rightarrow> nat" where
  "bucket m = nat (m mod 1440)"

lemma bucket_less [simp]: "bucket m < 1440"
  by (simp add: bucket_def)

lemma bucket_eq_iff: "bucket m = bucket m' \<longleftrightarrow> m mod 1440 = m' mod 1440"
  by (simp add: bucket_def nat_eq_iff)

lemma minute_same: "bucket m = bucket m' \<Longrightarrow> m div 1440 = m' div 1440 \<Longrightarrow> m = m'"
  unfolding bucket_eq_iff by (metis div_mult_mod_eq)

lemma utc_date_minute: "utc_date t = abs_minute t div 1440"
proof -
  have "t div (minute_ns * 1440) = abs_minute t div 1440"
    unfolding abs_minute_def by (rule zdiv_zmult2_eq) simp
  then show ?thesis by (simp add: utc_date_def)
qed

lemma minute_index_bucket: "utc_hour t * 60 + utc_minute t = bucket (abs_minute t)"
proof -
  let ?m = "abs_minute t"
  have day: "t mod day_ns = minute_ns * (?m mod 1440) + t mod minute_ns"
    using zmod_zmult2_eq [of 1440 t minute_ns] by (simp add: abs_minute_def)
  have hour: "t mod hour_ns = minute_ns * (?m mod 60) + t mod minute_ns"
    using zmod_zmult2_eq [of 60 t minute_ns] by (simp add: abs_minute_def)
  have rest: "t mod minute_ns div minute_ns = 0" by simp
  have "t mod day_ns div minute_ns = ?m mod 1440"
    unfolding day by (simp add: rest)
  then have "t mod day_ns div hour_ns = ?m mod 1440 div 60"
    using zdiv_zmult2_eq [of 60 "t mod day_ns" minute_ns] by simp
  moreover have "t mod hour_ns div minute_ns = ?m mod 60"
    unfolding hour by (simp add: rest)
  moreover have "?m mod 1440 mod 60 = ?m mod 60" by (rule mod_mod_cancel) simp
  moreover have "?m mod 1440 div 60 * 60 + ?m mod 1440 mod 60 = ?m mod 1440" by (rule div_mult_mod_eq)
  ultimately have "t mod day_ns div hour_ns * 60 + t mod hour_ns div minute_ns = ?m mod 1440" by simp
  moreover have "0 \<le> t mod day_ns div hour_ns" "0 \<le> t mod hour_ns div minute_ns"
    by (simp_all add: pos_imp_zdiv_nonneg_iff)
  moreover have "nat x * 60 + nat y = nat z" if "x * 60 + y = z" "0 \<le> x" "0 \<le> y" for x y z :: int
    using that by arith
  ultimately show ?thesis unfolding utc_hour_def utc_minute_def bucket_def by blast
qed

lemma abs_minute_back: "abs_minute (t - int i * minute_ns) = abs_minute t - int i"
proof -
  have "(t + (- int i) * minute_ns) div minute_ns = - int i + t div minute_ns"
    by (rule div_mult_self1) simp
  then show ?thesis by (simp add: abs_minute_def)
qed

lemma bucket_back:
  assumes "i \<le> 1440"
  shows "(bucket m + 1440 - i) mod 1440 = bucket (m - int i)"
proof -
  have "int ((bucket m + 1440 - i) mod 1440) = (m mod 1440 + 1440 - int i) mod 1440"
    using assms by (simp add: bucket_def zmod_int of_nat_diff)
  also have "\<dots> = (m mod 1440 - int i + 1440) mod 1440" by (simp add: algebra_simps)
  also have "\<dots> = (m mod 1440 - int i) mod 1440" by (rule mod_add_self2)
  also have "\<dots> = (m - int i) mod 1440" by (rule mod_diff_left_eq)
  finally show ?thesis unfolding bucket_def by (metis nat_int)
qed

section \<open>The ring of minute buckets\<close>

definition bloop_minute :: "processed_bloop \<Rightarrow> int" where
  "bloop_minute b = abs_minute (pb_recorded_at b)"

definition minute_count :: "processed_bloop list \<Rightarrow> int \<Rightarrow> nat" where
  "minute_count bs m = length (filter (\<lambda>b. bloop_minute b = m) bs)"

definition client_stats_spec :: "processed_bloop list \<Rightarrow> client_stats \<Rightarrow> bool" where
  "client_stats_spec bs st \<longleftrightarrow>
     length (per_minute_bloops st) = 1440 \<and> length (per_minute_dates st) = 1440 \<and>
     stats_total_bloops st = of_nat (length bs) \<and>
     (\<forall>m. per_minute_dates st ! bucket m = m div 1440 \<longrightarrow>
        unat (per_minute_bloops st ! bucket m) = min 255 (minute_count bs m)) \<and>
     (\<forall>m. minute_count bs m > 0 \<longrightarrow> per_minute_dates st ! bucket m \<noteq> m div 1440 \<longrightarrow>
        (\<exists>b \<in> set bs. bloop_minute b > m \<and> bucket (bloop_minute b) = bucket m))"

lemma client_stats_spec_new: "client_stats_spec [] client_stats_new"
  by (simp add: client_stats_spec_def client_stats_new_def minute_count_def)

lemma unat_saturating_add: "unat (saturating_add_u8 a 1) = min 255 (unat a + 1)"
proof (cases "unat a + 1 \<ge> 256")
  case True
  have "unat a < 256" using unsigned_less [of a, where 'a = nat] by simp
  moreover have "unat (- 1 :: u8) = 255" by (simp add: unsigned_minus_1_eq_mask mask_eq_exp_minus_1)
  ultimately show ?thesis using True by (simp add: saturating_add_u8_def)
next
  case False
  then have "unat (a + 1) = unat a + 1" by (subst unat_add_lem [THEN iffD1]) simp_all
  with False show ?thesis by (simp add: saturating_add_u8_def)
qed

lemma minute_count_snoc:
  "minute_count (bs @ [b]) m = minute_count bs m + (if bloop_minute b = m then 1 else 0)"
  by (simp add: minute_count_def)

lemma client_record_bloop_simps:
  fixes st :: client_stats and b :: processed_bloop
  defines "m \<equiv> bloop_minute b"
  shows "per_minute_dates (client_record_bloop tz b st) = (per_minute_dates st)[bucket m := m div 1440]"
    and "per_minute_bloops (client_record_bloop tz b st) =
      (per_minute_bloops st)[bucket m := (if per_minute_dates st ! bucket m = m div 1440
         then saturating_add_u8 (per_minute_bloops st ! bucket m) 1 else 1)]"
    and "stats_total_bloops (client_record_bloop tz b st) = stats_total_bloops st + 1"
  by (simp_all add: client_record_bloop_def Let_def minute_index_bucket utc_date_minute m_def bloop_minute_def)
    (metis list_update_id)

lemma client_stats_spec_record:
  assumes spec: "client_stats_spec bs st" and newest: "\<And>x. x \<in> set bs \<Longrightarrow> bloop_minute x \<le> bloop_minute b"
  shows "client_stats_spec (bs @ [b]) (client_record_bloop tz b st)"
proof -
  let ?m = "bloop_minute b" and ?st = "client_record_bloop tz b st"
  have len: "length (per_minute_bloops st) = 1440" "length (per_minute_dates st) = 1440"
    and total: "stats_total_bloops st = of_nat (length bs)"
    and cnt: "\<And>m. per_minute_dates st ! bucket m = m div 1440 \<Longrightarrow>
      unat (per_minute_bloops st ! bucket m) = min 255 (minute_count bs m)"
    and stale: "\<And>m. minute_count bs m > 0 \<Longrightarrow> per_minute_dates st ! bucket m \<noteq> m div 1440 \<Longrightarrow>
      \<exists>b \<in> set bs. bloop_minute b > m \<and> bucket (bloop_minute b) = bucket m"
    using spec by (auto simp: client_stats_spec_def)
  have upd: "unat (per_minute_bloops ?st ! bucket ?m) = min 255 (minute_count (bs @ [b]) ?m)"
  proof (cases "per_minute_dates st ! bucket ?m = ?m div 1440")
    case True
    with cnt [OF True] show ?thesis
      by (simp add: client_record_bloop_simps len unat_saturating_add minute_count_snoc)
  next
    case False
    have "minute_count bs ?m = 0"
    proof (rule ccontr)
      assume "minute_count bs ?m \<noteq> 0"
      with stale [of ?m] False obtain x where "x \<in> set bs" "bloop_minute x > ?m" by auto
      with newest [of x] show False by simp
    qed
    with False show ?thesis by (simp add: client_record_bloop_simps len minute_count_snoc)
  qed
  have new_cnt: "unat (per_minute_bloops ?st ! bucket m) = min 255 (minute_count (bs @ [b]) m)"
    if "per_minute_dates ?st ! bucket m = m div 1440" for m
  proof (cases "bucket m = bucket ?m")
    case True
    have "per_minute_dates ?st ! bucket ?m = ?m div 1440" by (simp add: client_record_bloop_simps len)
    moreover have "per_minute_dates ?st ! bucket ?m = m div 1440" using that by (simp only: True)
    ultimately have "m div 1440 = ?m div 1440" by (simp only:)
    from minute_same [OF True this] upd show ?thesis by simp
  next
    case False
    with that cnt [of m] show ?thesis
      by (auto simp: client_record_bloop_simps minute_count_snoc)
  qed
  have new_stale: "\<exists>x \<in> set (bs @ [b]). bloop_minute x > m \<and> bucket (bloop_minute x) = bucket m"
    if "minute_count (bs @ [b]) m > 0" "per_minute_dates ?st ! bucket m \<noteq> m div 1440" for m
  proof (cases "bucket m = bucket ?m")
    case True
    with that(2) have ne: "m \<noteq> ?m" by (auto simp: client_record_bloop_simps len)
    with that(1) have "minute_count bs m > 0" by (simp add: minute_count_snoc split: if_splits)
    then obtain x where "x \<in> set bs" "bloop_minute x = m"
      by (auto simp: minute_count_def filter_empty_conv)
    with newest [of x] ne have "m < ?m" by simp
    with True show ?thesis by simp
  next
    case False
    with that have "minute_count bs m > 0" "per_minute_dates st ! bucket m \<noteq> m div 1440"
      by (auto simp: minute_count_snoc client_record_bloop_simps split: if_splits)
    from stale [OF this] show ?thesis by auto
  qed
  show ?thesis
    unfolding client_stats_spec_def
    using len total new_cnt new_stale by (simp add: client_record_bloop_simps)
qed

fun in_time_order :: "processed_bloop list \<Rightarrow> bool" where
  "in_time_order bs \<longleftrightarrow> sorted_wrt (\<lambda>x y. pb_recorded_at x \<le> pb_recorded_at y) bs"

lemma abs_minute_mono: "s \<le> t \<Longrightarrow> abs_minute s \<le> abs_minute t"
  by (simp add: abs_minute_def zdiv_mono1)

lemma client_stats_spec_fold:
  assumes "in_time_order bs"
  shows "client_stats_spec bs (fold (client_record_bloop tz) bs client_stats_new)"
  using assms
proof (induction bs rule: rev_induct)
  case (snoc b bs)
  then have "client_stats_spec bs (fold (client_record_bloop tz) bs client_stats_new)"
    by (simp add: sorted_wrt_append)
  moreover have "bloop_minute x \<le> bloop_minute b" if "x \<in> set bs" for x
    using snoc.prems that by (simp add: sorted_wrt_append bloop_minute_def abs_minute_mono)
  ultimately show ?case by (simp add: client_stats_spec_record)
qed (simp add: client_stats_spec_new)

lemma fold_count:
  "fold (\<lambda>i total. if P i then total + ucast (f i :: u8) else total) is (acc :: u32) =
     acc + of_nat (\<Sum>i\<leftarrow>is. if P i then unat (f i) else 0)"
  by (induction "is" arbitrary: acc) (simp_all add: unsigned_ucast_eq algebra_simps)

lemma count_last_minutes_spec:
  assumes "client_stats_spec bs st" "n \<le> 1440" "\<And>b. b \<in> set bs \<Longrightarrow> pb_recorded_at b \<le> now"
  shows "count_last_minutes st now n = of_nat (\<Sum>i\<leftarrow>[0..<n]. min 255 (minute_count bs (abs_minute now - int i)))"
proof -
  let ?m = "\<lambda>i. abs_minute now - int i"
  have "count_last_minutes st now n = fold (\<lambda>i total.
      if per_minute_dates st ! bucket (?m i) = ?m i div 1440
      then total + ucast (per_minute_bloops st ! bucket (?m i)) else total) [0..<n] 0"
    unfolding count_last_minutes_def Let_def minute_index_bucket utc_date_minute abs_minute_back
    using assms(2) by (intro fold_cong) (auto simp: bucket_back)
  also have "\<dots> = of_nat (\<Sum>i\<leftarrow>[0..<n]. if per_minute_dates st ! bucket (?m i) = ?m i div 1440
      then unat (per_minute_bloops st ! bucket (?m i)) else 0)"
    by (simp add: fold_count)
  also have "(\<Sum>i\<leftarrow>[0..<n]. if per_minute_dates st ! bucket (?m i) = ?m i div 1440
      then unat (per_minute_bloops st ! bucket (?m i)) else 0) =
      (\<Sum>i\<leftarrow>[0..<n]. min 255 (minute_count bs (?m i)))"
  proof (rule arg_cong [where f = sum_list], rule map_cong)
    fix i assume "i \<in> set [0..<n]"
    then have i: "int i < 1440" using assms(2) by simp
    show "(if per_minute_dates st ! bucket (?m i) = ?m i div 1440
        then unat (per_minute_bloops st ! bucket (?m i)) else 0) = min 255 (minute_count bs (?m i))"
    proof (cases "per_minute_dates st ! bucket (?m i) = ?m i div 1440")
      case True
      then show ?thesis using assms(1) by (simp add: client_stats_spec_def)
    next
      case False
      have "minute_count bs (?m i) = 0"
      proof (rule ccontr)
        assume "minute_count bs (?m i) \<noteq> 0"
        with False assms(1) obtain b where b: "b \<in> set bs" "bloop_minute b > ?m i"
          "bucket (bloop_minute b) = bucket (?m i)" unfolding client_stats_spec_def by blast
        have "bloop_minute b \<le> abs_minute now"
          using assms(3) [OF b(1)] by (simp add: bloop_minute_def abs_minute_mono)
        with b(2) i have "0 < bloop_minute b - ?m i" "bloop_minute b - ?m i < 1440" by simp_all
        moreover from b(3) have "(bloop_minute b - ?m i) mod 1440 = 0"
          unfolding bucket_eq_iff by (simp add: mod_eq_dvd_iff)
        ultimately show False by simp
      qed
      with False show ?thesis by simp
    qed
  qed simp
  finally show ?thesis .
qed

section \<open>Tracker and server\<close>

definition of_client_pb :: "client_id \<Rightarrow> processed_bloop list \<Rightarrow> processed_bloop list" where
  "of_client_pb cid bs = filter (\<lambda>b. pb_client_id b = cid) bs"

lemma tracker_fold_record:
  "map_of (tracker_clients (fold (tracker_record_bloop tz) bs tr)) cid =
     (if of_client_pb cid bs = [] then map_of (tracker_clients tr) cid
      else Some (fold (client_record_bloop tz) (of_client_pb cid bs)
             (case map_of (tracker_clients tr) cid of None \<Rightarrow> client_stats_new | Some st \<Rightarrow> st)))"
  by (induction bs arbitrary: tr) (auto simp: of_client_pb_def tracker_record_bloop_def split: option.split)

lemma snapshot_keeps_clients [simp]: "tracker_clients (snd (tracker_snapshot now tr)) = tracker_clients tr"
  by (simp add: tracker_snapshot_def Let_def split: option.split)

lemma connection_keeps_clients [simp]:
  "tracker_clients (server_stats (stats_handle_connection instants srv)) = tracker_clients (server_stats srv)"
  "server_tz (stats_handle_connection instants srv) = server_tz srv"
proof -
  have "tracker_clients (fold (\<lambda>now tr. snd (tracker_snapshot now tr)) instants tr) = tracker_clients tr" for tr
    by (induction instants arbitrary: tr) simp_all
  then show "tracker_clients (server_stats (stats_handle_connection instants srv)) = tracker_clients (server_stats srv)"
    "server_tz (stats_handle_connection instants srv) = server_tz srv"
    by (simp_all add: stats_handle_connection_def)
qed

lemma stats_step_effect:
  assumes "i \<noteq> Recv (Inl Closed)"
  shows "server_tz (fst (stats_step i srv)) = server_tz srv \<and>
    tracker_clients (server_stats (fst (stats_step i srv))) =
      tracker_clients (fold (tracker_record_bloop (server_tz srv)) (received_bloops [i]) (server_stats srv))"
proof (cases i)
  case (Other k)
  then show ?thesis by (cases k) simp_all
next
  case (Recv r)
  with assms show ?thesis by (cases "(r, srv)" rule: stats_handle_recv.cases) simp_all
qed

lemma fold_record_cong:
  "tracker_clients tr = tracker_clients tr' \<Longrightarrow>
   tracker_clients (fold (tracker_record_bloop tz) bs tr) = tracker_clients (fold (tracker_record_bloop tz) bs tr')"
  by (induction bs arbitrary: tr tr') (simp_all add: tracker_record_bloop_def)

lemma stats_loop_clients:
  "tracker_clients (server_stats (fst (stats_loop branches srv))) =
     tracker_clients (fold (tracker_record_bloop (server_tz srv)) (received_bloops (before_close branches))
       (server_stats srv))"
proof (induction branches arbitrary: srv)
  case (Cons i branches)
  show ?case
  proof (cases "i = Recv (Inl Closed)")
    case True
    then show ?thesis by (simp add: stats_loop_def)
  next
    case False
    have "fst (stats_loop (i # branches) srv) = fst (stats_loop branches (fst (stats_step i srv)))"
      using stats.continues [of i srv] False
      by (cases "stats_step i srv") (simp add: stats_loop_def)
    then have "tracker_clients (server_stats (fst (stats_loop (i # branches) srv))) =
        tracker_clients (fold (tracker_record_bloop (server_tz srv)) (received_bloops (before_close branches))
          (fold (tracker_record_bloop (server_tz srv)) (received_bloops [i]) (server_stats srv)))"
      using Cons.IH [of "fst (stats_step i srv)"] stats_step_effect [OF False, of srv]
        fold_record_cong by metis
    then show ?thesis using False received_append [of i "before_close branches"] by simp
  qed
qed (simp add: stats_loop_def)

lemma stats_listen_bound [simp]: "snd (stats_listen None branches srv) = fst (stats_loop branches srv)"
  by (simp add: stats_listen_def split: prod.split)

section \<open>Snapshots\<close>

lemma fold_add_at:
  fixes ys :: "u32 list"
  assumes "length xs = 24" "n \<le> 24"
  shows "fold (\<lambda>h xs. xs[h := xs ! h + ys ! h]) [0..<n] xs =
    map (\<lambda>h. if h < n then xs ! h + ys ! h else xs ! h) [0..<24]"
  using assms(2)
proof (induction n)
  case 0
  then show ?case using assms(1) by (simp add: list_eq_iff_nth_eq)
next
  case (Suc n)
  then show ?case using assms(1) by (auto simp: list_eq_iff_nth_eq nth_list_update)
qed

lemma compute_snapshot_fold:
  fixes now :: datetime
  defines "step \<equiv> \<lambda>(cid, client) (snapshots, global).
      let s = summary_of now client in (AList.update cid s snapshots, add_summary s global)"
  assumes "map_wf cs" "length (sum_bloops_per_hour g) = 24"
  shows "map_of (fst (fold step cs (snaps, g))) =
      (\<lambda>cid. case map_of cs cid of None \<Rightarrow> map_of snaps cid | Some st \<Rightarrow> Some (summary_of now st)) \<and>
    sum_total_bloops (snd (fold step cs (snaps, g))) =
      sum_total_bloops g + (\<Sum>(cid, st)\<leftarrow>cs. stats_total_bloops st) \<and>
    bloops_last_hour (snd (fold step cs (snaps, g))) =
      bloops_last_hour g + (\<Sum>(cid, st)\<leftarrow>cs. count_last_minutes st now 60) \<and>
    bloops_last_24_hours (snd (fold step cs (snaps, g))) =
      bloops_last_24_hours g + (\<Sum>(cid, st)\<leftarrow>cs. count_last_minutes st now minutes_in_day) \<and>
    (\<forall>h < 24. sum_bloops_per_hour (snd (fold step cs (snaps, g))) ! h =
      sum_bloops_per_hour g ! h + (\<Sum>(cid, st)\<leftarrow>cs. bloops_per_hour st ! h))"
  using assms(2,3)
proof (induction cs arbitrary: snaps g)
  case (Cons c cs)
  obtain cid st where c: "c = (cid, st)" by (cases c)
  let ?s = "summary_of now st"
  have hours: "sum_bloops_per_hour (add_summary ?s g) =
      map (\<lambda>h. sum_bloops_per_hour g ! h + bloops_per_hour st ! h) [0..<24]"
    unfolding add_summary_def by (simp add: fold_add_at [OF Cons.prems(2)] summary_of_def)
  have step: "fold step (c # cs) (snaps, g) = fold step cs (AList.update cid ?s snaps, add_summary ?s g)"
    by (simp add: step_def c Let_def)
  have new: "map_of cs cid = None" using Cons.prems(1) by (simp add: c map_of_eq_None_iff)
  have sums: "sum_total_bloops (add_summary ?s g) = sum_total_bloops g + stats_total_bloops st"
    "bloops_last_hour (add_summary ?s g) = bloops_last_hour g + count_last_minutes st now 60"
    "bloops_last_24_hours (add_summary ?s g) = bloops_last_24_hours g + count_last_minutes st now minutes_in_day"
    by (simp_all add: add_summary_def summary_of_def)
  note IH = Cons.IH [of "add_summary ?s g" "AList.update cid ?s snaps"]
  have pre: "map_wf cs" "length (sum_bloops_per_hour (add_summary ?s g)) = 24"
    using Cons.prems(1) by (simp_all add: c hours)
  show ?case
    unfolding step using IH [OF pre] new
    by (auto simp: c sums hours update_conv' fun_eq_iff add.assoc split: option.split)
qed (simp add: fun_eq_iff)

lemma sum_list_bounded:
  fixes f :: "nat \<Rightarrow> nat"
  assumes "\<And>i. f i \<le> k"
  shows "(\<Sum>i\<leftarrow>[0..<n]. f i) \<le> n * k"
proof (induction n)
  case (Suc n)
  then show ?case using assms [of n] by simp
qed simp

lemma unat_count_last_minutes:
  assumes "client_stats_spec bs st" "n \<le> 1440" "\<And>b. b \<in> set bs \<Longrightarrow> pb_recorded_at b \<le> now"
  shows "unat (count_last_minutes st now n) = (\<Sum>i\<leftarrow>[0..<n]. min 255 (minute_count bs (abs_minute now - int i)))"
proof -
  let ?f = "\<lambda>i. min 255 (minute_count bs (abs_minute now - int i))"
  have "(\<Sum>i\<leftarrow>[0..<n]. ?f i) \<le> n * 255" by (rule sum_list_bounded) simp
  also have "\<dots> < 2 ^ 32" using assms(2) by simp
  finally have "(\<Sum>i\<leftarrow>[0..<n]. ?f i) < 2 ^ 32" .
  then show ?thesis
    by (simp only: count_last_minutes_spec [OF assms]) (simp add: unsigned_of_nat take_bit_nat_eq_self)
qed

section \<open>Properties\<close>

text \<open>C22: The statistics server counts the bloops it receives. For a server that is bound, starts empty and receives
  its events in time order, whatever connections it serves in between: after any sequence of
  branches every client that sent a bloop has a total equal to the number of its bloops (modulo the
  width of \<open>u64\<close>), and the number reported for the last \<open>n\<close> minutes, up to a day, is exactly the sum over
  those minutes of the client's bloops in that minute, each cut off at 255; it does not overflow.\<close>

theorem statistics_count_received_bloops:
  fixes srv :: "'a statistics_server"
  assumes "tracker_clients (server_stats srv) = []" "n \<le> 1440"
    and "in_time_order (received_bloops (before_close branches))"
    and "list_all (\<lambda>b. pb_recorded_at b \<le> now) (received_bloops (before_close branches))"
  shows "(let mine = filter (\<lambda>b. pb_client_id b = cid) (received_bloops (before_close branches));
              clients = tracker_clients (server_stats (snd (stats_listen None branches srv)))
          in if mine = [] then map_of clients cid = None
             else \<exists>st. map_of clients cid = Some st \<and> stats_total_bloops st = of_nat (length mine) \<and>
                    unat (count_last_minutes st now n) =
                      (\<Sum>i\<leftarrow>[0..<n]. min 255 (length (filter (\<lambda>b. bloop_minute b = abs_minute now - int i) mine))))"
proof -
  let ?mine = "of_client_pb cid (received_bloops (before_close branches))"
  let ?st = "fold (client_record_bloop (server_tz srv)) ?mine client_stats_new"
  have "in_time_order ?mine" using assms(3) by (simp add: of_client_pb_def sorted_wrt_filter)
  then have spec: "client_stats_spec ?mine ?st" by (rule client_stats_spec_fold)
  have "unat (count_last_minutes ?st now n) = (\<Sum>i\<leftarrow>[0..<n]. min 255 (minute_count ?mine (abs_minute now - int i)))"
    by (rule unat_count_last_minutes [OF spec assms(2)]) (use assms(4) in \<open>auto simp: of_client_pb_def list_all_iff\<close>)
  moreover have "stats_total_bloops ?st = of_nat (length ?mine)" using spec by (simp add: client_stats_spec_def)
  moreover have "map_of (tracker_clients (server_stats (snd (stats_listen None branches srv)))) cid =
      (if ?mine = [] then None else Some ?st)"
    by (simp add: stats_loop_clients tracker_fold_record assms(1))
  ultimately show ?thesis by (simp add: of_client_pb_def minute_count_def)
qed

definition demo_server :: "nat statistics_server" where
  "demo_server = \<lparr>server_addr = 0, server_stats = stats_tracker_new [], server_tz = fixed_offset 0\<rparr>"

theorem statistics_count_received_bloops_witness:
  "\<exists>st. map_of (tracker_clients (server_stats (snd (stats_listen None
       [Recv (Inr (BloopProcessed \<lparr>pb_player_id = 1, pb_client_id = ''c'', pb_recorded_at = 0\<rparr>)), Other (Some [5]),
        Recv (Inr (BloopProcessed \<lparr>pb_player_id = 2, pb_client_id = ''c'', pb_recorded_at = minute_ns\<rparr>))]
       demo_server)))) ''c'' = Some st \<and>
     stats_total_bloops st = 2 \<and> unat (count_last_minutes st minute_ns 1) = 1"
  using statistics_count_received_bloops [of demo_server 1
      "[Recv (Inr (BloopProcessed \<lparr>pb_player_id = 1, pb_client_id = ''c'', pb_recorded_at = 0\<rparr>)), Other (Some [5]),
        Recv (Inr (BloopProcessed \<lparr>pb_player_id = 2, pb_client_id = ''c'', pb_recorded_at = minute_ns\<rparr>))]"
      minute_ns "''c''"]
  by (auto simp: demo_server_def stats_tracker_new_def Let_def bloop_minute_def abs_minute_def)

text \<open>A snapshot is never a minute old or older, a request that finds none that is fresh computes it and
  caches it, a computed snapshot contains exactly the tracker's clients with their summaries, and its
  global numbers are the sums of the clients' (modulo the width of the counters). Taking a
  snapshot changes no counter.\<close>

theorem snapshot_fresh_and_sums_clients:
  assumes "map_wf (tracker_clients tr)"
  shows "(let (s, tr') = tracker_snapshot now tr; cs = tracker_clients tr; computed = compute_snapshot now tr
          in created_at s > now - minute_ns \<and> tracker_clients tr' = cs \<and> cached_snapshot tr' = Some s \<and>
             (s = computed \<or> cached_snapshot tr = Some s) \<and>
             map_of (snapshot_clients computed) = (\<lambda>cid. map_option (summary_of now) (map_of cs cid)) \<and>
             sum_total_bloops (snapshot_global computed) = (\<Sum>(cid, st)\<leftarrow>cs. stats_total_bloops st) \<and>
             bloops_last_hour (snapshot_global computed) = (\<Sum>(cid, st)\<leftarrow>cs. count_last_minutes st now 60) \<and>
             bloops_last_24_hours (snapshot_global computed) = (\<Sum>(cid, st)\<leftarrow>cs. count_last_minutes st now 1440) \<and>
             (\<forall>h < 24. sum_bloops_per_hour (snapshot_global computed) ! h = (\<Sum>(cid, st)\<leftarrow>cs. bloops_per_hour st ! h)))"
proof -
  let ?g = "\<lparr>sum_total_bloops = 0, bloops_last_hour = 0, bloops_last_24_hours = 0,
      sum_bloops_per_hour = replicate 24 0, sum_bloops_per_day = []\<rparr>"
  have "(\<lambda>cid. case map_of (tracker_clients tr) cid of None \<Rightarrow> None | Some st \<Rightarrow> Some (summary_of now st)) =
      (\<lambda>cid. map_option (summary_of now) (map_of (tracker_clients tr) cid))"
    by (simp add: fun_eq_iff split: option.split)
  note computed = compute_snapshot_fold [OF assms, of ?g now "[]", simplified, unfolded this]
  show ?thesis
    using computed
    by (auto simp: tracker_snapshot_def Let_def compute_snapshot_def case_prod_unfold split: option.split)
qed

theorem snapshot_fresh_and_sums_clients_witness:
  "created_at (fst (tracker_snapshot 100 (stats_tracker_new [(''c'', client_stats_new)]))) > 100 - minute_ns"
  using snapshot_fresh_and_sums_clients [of "stats_tracker_new [(''c'', client_stats_new)]" 100]
  by (auto simp: stats_tracker_new_def Let_def case_prod_beta)

end
