(* ===== verification/Health_Monitor.thy ===== *)
theory Health_Monitor
  imports Time_Evaluator Event "HOL-Library.Multiset" "HOL-Library.Char_ord" "HOL-Library.List_Lexorder" "HOL-Library.Product_Lexorder"
begin

text \<open>
  The health monitor (\<open>src/src/health_monitor/mod.rs\<close>): client statuses and the report with its text form,
  the monitor's event loop with checks and reminders, the builder, and the Telegram sender
  (\<open>src/src/health_monitor/telegram.rs\<close>).

  Strings are byte sequences, as in Rust. A report sender is a function \<open>send\<close> on a state of type \<open>'snd\<close>, which the
  monitor keeps; its result is only logged. \<open>Utc::now()\<close> reads the field \<open>hm_clock\<close>, which advances with the
  branch \<open>Elapse\<close> of the loop: time passes between two branches of \<open>select!\<close> and not while one is handled.
\<close>

section \<open>Client status\<close>

datatype client_event_kind = Connect | Disconnect | ConnectionLoss

record client_event =
  ev_kind :: client_event_kind
  ev_conn_id :: usize
  ev_timestamp :: datetime

datatype health = Healthy | Unstable | Offline

text \<open>The derived order: the variants in the order of their declaration.\<close>

primrec health_rank :: "health \<Rightarrow> nat" where
  "health_rank Healthy = 0"
| "health_rank Unstable = 1"
| "health_rank Offline = 2"

lemma health_rank_inject [simp]: "health_rank a = health_rank b \<longleftrightarrow> a = b"
  by (cases a; cases b) simp_all

instantiation health :: linorder
begin

definition less_eq_health :: "health \<Rightarrow> health \<Rightarrow> bool" where
  "a \<le> b \<longleftrightarrow> health_rank a \<le> health_rank b"

definition less_health :: "health \<Rightarrow> health \<Rightarrow> bool" where
  "a < b \<longleftrightarrow> health_rank a < health_rank b"

instance
  by intro_classes (auto simp: less_eq_health_def less_health_def)

end

record client_status =
  cs_health :: health
  cs_since :: datetime
  cs_local_ip :: "ip_addr option"
  cs_events :: "client_event list"

definition client_status_default :: "datetime \<Rightarrow> client_status" where
  "client_status_default now = \<lparr>cs_health = Offline, cs_since = now, cs_local_ip = None, cs_events = []\<rparr>"

record health_report =
  rep_clients :: "(client_id \<times> client_status) list"

definition health_report_new :: "datetime \<Rightarrow> client_id list \<Rightarrow> health_report" where
  "health_report_new now ids = \<lparr>rep_clients = map (\<lambda>cid. (cid, client_status_default now)) ids\<rparr>"

section \<open>The text report\<close>

text \<open>\<open>Display\<close> for integers and addresses, as in the standard library.\<close>

definition digit :: "nat \<Rightarrow> char" where
  "digit n = (if n < 10 then char_of (48 + n) else char_of (87 + n))"

fun show_base :: "nat \<Rightarrow> nat \<Rightarrow> string" where
  "show_base b n = (if b < 2 \<or> n < b then [digit n] else show_base b (n div b) @ [digit (n mod b)])"

declare show_base.simps [simp del]

definition show_int :: "int \<Rightarrow> string" where
  "show_int i = (if i < 0 then ''-'' @ show_base 10 (nat (- i)) else show_base 10 (nat i))"

fun join :: "string \<Rightarrow> string list \<Rightarrow> string" where
  "join sep [] = []"
| "join sep [x] = x"
| "join sep (x # y # xs) = x @ sep @ join sep (y # xs)"

definition show_ipv4 :: "nat \<Rightarrow> string" where
  "show_ipv4 a = join ''.'' (map (\<lambda>i. show_base 10 (a div 256 ^ i mod 256)) [3, 2, 1, 0])"

definition ipv6_segments :: "nat \<Rightarrow> nat list" where
  "ipv6_segments a = map (\<lambda>i. a div 65536 ^ i mod 65536) [7, 6, 5, 4, 3, 2, 1, 0]"

text \<open>The longest run of zero segments, the first one of that length, as start and length.\<close>

fun zero_run :: "nat \<Rightarrow> nat list \<Rightarrow> nat \<times> nat \<Rightarrow> nat \<times> nat \<Rightarrow> nat \<times> nat" where
  "zero_run i [] current longest = longest"
| "zero_run i (segment # segments) (start, len) longest =
     (if segment = 0
      then (let current = (if len = 0 then i else start, len + 1)
            in zero_run (Suc i) segments current (if snd current > snd longest then current else longest))
      else zero_run (Suc i) segments (0, 0) longest)"

definition show_ipv6 :: "nat \<Rightarrow> string" where
  "show_ipv6 a =
     (let segments = ipv6_segments a;
          subslice = (\<lambda>xs. join '':'' (map (show_base 16) xs))
      in if take 6 segments = [0, 0, 0, 0, 0, 65535] then ''::ffff:'' @ show_ipv4 (a mod 2 ^ 32)
         else
           (let (start, len) = zero_run 0 segments (0, 0) (0, 0)
            in if len > 1 then subslice (take start segments) @ ''::'' @ subslice (drop (start + len) segments)
               else subslice segments))"

fun show_ip :: "ip_addr \<Rightarrow> string" where
  "show_ip (V4 a) = show_ipv4 (unat a)"
| "show_ip (V6 a) = show_ipv6 (unat a)"

text \<open>\<open>num_minutes\<close> rounds towards zero. The icons are the UTF-8 encodings of U+1F7E2, U+1F534 and U+26AB.\<close>

definition num_minutes :: "int \<Rightarrow> int" where
  "num_minutes d = (if d < 0 then - ((- d) div minute_ns) else d div minute_ns)"

fun health_label :: "health \<Rightarrow> string \<times> string" where
  "health_label Healthy = ([CHR 0xF0, CHR 0x9F, CHR 0x9F, CHR 0xA2], ''Healthy'')"
| "health_label Unstable = ([CHR 0xF0, CHR 0x9F, CHR 0x94, CHR 0xB4], ''Unhealthy'')"
| "health_label Offline = ([CHR 0xE2, CHR 0x9A, CHR 0xAB], ''Offline'')"

definition report_line :: "datetime \<Rightarrow> client_id \<times> client_status \<Rightarrow> string" where
  "report_line now = (\<lambda>(cid, status).
     let local_ip = (case cs_local_ip status of Some ip \<Rightarrow> show_ip ip | None \<Rightarrow> ''unknown'');
         (emoji, label) = health_label (cs_health status);
         status_duration = num_minutes (now - cs_since status)
     in emoji @ '' '' @ cid @ '' ('' @ local_ip @ ''): '' @ label @ '' for '' @ show_int status_duration @ '' minutes'')"

definition as_text_report :: "datetime \<Rightarrow> health_report \<Rightarrow> string" where
  "as_text_report now report =
     (let clients = sort_key (\<lambda>(cid, status). (cs_health status, cid)) (rep_clients report)
      in join [CHR 0x0A] (map (report_line now) clients))"

section \<open>The monitor\<close>

record 'snd health_monitor =
  hm_sender :: 'snd
  hm_report :: health_report
  hm_max_client_events :: nat
  hm_connection_loss_limit :: nat
  hm_check_interval :: duration
  hm_reminder_interval :: duration
  hm_offline_grace_period :: duration
  hm_connection_loss_window :: duration
  hm_recovery_grace_period :: duration
  hm_clock :: datetime

type_synonym ('snd, 'e) report_sender = "health_report \<Rightarrow> bool \<Rightarrow> 'snd \<Rightarrow> ('e + unit) \<times> 'snd"

definition send_report :: "('snd, 'e) report_sender \<Rightarrow> bool \<Rightarrow> 'snd health_monitor \<Rightarrow> 'snd health_monitor" where
  "send_report send silent m = m\<lparr>hm_sender := snd (send (hm_report m) silent (hm_sender m))\<rparr>"

text \<open>The latest of the two newest events, by connection ID; the newer one of two with the same ID.\<close>

definition latest_event :: "client_event list \<Rightarrow> client_event option" where
  "latest_event events =
     (case sort_key (\<lambda>e. - uint (ev_conn_id e)) (take 2 events) of [] \<Rightarrow> None | e # _ \<Rightarrow> Some e)"

fun connection_loss_count :: "datetime \<Rightarrow> client_event list \<Rightarrow> nat \<Rightarrow> nat" where
  "connection_loss_count cutoff [] n = n"
| "connection_loss_count cutoff (e # events) n =
     (if ev_timestamp e < cutoff then n
      else connection_loss_count cutoff events (if ev_kind e = ConnectionLoss then n + 1 else n))"

text \<open>The body of the loop over the clients: the status with the silent and the alerting updates.\<close>

definition check_client :: "'snd health_monitor \<Rightarrow> client_status \<Rightarrow> client_status \<times> nat \<times> nat" where
  "check_client m client =
     (let now = hm_clock m;
          offline_cutoff = now - int (hm_offline_grace_period m);
          connection_loss_cutoff = now - int (hm_connection_loss_window m);
          recovery_cutoff = now - int (hm_recovery_grace_period m)
      in if cs_health client = Offline then (client, 0, 0)
         else
           case latest_event (cs_events client) of
             None \<Rightarrow> (client, 0, 0)
           | Some latest \<Rightarrow>
               if ev_kind latest = ConnectionLoss \<and> ev_timestamp latest \<le> offline_cutoff
               then (client\<lparr>cs_health := Offline, cs_since := now\<rparr>, 0, 1)
               else if cs_health client = Unstable \<and> ev_kind latest = Connect \<and> ev_timestamp latest \<le> recovery_cutoff
               then (client\<lparr>cs_health := Healthy, cs_since := now\<rparr>, 1, 0)
               else if cs_health client = Healthy
               then (if connection_loss_count connection_loss_cutoff (cs_events client) 0 \<ge> hm_connection_loss_limit m
                     then (client\<lparr>cs_health := Unstable, cs_since := now\<rparr>, 0, 1)
                     else (client, 0, 0))
               else (client, 0, 0))"

definition check_clients :: "('snd, 'e) report_sender \<Rightarrow> 'snd health_monitor \<Rightarrow> 'snd health_monitor" where
  "check_clients send m =
     (let (clients, silent_updates, alert_updates) =
            foldr (\<lambda>(cid, client) (cs, silent, alert).
              let (client', s, a) = check_client m client in ((cid, client') # cs, s + silent, a + alert))
              (rep_clients (hm_report m)) ([], 0, 0);
          m = m\<lparr>hm_report := \<lparr>rep_clients = clients\<rparr>\<rparr>
      in if alert_updates > 0 then send_report send False m
         else if silent_updates > 0 then send_report send True m
         else m)"

definition send_reminder :: "('snd, 'e) report_sender \<Rightarrow> 'snd health_monitor \<Rightarrow> 'snd health_monitor" where
  "send_reminder send m =
     (if list_ex (\<lambda>(cid, client). cs_health client \<noteq> Healthy) (rep_clients (hm_report m))
      then send_report send False m else m)"

definition push_event :: "'snd health_monitor \<Rightarrow> client_event_kind \<Rightarrow> usize \<Rightarrow> client_status \<Rightarrow> client_status" where
  "push_event m kind conn_id client =
     (let events = \<lparr>ev_kind = kind, ev_conn_id = conn_id, ev_timestamp = hm_clock m\<rparr> # cs_events client
      in client\<lparr>cs_events := (if length events > hm_max_client_events m then butlast events else events)\<rparr>)"

text \<open>\<open>entry(client_id).or_default()\<close> and the update of the entry.\<close>

definition client_or_default :: "'snd health_monitor \<Rightarrow> client_id \<Rightarrow> client_status" where
  "client_or_default m cid =
     (case map_of (rep_clients (hm_report m)) cid of None \<Rightarrow> client_status_default (hm_clock m) | Some client \<Rightarrow> client)"

definition set_client :: "client_id \<Rightarrow> client_status \<Rightarrow> 'snd health_monitor \<Rightarrow> 'snd health_monitor" where
  "set_client cid client m =
     m\<lparr>hm_report := \<lparr>rep_clients = AList.update cid client (rep_clients (hm_report m))\<rparr>\<rparr>"

definition client_connected :: "'snd health_monitor \<Rightarrow> usize \<Rightarrow> ip_addr \<Rightarrow> client_status \<Rightarrow> client_status" where
  "client_connected m conn_id local_ip client =
     (let client = client\<lparr>cs_local_ip := Some local_ip\<rparr>;
          client = (if cs_health client = Offline then client\<lparr>cs_health := Healthy, cs_since := hm_clock m\<rparr> else client)
      in push_event m Connect conn_id client)"

fun handle_event_recv ::
  "('snd, 'e) report_sender \<Rightarrow> recv_result \<Rightarrow> 'snd health_monitor \<Rightarrow> 'snd health_monitor \<times> bool" where
  "handle_event_recv send (Inr (ClientConnect cid conn_id local_ip)) m =
     (let client = client_or_default m cid;
          should_send_report = (cs_health client = Offline);
          m = set_client cid (client_connected m conn_id local_ip client) m
      in (if should_send_report then send_report send True m else m, True))"
| "handle_event_recv send (Inr (ClientDisconnect cid conn_id)) m =
     (let client = (client_or_default m cid)\<lparr>cs_health := Offline, cs_since := hm_clock m\<rparr>;
          m = set_client cid (push_event m Disconnect conn_id client) m
      in (send_report send True m, True))"
| "handle_event_recv send (Inr (ClientConnectionLoss cid conn_id)) m =
     (set_client cid (push_event m ConnectionLoss conn_id (client_or_default m cid)) m, True)"
| "handle_event_recv send (Inr e) m = (m, True)"
| "handle_event_recv send (Inl (Lagged n)) m = (m, True)"
| "handle_event_recv send (Inl Closed) m = (m, False)"

text \<open>The loop: a tick of one of the two intervals, or a received event; \<open>Elapse\<close> is the passing of time. The
  initial report is sent before the loop.\<close>

datatype monitor_branch = CheckTick | ReminderTick | Elapse nat

fun health_step ::
  "('snd, 'e) report_sender \<Rightarrow> monitor_branch select_branch \<Rightarrow> 'snd health_monitor \<Rightarrow> 'snd health_monitor \<times> bool" where
  "health_step send (Other CheckTick) m = (check_clients send m, True)"
| "health_step send (Other ReminderTick) m = (send_reminder send m, True)"
| "health_step send (Other (Elapse d)) m = (m\<lparr>hm_clock := hm_clock m + int d\<rparr>, True)"
| "health_step send (Recv result) m = handle_event_recv send result m"

definition health_listen ::
  "('snd, 'e) report_sender \<Rightarrow> monitor_branch select_branch list \<Rightarrow> 'snd health_monitor \<Rightarrow> 'snd health_monitor \<times> bool" where
  "health_listen send branches m = event_loop (health_step send) branches (send_report send False m)"

section \<open>The builder\<close>

datatype health_builder_error = HealthMissingField string | InvalidValue string

record 'snd health_builder =
  hb_sender :: "'snd option"
  hb_event_rx :: "unit option"
  hb_client_ids :: "client_id list"
  hb_max_client_events :: nat
  hb_connection_loss_limit :: nat
  hb_check_interval :: duration
  hb_reminder_interval :: duration
  hb_offline_grace_period :: duration
  hb_connection_loss_window :: duration
  hb_recovery_grace_period :: duration

definition health_builder_new :: "'snd health_builder" where
  "health_builder_new =
     \<lparr>hb_sender = None, hb_event_rx = None, hb_client_ids = [], hb_max_client_events = 50,
      hb_connection_loss_limit = 3, hb_check_interval = from_secs 30, hb_reminder_interval = from_secs 1800,
      hb_offline_grace_period = from_secs 120, hb_connection_loss_window = from_secs 600,
      hb_recovery_grace_period = from_secs 1200\<rparr>"

definition health_builder_sender :: "'snd \<Rightarrow> 'snd health_builder \<Rightarrow> 'snd health_builder" where
  "health_builder_sender x b = b\<lparr>hb_sender := Some x\<rparr>"

definition health_builder_event_rx :: "unit \<Rightarrow> 'snd health_builder \<Rightarrow> 'snd health_builder" where
  "health_builder_event_rx x b = b\<lparr>hb_event_rx := Some x\<rparr>"

definition health_builder_client_ids :: "client_id list \<Rightarrow> 'snd health_builder \<Rightarrow> 'snd health_builder" where
  "health_builder_client_ids x b = b\<lparr>hb_client_ids := x\<rparr>"

definition health_builder_max_client_events :: "nat \<Rightarrow> 'snd health_builder \<Rightarrow> 'snd health_builder" where
  "health_builder_max_client_events x b = b\<lparr>hb_max_client_events := x\<rparr>"

definition health_builder_connection_loss_limit :: "nat \<Rightarrow> 'snd health_builder \<Rightarrow> 'snd health_builder" where
  "health_builder_connection_loss_limit x b = b\<lparr>hb_connection_loss_limit := x\<rparr>"

definition health_builder_check_interval :: "duration \<Rightarrow> 'snd health_builder \<Rightarrow> 'snd health_builder" where
  "health_builder_check_interval x b = b\<lparr>hb_check_interval := x\<rparr>"

definition health_builder_reminder_interval :: "duration \<Rightarrow> 'snd health_builder \<Rightarrow> 'snd health_builder" where
  "health_builder_reminder_interval x b = b\<lparr>hb_reminder_interval := x\<rparr>"

definition health_builder_offline_grace_period :: "duration \<Rightarrow> 'snd health_builder \<Rightarrow> 'snd health_builder" where
  "health_builder_offline_grace_period x b = b\<lparr>hb_offline_grace_period := x\<rparr>"

definition health_builder_connection_loss_window :: "duration \<Rightarrow> 'snd health_builder \<Rightarrow> 'snd health_builder" where
  "health_builder_connection_loss_window x b = b\<lparr>hb_connection_loss_window := x\<rparr>"

definition health_builder_recovery_grace_period :: "duration \<Rightarrow> 'snd health_builder \<Rightarrow> 'snd health_builder" where
  "health_builder_recovery_grace_period x b = b\<lparr>hb_recovery_grace_period := x\<rparr>"

definition health_build :: "datetime \<Rightarrow> 'snd health_builder \<Rightarrow> health_builder_error + 'snd health_monitor" where
  "health_build now b =
     try_bind (ok_or (HealthMissingField ''sender'') (hb_sender b)) (\<lambda>snd.
     try_bind (ok_or (HealthMissingField ''event_r'') (hb_event_rx b)) (\<lambda>rx.
       if hb_max_client_events b < 2 then Inl (InvalidValue ''max_client_events must be at least 2'')
       else if hb_connection_loss_limit b < 1 then Inl (InvalidValue ''connection_loss_limit must be at least 1'')
       else Inr \<lparr>hm_sender = snd, hm_report = health_report_new now (hb_client_ids b),
         hm_max_client_events = hb_max_client_events b, hm_connection_loss_limit = hb_connection_loss_limit b,
         hm_check_interval = hb_check_interval b, hm_reminder_interval = hb_reminder_interval b,
         hm_offline_grace_period = hb_offline_grace_period b, hm_connection_loss_window = hb_connection_loss_window b,
         hm_recovery_grace_period = hb_recovery_grace_period b, hm_clock = now\<rparr>))"

section \<open>The Telegram sender\<close>

text \<open>The bot's requests are functions on its state; a message ID is an \<open>i32\<close>. Its clock stands for the
  \<open>Utc::now()\<close> of \<open>as_text_report\<close>.\<close>

record ('b, 'e) telegram_api =
  send_message :: "int \<Rightarrow> string \<Rightarrow> bool \<Rightarrow> 'b \<Rightarrow> ('e + 32 word) \<times> 'b"
  delete_message :: "int \<Rightarrow> 32 word \<Rightarrow> 'b \<Rightarrow> ('e + unit) \<times> 'b"

record 'b telegram_sender =
  tg_bot :: 'b
  tg_chat_id :: int

definition telegram_sender_new :: "(string \<Rightarrow> 'b) \<Rightarrow> string \<Rightarrow> int \<Rightarrow> 'b telegram_sender" where
  "telegram_sender_new bot_new token chat_id = \<lparr>tg_bot = bot_new token, tg_chat_id = chat_id\<rparr>"

definition telegram_send :: "('b, 'e) telegram_api \<Rightarrow> datetime \<Rightarrow> ('b telegram_sender, 'e) report_sender" where
  "telegram_send api now report silent s =
     (let chat_id = tg_chat_id s;
          (sent, bot) = send_message api chat_id (as_text_report now report) silent (tg_bot s)
      in case sent of
           Inl e \<Rightarrow> (Inl e, s\<lparr>tg_bot := bot\<rparr>)
         | Inr message_id \<Rightarrow> (Inr (), s\<lparr>tg_bot := snd (delete_message api chat_id (message_id - 1) bot)\<rparr>))"

interpretation health: event_consumer "health_step send" for send
proof (unfold_locales, goal_cases)
  case (1 i m)
  show ?case
  proof (cases i)
    case (Other k)
    then show ?thesis by (cases k) simp_all
  next
    case (Recv r)
    then show ?thesis by (cases "(send, r, m)" rule: handle_event_recv.cases) (simp_all add: Let_def)
  qed
qed simp

section \<open>Statuses after a step\<close>

abbreviation status_of :: "'snd health_monitor \<Rightarrow> client_id \<Rightarrow> client_status option" where
  "status_of m cid \<equiv> map_of (rep_clients (hm_report m)) cid"

text \<open>The health of a client, with one that is not in the report being offline.\<close>

definition health_of :: "'snd health_monitor \<Rightarrow> client_id \<Rightarrow> health" where
  "health_of m cid = (case status_of m cid of None \<Rightarrow> Offline | Some client \<Rightarrow> cs_health client)"

definition check_status :: "'snd health_monitor \<Rightarrow> client_status \<Rightarrow> client_status" where
  "check_status m client = fst (check_client m client)"

abbreviation silent_of :: "'snd health_monitor \<Rightarrow> client_status \<Rightarrow> nat" where
  "silent_of m client \<equiv> fst (snd (check_client m client))"

abbreviation alert_of :: "'snd health_monitor \<Rightarrow> client_status \<Rightarrow> nat" where
  "alert_of m client \<equiv> snd (snd (check_client m client))"

lemma send_report_frame [simp]:
  "hm_report (send_report send silent m) = hm_report m" "hm_clock (send_report send silent m) = hm_clock m"
  "hm_max_client_events (send_report send silent m) = hm_max_client_events m"
  "hm_offline_grace_period (send_report send silent m) = hm_offline_grace_period m"
  by (simp_all add: send_report_def)

lemma set_client_frame [simp]:
  "status_of (set_client cid client m) = (status_of m)(cid \<mapsto> client)" "hm_clock (set_client cid client m) = hm_clock m"
  "hm_max_client_events (set_client cid client m) = hm_max_client_events m"
  "hm_offline_grace_period (set_client cid client m) = hm_offline_grace_period m"
  "hm_sender (set_client cid client m) = hm_sender m"
  by (simp_all add: set_client_def update_conv' fun_eq_iff)

lemma push_event_frame [simp]:
  "cs_health (push_event m k n client) = cs_health client" "cs_since (push_event m k n client) = cs_since client"
  by (simp_all add: push_event_def Let_def)

lemma client_connected_frame [simp]:
  "cs_health (client_connected m n ip client) = (if cs_health client = Offline then Healthy else cs_health client)"
  by (simp add: client_connected_def)

lemma check_fold:
  "foldr (\<lambda>(cid, client) (cs, silent, alert).
     let (client', s, a) = check_client m client in ((cid, client') # cs, s + silent, a + alert)) clients ([], 0, 0) =
   (map (\<lambda>(cid, client). (cid, check_status m client)) clients,
    sum_list (map (silent_of m \<circ> snd) clients), sum_list (map (alert_of m \<circ> snd) clients))"
  by (induction clients) (auto simp: check_status_def Let_def split: prod.split)

lemma check_clients_eq:
  "check_clients send m =
     (let m' = m\<lparr>hm_report := \<lparr>rep_clients = map (\<lambda>(cid, client). (cid, check_status m client)) (rep_clients (hm_report m))\<rparr>\<rparr>
      in if \<exists>(cid, client) \<in> set (rep_clients (hm_report m)). alert_of m client > 0 then send_report send False m'
         else if \<exists>(cid, client) \<in> set (rep_clients (hm_report m)). silent_of m client > 0 then send_report send True m'
         else m')"
proof -
  have pos: "0 < sum_list (map (f \<circ> snd) clients) \<longleftrightarrow> (\<exists>(cid, client) \<in> set clients. 0 < f client)"
    for f :: "client_status \<Rightarrow> nat" and clients :: "(client_id \<times> client_status) list"
    by (induction clients) auto
  show ?thesis unfolding check_clients_def check_fold by (simp only: prod.case Let_def pos)
qed

lemma check_clients_report:
  "rep_clients (hm_report (check_clients send m)) =
     map (\<lambda>(cid, client). (cid, check_status m client)) (rep_clients (hm_report m))"
  by (simp add: check_clients_eq Let_def)

lemma check_clients_frame [simp]:
  "status_of (check_clients send m) = (\<lambda>cid. map_option (check_status m) (status_of m cid))"
  "hm_clock (check_clients send m) = hm_clock m"
  "hm_max_client_events (check_clients send m) = hm_max_client_events m"
  "hm_offline_grace_period (check_clients send m) = hm_offline_grace_period m"
  unfolding check_clients_report map_of_map by (simp_all add: check_clients_eq Let_def fun_eq_iff)

lemma send_reminder_frame [simp]:
  "hm_report (send_reminder send m) = hm_report m" "hm_clock (send_reminder send m) = hm_clock m"
  "hm_max_client_events (send_reminder send m) = hm_max_client_events m"
  "hm_offline_grace_period (send_reminder send m) = hm_offline_grace_period m"
  by (simp_all add: send_reminder_def)

lemma check_status_events [simp]: "cs_events (check_status m client) = cs_events client"
  by (simp add: check_status_def check_client_def Let_def split: option.split)

text \<open>The numbers of updates say how the health of the client changed.\<close>

lemma check_updates:
  "alert_of m client > 0 \<longleftrightarrow> cs_health client < cs_health (check_status m client)"
  "silent_of m client > 0 \<longleftrightarrow> cs_health (check_status m client) < cs_health client"
  by (cases "cs_health client"; simp add: check_status_def check_client_def Let_def less_health_def split: option.split)+

section \<open>Clients without events\<close>

text \<open>Branches that bring no event, or no connect event, of a client.\<close>

fun event_of :: "client_id \<Rightarrow> 'k select_branch \<Rightarrow> bool" where
  "event_of cid (Recv (Inr (ClientConnect c n ip))) \<longleftrightarrow> c = cid"
| "event_of cid (Recv (Inr (ClientDisconnect c n))) \<longleftrightarrow> c = cid"
| "event_of cid (Recv (Inr (ClientConnectionLoss c n))) \<longleftrightarrow> c = cid"
| "event_of cid _ \<longleftrightarrow> False"

fun connect_of :: "client_id \<Rightarrow> 'k select_branch \<Rightarrow> bool" where
  "connect_of cid (Recv (Inr (ClientConnect c n ip))) \<longleftrightarrow> c = cid"
| "connect_of cid _ \<longleftrightarrow> False"

lemma branch_cases:
  obtains (check) "i = Other CheckTick" | (reminder) "i = Other ReminderTick" | (elapse) d where "i = Other (Elapse d)"
  | (connect) c n ip where "i = Recv (Inr (ClientConnect c n ip))"
  | (disconnect) c n where "i = Recv (Inr (ClientDisconnect c n))"
  | (loss) c n where "i = Recv (Inr (ClientConnectionLoss c n))"
  | (processed) b where "i = Recv (Inr (BloopProcessed b))"
  | (awards) b where "i = Recv (Inr (AchievementsAwarded b))"
  | (lagged) n where "i = Recv (Inl (Lagged n))" | (closed) "i = Recv (Inl Closed)"
proof (cases i)
  case (Other k)
  then show thesis using that by (cases k) blast+
next
  case (Recv r)
  show thesis
  proof (cases r)
    case (Inl e)
    with Recv that show thesis by (cases e) blast+
  next
    case (Inr e)
    with Recv that show thesis by (cases e) blast+
  qed
qed

lemma quiet_step:
  assumes "\<not> event_of cid i" "status_of m cid = Some client"
  shows "\<exists>client'. status_of (fst (health_step send i m)) cid = Some client' \<and> cs_events client' = cs_events client \<and>
    hm_offline_grace_period (fst (health_step send i m)) = hm_offline_grace_period m"
  using assms by (cases i rule: branch_cases) (auto simp: Let_def)

lemma quiet_loop:
  assumes "list_all (\<lambda>i. \<not> event_of cid i) branches" "status_of m cid = Some client"
  shows "\<exists>client'. status_of (fst (event_loop (health_step send) branches m)) cid = Some client' \<and>
    cs_events client' = cs_events client \<and>
    hm_offline_grace_period (fst (event_loop (health_step send) branches m)) = hm_offline_grace_period m"
  using assms
proof (induction branches arbitrary: m client)
  case (Cons i branches)
  obtain m' b where step: "health_step send i m = (m', b)" by (cases "health_step send i m")
  from Cons.prems obtain client' where 1: "status_of m' cid = Some client'" "cs_events client' = cs_events client"
    "hm_offline_grace_period m' = hm_offline_grace_period m"
    using quiet_step [of cid i m client send] by (auto simp: step)
  with Cons.IH [OF _ 1(1)] Cons.prems(1) show ?case by (simp add: step)
qed simp

lemma offline_step:
  assumes "\<not> connect_of cid i" "health_of m cid = Offline"
  shows "health_of (fst (health_step send i m)) cid = Offline"
  using assms
  by (cases i rule: branch_cases)
    (auto simp: Let_def health_of_def client_or_default_def client_status_default_def check_status_def check_client_def
      split: option.splits)

lemma offline_loop:
  assumes "list_all (\<lambda>i. \<not> connect_of cid i) branches" "health_of m cid = Offline"
  shows "health_of (fst (event_loop (health_step send) branches m)) cid = Offline"
  using assms
proof (induction branches arbitrary: m)
  case (Cons i branches)
  obtain m' b where "health_step send i m = (m', b)" by (cases "health_step send i m")
  with Cons offline_step [of cid i m send] show ?case by simp
qed simp

lemma event_loop_append:
  "event_loop step (is @ js) s = (let (s', b) = event_loop step is s in if b then event_loop step js s' else (s', b))"
  by (induction "is" arbitrary: s) (auto simp: Let_def split: prod.split)

lemma latest_event_Cons:
  "latest_event (e # es) =
     Some (case es of [] \<Rightarrow> e | e' # _ \<Rightarrow> if ev_conn_id e < ev_conn_id e' then e' else e)"
  by (auto simp: latest_event_def numeral_2_eq_2 word_less_def split: list.split)

section \<open>Invariant\<close>

definition status_ok :: "nat \<Rightarrow> datetime \<Rightarrow> client_status \<Rightarrow> bool" where
  "status_ok max_events now client \<longleftrightarrow>
     length (cs_events client) \<le> max_events \<and> cs_since client \<le> now \<and>
     sorted_wrt (\<lambda>e e'. ev_timestamp e' \<le> ev_timestamp e) (cs_events client) \<and>
     list_all (\<lambda>e. ev_timestamp e \<le> now) (cs_events client) \<and>
     (cs_health client = Offline \<or> cs_events client \<noteq> [])"

definition monitor_ok :: "'snd health_monitor \<Rightarrow> bool" where
  "monitor_ok m \<longleftrightarrow>
     hm_max_client_events m \<ge> 2 \<and> map_wf (rep_clients (hm_report m)) \<and>
     list_all (\<lambda>(cid, client). status_ok (hm_max_client_events m) (hm_clock m) client) (rep_clients (hm_report m))"

lemma monitor_ok_alt:
  "monitor_ok m \<longleftrightarrow> hm_max_client_events m \<ge> 2 \<and> map_wf (rep_clients (hm_report m)) \<and>
     (\<forall>cid client. status_of m cid = Some client \<longrightarrow> status_ok (hm_max_client_events m) (hm_clock m) client)"
  by (auto simp: monitor_ok_def list_all_iff)

lemma status_ok_default [inv_intros]: "status_ok n now (client_status_default now)"
  by (simp add: status_ok_def client_status_default_def)

lemma sorted_wrt_butlast: "sorted_wrt P xs \<Longrightarrow> sorted_wrt P (butlast xs)"
  by (simp add: butlast_conv_take sorted_wrt_take)

lemma status_ok_push [inv_intros]:
  assumes "length (cs_events client) \<le> hm_max_client_events m" "cs_since client \<le> hm_clock m"
    "sorted_wrt (\<lambda>e e'. ev_timestamp e' \<le> ev_timestamp e) (cs_events client)"
    "list_all (\<lambda>e. ev_timestamp e \<le> hm_clock m) (cs_events client)" "hm_max_client_events m \<ge> 2"
  shows "status_ok (hm_max_client_events m) (hm_clock m) (push_event m k n client)"
proof -
  let ?es = "\<lparr>ev_kind = k, ev_conn_id = n, ev_timestamp = hm_clock m\<rparr> # cs_events client"
  have es: "sorted_wrt (\<lambda>e e'. ev_timestamp e' \<le> ev_timestamp e) ?es" "list_all (\<lambda>e. ev_timestamp e \<le> hm_clock m) ?es"
    using assms(3,4) by (simp_all add: list_all_iff)
  have "list_all (\<lambda>e. ev_timestamp e \<le> hm_clock m) (butlast ?es)"
    using es(2) unfolding list_all_iff by (blast dest: in_set_butlastD)
  moreover note es sorted_wrt_butlast [OF es(1)]
  moreover have "butlast ?es \<noteq> []" if "length ?es > hm_max_client_events m"
    using that assms(5) by (metis length_butlast list.size(3) diff_is_0_eq le_neq_implies_less less_le_trans not_less one_le_numeral)
  ultimately show ?thesis using assms(1,2) by (auto simp: status_ok_def push_event_def Let_def)
qed

lemma status_ok_check [inv_intros]:
  "status_ok (hm_max_client_events m) (hm_clock m) client \<Longrightarrow>
   status_ok (hm_max_client_events m) (hm_clock m) (check_status m client)"
  by (auto simp: status_ok_def check_status_def check_client_def Let_def latest_event_def split: option.splits list.splits)

lemma monitor_ok_set_client:
  "monitor_ok m \<Longrightarrow> status_ok (hm_max_client_events m) (hm_clock m) client \<Longrightarrow> monitor_ok (set_client cid client m)"
  unfolding monitor_ok_alt by (auto simp: set_client_def update_conv' distinct_update split: if_splits)

lemma monitor_ok_send [simp]: "monitor_ok (send_report send silent m) \<longleftrightarrow> monitor_ok m"
  by (simp add: monitor_ok_def)

lemma client_or_default_ok:
  assumes "monitor_ok m"
  shows "status_ok (hm_max_client_events m) (hm_clock m) (client_or_default m cid)"
  using assms by (auto simp: monitor_ok_alt client_or_default_def status_ok_default split: option.split)

lemma monitor_ok_step:
  assumes "monitor_ok m"
  shows "monitor_ok (fst (health_step send i m))"
proof -
  have two: "hm_max_client_events m \<ge> 2" using assms by (simp add: monitor_ok_def)
  note ok = client_or_default_ok [OF assms, unfolded status_ok_def]
  show ?thesis
  proof (cases i rule: branch_cases)
    case check
    have "map_wf (rep_clients (hm_report (check_clients send m)))"
      using assms by (simp add: monitor_ok_def check_clients_report comp_def case_prod_unfold)
    then show ?thesis using assms check by (auto simp: monitor_ok_alt status_ok_check)
  next
    case (elapse d)
    then show ?thesis using assms by (fastforce simp: monitor_ok_def list_all_iff status_ok_def)
  next
    case (connect c n ip)
    have "status_ok (hm_max_client_events m) (hm_clock m) (client_connected m n ip (client_or_default m c))"
      unfolding client_connected_def Let_def by (rule status_ok_push) (use ok [of c] two in simp_all)
    then show ?thesis using assms connect by (simp add: Let_def monitor_ok_set_client)
  next
    case (disconnect c n)
    have "status_ok (hm_max_client_events m) (hm_clock m)
        (push_event m Disconnect n ((client_or_default m c)\<lparr>cs_health := Offline, cs_since := hm_clock m\<rparr>))"
      by (rule status_ok_push) (use ok [of c] two in simp_all)
    then show ?thesis using assms disconnect by (simp add: Let_def monitor_ok_set_client)
  next
    case (loss c n)
    have "status_ok (hm_max_client_events m) (hm_clock m) (push_event m ConnectionLoss n (client_or_default m c))"
      by (rule status_ok_push) (use ok [of c] two in simp_all)
    then show ?thesis using assms loss by (simp add: monitor_ok_set_client)
  qed (use assms in \<open>simp_all add: monitor_ok_def send_reminder_def\<close>)
qed

lemma monitor_ok_loop:
  assumes "monitor_ok m"
  shows "monitor_ok (fst (event_loop (health_step send) branches m))"
  by (rule health.loop_invariant [of monitor_ok, OF assms]) (simp add: health.effect_def monitor_ok_step)

lemma monitor_ok_build:
  assumes "health_build now b = Inr m" "distinct (hb_client_ids b)"
  shows "monitor_ok m"
  using assms
  by (auto simp: health_build_def try_bind_Inr monitor_ok_def health_report_new_def list_all_iff comp_def
      status_ok_default split: if_splits)

lemma connection_loss_count_window:
  assumes "sorted_wrt (\<lambda>e e'. ev_timestamp e' \<le> ev_timestamp e) es"
  shows "connection_loss_count cutoff es n =
    n + length (filter (\<lambda>e. ev_kind e = ConnectionLoss \<and> cutoff \<le> ev_timestamp e) es)"
  using assms
proof (induction cutoff es n rule: connection_loss_count.induct)
  case (2 cutoff e es n)
  show ?case
  proof (cases "ev_timestamp e < cutoff")
    case True
    with 2(2) have "filter (\<lambda>e. ev_kind e = ConnectionLoss \<and> cutoff \<le> ev_timestamp e) es = []"
      by (fastforce simp: filter_empty_conv)
    with True show ?thesis by simp
  next
    case False
    with 2 show ?thesis by simp
  qed
qed simp

section \<open>Connected clients\<close>

text \<open>The client is not offline and its newest event is a connect whose ID is above all stored ones.\<close>

definition online :: "client_id \<Rightarrow> 'snd health_monitor \<Rightarrow> bool" where
  "online cid m \<longleftrightarrow>
     (\<exists>client e es. status_of m cid = Some client \<and> cs_health client \<noteq> Offline \<and> cs_events client = e # es \<and>
        ev_kind e = Connect \<and> list_all (\<lambda>e'. ev_conn_id e' < ev_conn_id e) es)"

lemma push_event_events:
  assumes "hm_max_client_events m \<ge> 1"
  shows "\<exists>es. cs_events (push_event m k n client) = \<lparr>ev_kind = k, ev_conn_id = n, ev_timestamp = hm_clock m\<rparr> # es \<and>
    set es \<subseteq> set (cs_events client)"
  using assms by (auto simp: push_event_def Let_def dest: in_set_butlastD)

lemma online_connect:
  assumes "list_all (\<lambda>e. ev_conn_id e < n) (cs_events (client_or_default m cid))" "hm_max_client_events m \<ge> 1"
  shows "online cid (fst (handle_event_recv send (Inr (ClientConnect cid n ip)) m))"
proof -
  let ?c = "client_or_default m cid"
  let ?c' = "if cs_health (?c\<lparr>cs_local_ip := Some ip\<rparr>) = Offline
      then ?c\<lparr>cs_local_ip := Some ip, cs_health := Healthy, cs_since := hm_clock m\<rparr> else ?c\<lparr>cs_local_ip := Some ip\<rparr>"
  obtain es where "cs_events (push_event m Connect n ?c') =
      \<lparr>ev_kind = Connect, ev_conn_id = n, ev_timestamp = hm_clock m\<rparr> # es" "set es \<subseteq> set (cs_events ?c')"
    using push_event_events [OF assms(2), of Connect n ?c'] by blast
  moreover have "cs_events ?c' = cs_events ?c" by simp
  moreover have "client_connected m n ip ?c = push_event m Connect n ?c'" by (simp add: client_connected_def Let_def)
  ultimately have "cs_events (client_connected m n ip ?c) =
      \<lparr>ev_kind = Connect, ev_conn_id = n, ev_timestamp = hm_clock m\<rparr> # es" "set es \<subseteq> set (cs_events ?c)" by simp_all
  with assms(1) show ?thesis by (auto simp: online_def Let_def list_all_iff)
qed

lemma check_status_connected:
  assumes "cs_health client \<noteq> Offline" "cs_events client = e # es" "ev_kind e = Connect"
    "list_all (\<lambda>e'. ev_conn_id e' < ev_conn_id e) es"
  shows "cs_health (check_status m client) \<noteq> Offline"
proof -
  have "latest_event (cs_events client) = Some e" using assms(2,4) by (cases es) (auto simp: latest_event_Cons)
  with assms(1,3) show ?thesis by (simp add: check_status_def check_client_def Let_def)
qed

lemma online_step: "online cid m \<Longrightarrow> \<not> event_of cid i \<Longrightarrow> online cid (fst (health_step send i m))"
  by (cases i rule: branch_cases) (auto simp: online_def Let_def check_status_connected)

lemma online_loop:
  assumes "online cid m" "list_all (\<lambda>i. \<not> event_of cid i) quiet"
  shows "online cid (fst (event_loop (health_step send) quiet m))"
  using assms
proof (induction quiet arbitrary: m)
  case (Cons i quiet)
  obtain m' b where "health_step send i m = (m', b)" by (cases "health_step send i m")
  with Cons online_step [of cid m i send] show ?case by simp
qed simp

section \<open>Properties\<close>

text \<open>C26: However events, checks, reminders and the passing of time interleave, the statuses of a monitor that
  was built with distinct client IDs stay consistent: one status per client, at most \<open>max_client_events\<close> events
  each, newest first and none in the future, and a client that is not offline has an event. Hence the
  loop over the events, which stops at the first one before the window, counts exactly the
  connection losses inside the window.\<close>

theorem monitor_statuses_stay_consistent:
  assumes "health_build now b = Inr m" "distinct (hb_client_ids b)"
  shows "(let m' = fst (health_listen send branches m)
          in map_wf (rep_clients (hm_report m')) \<and>
             (\<forall>cid client. status_of m' cid = Some client \<longrightarrow>
                length (cs_events client) \<le> hm_max_client_events m' \<and> cs_since client \<le> hm_clock m' \<and>
                sorted_wrt (\<lambda>e e'. ev_timestamp e' \<le> ev_timestamp e) (cs_events client) \<and>
                list_all (\<lambda>e. ev_timestamp e \<le> hm_clock m') (cs_events client) \<and>
                (cs_health client = Offline \<or> cs_events client \<noteq> []) \<and>
                (\<forall>cutoff. connection_loss_count cutoff (cs_events client) 0 =
                   length (filter (\<lambda>e. ev_kind e = ConnectionLoss \<and> cutoff \<le> ev_timestamp e) (cs_events client)))))"
proof -
  have "monitor_ok (fst (health_listen send branches m))"
    unfolding health_listen_def using monitor_ok_build [OF assms] by (intro monitor_ok_loop) simp
  then show ?thesis by (auto simp: monitor_ok_alt status_ok_def connection_loss_count_window)
qed

text \<open>A sender that keeps the healths and the silent flags it is given, and a monitor with one client.\<close>

definition demo_send :: "(((client_id \<times> health) list \<times> bool) list, unit) report_sender" where
  "demo_send report silent log = (Inr (), log @ [(map (\<lambda>(cid, c). (cid, cs_health c)) (rep_clients report), silent)])"

definition demo_builder :: "((client_id \<times> health) list \<times> bool) list health_builder" where
  "demo_builder =
     health_builder_client_ids [''c''] (health_builder_event_rx () (health_builder_sender [] health_builder_new))"

definition demo_monitor :: "((client_id \<times> health) list \<times> bool) list health_monitor" where
  "demo_monitor = (case health_build 0 demo_builder of Inr m \<Rightarrow> m)"

lemmas demo_health =
  demo_monitor_def demo_builder_def health_build_def health_builder_new_def health_builder_sender_def
  health_builder_event_rx_def health_builder_client_ids_def

theorem monitor_statuses_stay_consistent_witness:
  "map_wf (rep_clients (hm_report (fst (health_listen demo_send
     [Recv (Inr (ClientConnect ''c'' 0 (V4 1))), Other (Elapse 5), Recv (Inr (ClientConnectionLoss ''c'' 0)), Other CheckTick]
     demo_monitor))))"
  using monitor_statuses_stay_consistent [of 0 demo_builder demo_monitor demo_send
    "[Recv (Inr (ClientConnect ''c'' 0 (V4 1))), Other (Elapse 5), Recv (Inr (ClientConnectionLoss ''c'' 0)), Other CheckTick]"]
  by (simp add: demo_health Let_def)

text \<open>C25: Changes of health are reported. A check sends a report with the new statuses that is not silent exactly
  when some client's health got worse, a silent one when at least one got better and none worse, and
  none when nothing changed. A received event that changes the health of a client sends a
  silent report with the new statuses. A reminder changes no status and sends a report that is not
  silent exactly when some client is not healthy.\<close>

theorem health_changes_are_reported:
  assumes "map_wf (rep_clients (hm_report m))"
  shows "(let m' = check_clients send m
          in hm_sender m' =
               (if \<exists>cid. health_of m cid < health_of m' cid then snd (send (hm_report m') False (hm_sender m))
                else if \<exists>cid. health_of m' cid < health_of m cid then snd (send (hm_report m') True (hm_sender m))
                else hm_sender m)) \<and>
         (let m' = fst (handle_event_recv send r m)
          in (\<exists>cid. health_of m' cid \<noteq> health_of m cid) \<longrightarrow>
               hm_sender m' = snd (send (hm_report m') True (hm_sender m))) \<and>
         (let m' = send_reminder send m
          in hm_report m' = hm_report m \<and>
             hm_sender m' =
               (if \<exists>cid client. status_of m cid = Some client \<and> cs_health client \<noteq> Healthy
                then snd (send (hm_report m') False (hm_sender m)) else hm_sender m))"
proof (intro conjI)
  have mem: "(\<exists>(cid, client) \<in> set (rep_clients (hm_report m)). P client) \<longleftrightarrow>
      (\<exists>cid client. status_of m cid = Some client \<and> P client)" for P
    using assms by (auto simp: map_of_eq_Some_iff)
  have worse: "(\<exists>cid. health_of m cid < health_of (check_clients send m) cid) \<longleftrightarrow>
      (\<exists>(cid, client) \<in> set (rep_clients (hm_report m)). alert_of m client > 0)"
    unfolding mem check_updates by (auto simp: health_of_def split: option.split)
  have better: "(\<exists>cid. health_of (check_clients send m) cid < health_of m cid) \<longleftrightarrow>
      (\<exists>(cid, client) \<in> set (rep_clients (hm_report m)). silent_of m client > 0)"
    unfolding mem check_updates by (auto simp: health_of_def split: option.split)
  show "let m' = check_clients send m
          in hm_sender m' =
               (if \<exists>cid. health_of m cid < health_of m' cid then snd (send (hm_report m') False (hm_sender m))
                else if \<exists>cid. health_of m' cid < health_of m cid then snd (send (hm_report m') True (hm_sender m))
                else hm_sender m)"
    unfolding Let_def worse better by (simp add: check_clients_eq Let_def send_report_def)
  show "let m' = fst (handle_event_recv send r m)
          in (\<exists>cid. health_of m' cid \<noteq> health_of m cid) \<longrightarrow>
               hm_sender m' = snd (send (hm_report m') True (hm_sender m))"
    by (cases "(send, r, m)" rule: handle_event_recv.cases)
      (auto simp: Let_def send_report_def health_of_def client_or_default_def client_status_default_def split: option.splits)
  show "let m' = send_reminder send m
          in hm_report m' = hm_report m \<and>
             hm_sender m' =
               (if \<exists>cid client. status_of m cid = Some client \<and> cs_health client \<noteq> Healthy
                then snd (send (hm_report m') False (hm_sender m)) else hm_sender m)"
    unfolding Let_def mem [symmetric] by (simp add: send_reminder_def send_report_def list_ex_iff)
qed

theorem health_changes_are_reported_witness:
  "hm_sender (fst (handle_event_recv demo_send (Inr (ClientConnect ''c'' 0 (V4 1))) demo_monitor)) = [([(''c'', Healthy)], True)]"
proof -
  have "health_of (fst (handle_event_recv demo_send (Inr (ClientConnect ''c'' 0 (V4 1))) demo_monitor)) ''c'' \<noteq>
      health_of demo_monitor ''c''"
    by (simp add: demo_health health_of_def health_report_new_def client_status_default_def client_or_default_def Let_def)
  moreover have "map_wf (rep_clients (hm_report demo_monitor))" by (simp add: demo_health health_report_new_def)
  ultimately have "hm_sender (fst (handle_event_recv demo_send (Inr (ClientConnect ''c'' 0 (V4 1))) demo_monitor)) =
      snd (demo_send (hm_report (fst (handle_event_recv demo_send (Inr (ClientConnect ''c'' 0 (V4 1))) demo_monitor))) True
        (hm_sender demo_monitor))"
    using health_changes_are_reported [of demo_monitor demo_send "Inr (ClientConnect ''c'' 0 (V4 1))"] unfolding Let_def by blast
  then show ?thesis
    by (simp add: demo_health demo_send_def health_report_new_def client_status_default_def client_or_default_def Let_def
        set_client_def send_report_def)
qed

text \<open>C23: A client whose connection was lost is taken offline. When the newest event of a client is the
  loss of a connection that no stored newer connection follows, then, whatever else happens in the
  meantime as long as no event of this client arrives, the first check after the grace period shows it
  offline, and it stays offline until it connects again.\<close>

theorem lost_client_goes_offline:
  assumes "status_of m cid = Some client" "cs_events client = e # es" "ev_kind e = ConnectionLoss"
    and "list_all (\<lambda>e'. ev_conn_id e' \<le> ev_conn_id e) (take 1 es)"
    and "list_all (\<lambda>i. \<not> event_of cid i \<and> i \<noteq> Recv (Inl Closed)) quiet"
    and "ev_timestamp e + int (hm_offline_grace_period m) \<le> hm_clock (fst (event_loop (health_step send) quiet m))"
    and "list_all (\<lambda>i. \<not> connect_of cid i) later"
  shows "health_of (fst (event_loop (health_step send) (quiet @ Other CheckTick # later) m)) cid = Offline"
proof -
  obtain m' b where loop: "event_loop (health_step send) quiet m = (m', b)" by fastforce
  have "Recv (Inl Closed) \<notin> set quiet" using assms(5) by (auto simp: list_all_iff)
  then have b using health.loop_ends_iff_closed [of send quiet m] loop by simp
  obtain client' where client': "status_of m' cid = Some client'" "cs_events client' = e # es"
    "hm_offline_grace_period m' = hm_offline_grace_period m"
    using quiet_loop [OF _ assms(1), of quiet send] assms(2,5) loop by (auto simp: list_all_iff)
  have "latest_event (e # es) = Some e"
    using assms(4) by (cases es) (auto simp: latest_event_Cons)
  then have "cs_health (check_status m' client') = Offline"
    using client' assms(3,6) loop by (simp add: check_status_def check_client_def Let_def)
  then have "health_of (check_clients send m') cid = Offline" using client'(1) by (simp add: health_of_def)
  then have "health_of (fst (event_loop (health_step send) later (check_clients send m'))) cid = Offline"
    by (rule offline_loop [OF assms(7)])
  then show ?thesis using loop \<open>b\<close> by (simp add: event_loop_append)
qed

theorem lost_client_goes_offline_witness:
  "health_of (fst (event_loop (health_step demo_send) [Other (Elapse (from_secs 120)), Other CheckTick, Other ReminderTick]
     (demo_monitor\<lparr>hm_report := \<lparr>rep_clients = [(''c'', \<lparr>cs_health = Healthy, cs_since = 0, cs_local_ip = None,
        cs_events = [\<lparr>ev_kind = ConnectionLoss, ev_conn_id = 0, ev_timestamp = 0\<rparr>]\<rparr>)]\<rparr>\<rparr>))) ''c'' = Offline"
  using lost_client_goes_offline [of "demo_monitor\<lparr>hm_report := \<lparr>rep_clients = [(''c'', \<lparr>cs_health = Healthy, cs_since = 0,
        cs_local_ip = None, cs_events = [\<lparr>ev_kind = ConnectionLoss, ev_conn_id = 0, ev_timestamp = 0\<rparr>]\<rparr>)]\<rparr>\<rparr>" "''c''"
      "\<lparr>cs_health = Healthy, cs_since = 0, cs_local_ip = None,
        cs_events = [\<lparr>ev_kind = ConnectionLoss, ev_conn_id = 0, ev_timestamp = 0\<rparr>]\<rparr>"
      "\<lparr>ev_kind = ConnectionLoss, ev_conn_id = 0, ev_timestamp = 0\<rparr>" "[]" "[Other (Elapse (from_secs 120))]" demo_send
      "[Other ReminderTick]"]
  by (simp add: demo_health)

text \<open>C39: The monitor takes the end of an old connection for the end of the client. When a client connects
  again while its old connection \<open>n\<close> is still open, and \<open>n\<close> then ends with a disconnect (an idle timeout, say), the
  client is shown offline although connection \<open>n'\<close> is alive, and no check, reminder or other event
  corrects this until the client connects a third time. The checks for lost connections, in contrast, compare
  connection IDs.\<close>

theorem old_disconnect_hides_connected_client:
  assumes "list_all (\<lambda>i. \<not> connect_of cid i) later"
  shows "health_of (fst (event_loop (health_step send)
    ([Recv (Inr (ClientConnect cid n ip)), Recv (Inr (ClientConnect cid n' ip')), Recv (Inr (ClientDisconnect cid n))] @ later)
    m)) cid = Offline"
proof -
  have "\<exists>m'. event_loop (health_step send) [Recv (Inr (ClientConnect cid n ip)), Recv (Inr (ClientConnect cid n' ip')),
      Recv (Inr (ClientDisconnect cid n))] m = (m', True) \<and> health_of m' cid = Offline"
    by (auto simp: Let_def health_of_def)
  then obtain m' where loop: "event_loop (health_step send) [Recv (Inr (ClientConnect cid n ip)),
      Recv (Inr (ClientConnect cid n' ip')), Recv (Inr (ClientDisconnect cid n))] m = (m', True)"
    "health_of m' cid = Offline" by blast
  show ?thesis unfolding event_loop_append loop(1) using offline_loop [OF assms loop(2)] by simp
qed

theorem old_disconnect_hides_connected_client_witness:
  "health_of (fst (event_loop (health_step demo_send)
    [Recv (Inr (ClientConnect ''c'' 0 (V4 1))), Recv (Inr (ClientConnect ''c'' 1 (V4 1))),
     Recv (Inr (ClientDisconnect ''c'' 0)), Other (Elapse 100), Other CheckTick] demo_monitor)) ''c'' = Offline"
  using old_disconnect_hides_connected_client [of "''c''" "[Other (Elapse 100), Other CheckTick]" demo_send 0 "V4 1" 1 "V4 1"
      demo_monitor] by simp

text \<open>The text report does not depend on the iteration order of the hash map: two reports with the same
  clients and statuses give the same text. The lines are one per client, ordered by health (healthy,
  unhealthy, offline) and within the same health by client ID.\<close>

theorem text_report_is_canonical:
  assumes "map_wf (rep_clients r)" "map_wf (rep_clients r')" "map_of (rep_clients r) = map_of (rep_clients r')"
  shows "as_text_report now r = as_text_report now r' \<and>
    (\<exists>clients. as_text_report now r = join [CHR 0x0A] (map (report_line now) clients) \<and>
       mset clients = mset (rep_clients r) \<and>
       sorted_wrt (\<lambda>(cid, c) (cid', c'). cs_health c < cs_health c' \<or> cs_health c = cs_health c' \<and> cid < cid') clients)"
proof -
  let ?key = "\<lambda>(cid, status). (cs_health status, cid)"
  have "set (rep_clients r) = set (rep_clients r')" using map_of_inject_set [OF assms(1,2)] assms(3) by simp
  then have ms: "mset (rep_clients r) = mset (rep_clients r')"
    using assms(1,2) by (simp add: set_eq_iff_mset_eq_distinct [symmetric] distinct_map)
  have inj: "inj_on ?key (set (rep_clients r))"
    by (auto intro!: inj_onI dest: eq_key_imp_eq_value [OF assms(1)])
  then have "sort_key ?key (rep_clients r) = sort_key ?key (rep_clients r')"
    using ms by (intro sort_key_inj_key_eq) simp_all
  moreover have "sorted_wrt (\<lambda>(cid, c) (cid', c'). cs_health c < cs_health c' \<or> cs_health c = cs_health c' \<and> cid < cid')
      (sort_key ?key (rep_clients r))"
  proof -
    have "distinct (map ?key (sort_key ?key (rep_clients r)))"
      using inj assms(1) by (simp add: distinct_map)
    then have "sorted_wrt (<) (map ?key (sort_key ?key (rep_clients r)))"
      using strict_sorted_iff sorted_sort_key by blast
    then show ?thesis
      unfolding sorted_wrt_map by (rule sorted_wrt_mono_rel [rotated]) (auto simp: less_prod_def le_less)
  qed
  ultimately show ?thesis
    unfolding as_text_report_def Let_def by (intro conjI exI [of _ "sort_key ?key (rep_clients r)"]) (simp_all add: ms)
qed

theorem text_report_is_canonical_witness:
  "as_text_report 0 \<lparr>rep_clients = [(''a'', client_status_default 0), (''b'', client_status_default 0)]\<rparr> =
   as_text_report 0 \<lparr>rep_clients = [(''b'', client_status_default 0), (''a'', client_status_default 0)]\<rparr>"
proof -
  have "map_of [(''a'', client_status_default 0), (''b'', client_status_default 0)] =
      map_of [(''b'', client_status_default 0), (''a'', client_status_default 0)]"
    by (auto simp: fun_eq_iff)
  then show ?thesis
    using text_report_is_canonical [of "\<lparr>rep_clients = [(''a'', client_status_default 0), (''b'', client_status_default 0)]\<rparr>"
      "\<lparr>rep_clients = [(''b'', client_status_default 0), (''a'', client_status_default 0)]\<rparr>" 0] by simp
qed

text \<open>The monitor's builder succeeds exactly when a sender and a receiver are set, at least two events are
  kept per client and the limit of connection losses is positive; it then starts with every configured
  client offline. Otherwise it says what is missing or invalid, the first problem in the order sender,
  receiver, events, limit; the missing receiver is reported under the name \<open>event_r\<close>.\<close>

theorem health_build_result:
  "(hb_sender b = None \<longrightarrow> health_build now b = Inl (HealthMissingField ''sender'')) \<and>
   (hb_sender b \<noteq> None \<and> hb_event_rx b = None \<longrightarrow> health_build now b = Inl (HealthMissingField ''event_r'')) \<and>
   (hb_sender b \<noteq> None \<and> hb_event_rx b \<noteq> None \<and> hb_max_client_events b \<le> 1 \<longrightarrow>
      health_build now b = Inl (InvalidValue ''max_client_events must be at least 2'')) \<and>
   ((\<exists>m. health_build now b = Inr m) \<longleftrightarrow>
      hb_sender b \<noteq> None \<and> hb_event_rx b \<noteq> None \<and> hb_max_client_events b \<ge> 2 \<and> hb_connection_loss_limit b \<ge> 1) \<and>
   (\<forall>m cid. health_build now b = Inr m \<longrightarrow>
      health_of m cid = Offline \<and> (status_of m cid \<noteq> None \<longleftrightarrow> cid \<in> set (hb_client_ids b)))"
proof (intro conjI allI impI)
  fix m cid assume "health_build now b = Inr m"
  then have r: "rep_clients (hm_report m) = map (\<lambda>cid. (cid, client_status_default now)) (hb_client_ids b)"
    by (auto simp: health_build_def try_bind_Inr health_report_new_def split: if_splits)
  have "status_of m cid = (if cid \<in> set (hb_client_ids b) then Some (client_status_default now) else None)"
    unfolding r by (auto simp: map_of_map_restrict restrict_map_def)
  then show "health_of m cid = Offline" "status_of m cid \<noteq> None \<longleftrightarrow> cid \<in> set (hb_client_ids b)"
    by (simp_all add: health_of_def client_status_default_def)
qed (cases "hb_sender b"; cases "hb_event_rx b"; auto simp: health_build_def)+

theorem health_build_result_witness:
  "health_of demo_monitor ''c'' = Offline"
  using health_build_result [of demo_builder 0] by (simp add: demo_health)

text \<open>C24: A connected client is not shown offline. After a client connected with a connection ID larger than
  those of its stored events, as the listener hands them out, no sequence of checks, reminders, events
  of other clients and time takes it offline, whatever connections it lost before.\<close>

theorem connected_client_stays_online:
  assumes "list_all (\<lambda>e. ev_conn_id e < n) (cs_events (client_or_default m cid))" "hm_max_client_events m \<ge> 2"
    and "list_all (\<lambda>i. \<not> event_of cid i) quiet"
  shows "health_of (fst (event_loop (health_step send) (Recv (Inr (ClientConnect cid n ip)) # quiet) m)) cid \<noteq> Offline"
proof -
  have "online cid (fst (handle_event_recv send (Inr (ClientConnect cid n ip)) m))"
    by (rule online_connect) (use assms(1,2) in simp_all)
  from online_loop [OF this assms(3), of send] show ?thesis by (auto simp: online_def health_of_def Let_def)
qed

theorem connected_client_stays_online_witness:
  "health_of (fst (event_loop (health_step demo_send)
     [Recv (Inr (ClientConnect ''c'' 5 (V4 1))), Other (Elapse (from_secs 600)), Recv (Inr (ClientDisconnect ''d'' 3)),
      Other CheckTick] demo_monitor)) ''c'' \<noteq> Offline"
  using connected_client_stays_online [of 5 demo_monitor "''c''" "[Other (Elapse (from_secs 600)),
      Recv (Inr (ClientDisconnect ''d'' 3)), Other CheckTick]" demo_send "V4 1"]
  by (simp add: demo_health client_or_default_def health_report_new_def client_status_default_def)

section \<open>Connections that authenticate late\<close>

lemma push_event_second:
  assumes "cs_events client = e # es" "hm_max_client_events m \<ge> 2"
  shows "\<exists>es'. cs_events (push_event m k n client) = \<lparr>ev_kind = k, ev_conn_id = n, ev_timestamp = hm_clock m\<rparr> # e # es'"
  using assms by (cases es) (auto simp: push_event_def Let_def)

lemma client_connected_second:
  assumes "cs_events client = e # es" "hm_max_client_events m \<ge> 2"
  shows "\<exists>es'. cs_events (client_connected m n ip client) =
    \<lparr>ev_kind = Connect, ev_conn_id = n, ev_timestamp = hm_clock m\<rparr> # e # es'"
  unfolding client_connected_def Let_def by (rule push_event_second [OF _ assms(2)]) (simp add: assms(1))

lemma check_status_lost:
  assumes "cs_events client = \<lparr>ev_kind = k, ev_conn_id = n, ev_timestamp = t\<rparr> #
      \<lparr>ev_kind = ConnectionLoss, ev_conn_id = n', ev_timestamp = t'\<rparr> # es"
    and "n < n'" "t' + int (hm_offline_grace_period m) \<le> hm_clock m"
  shows "cs_health (check_status m client) = Offline"
  using assms by (simp add: check_status_def check_client_def latest_event_Cons Let_def)

lemma late_connect_is_taken_offline:
  assumes "status_of m cid = Some client"
    and "cs_events client = \<lparr>ev_kind = ConnectionLoss, ev_conn_id = n', ev_timestamp = t\<rparr> # es"
    and "t \<le> hm_clock m" "n < n'" "hm_max_client_events m \<ge> 2" "hm_offline_grace_period m \<le> d"
  shows "health_of (fst (event_loop (health_step send)
    [Recv (Inr (ClientConnect cid n ip)), Other (Elapse d), Other CheckTick] m)) cid = Offline"
proof -
  let ?c = "client_or_default m cid"
  let ?m1 = "fst (health_step send (Recv (Inr (ClientConnect cid n ip))) m)"
  let ?m2 = "?m1\<lparr>hm_clock := hm_clock ?m1 + int d\<rparr>"
  have c: "?c = client" using assms(1) by (simp add: client_or_default_def)
  have st: "status_of ?m1 cid = Some (client_connected m n ip client)"
    and clk: "hm_clock ?m1 = hm_clock m" "hm_offline_grace_period ?m1 = hm_offline_grace_period m"
    by (simp_all add: Let_def c)
  obtain es' where es': "cs_events (client_connected m n ip client) =
      \<lparr>ev_kind = Connect, ev_conn_id = n, ev_timestamp = hm_clock m\<rparr> #
      \<lparr>ev_kind = ConnectionLoss, ev_conn_id = n', ev_timestamp = t\<rparr> # es'"
    using client_connected_second [OF assms(2,5)] by blast
  have "cs_health (check_status ?m2 (client_connected m n ip client)) = Offline"
    by (rule check_status_lost [OF es' assms(4)]) (use assms(3,6) clk in simp)
  moreover have "event_loop (health_step send) [Recv (Inr (ClientConnect cid n ip)), Other (Elapse d), Other CheckTick] m =
      (check_clients send ?m2, True)"
    by (simp add: Let_def)
  ultimately show ?thesis
    using st by (simp add: health_of_def del: health_step.simps)
qed

lemma late_connection_offline:
  assumes "hm_max_client_events m \<ge> 2" "hm_offline_grace_period m \<le> d" "n < n'"
  shows "health_of (fst (event_loop (health_step send)
    ([Recv (Inr (ClientConnect cid n' ip')), Recv (Inr (ClientConnectionLoss cid n'))] @
     [Recv (Inr (ClientConnect cid n ip)), Other (Elapse d), Other CheckTick]) m)) cid = Offline"
proof -
  obtain m1 where m1: "health_step send (Recv (Inr (ClientConnect cid n' ip'))) m = (m1, True)"
    "hm_max_client_events m1 = hm_max_client_events m" "hm_offline_grace_period m1 = hm_offline_grace_period m"
    by (simp add: Let_def)
  let ?c = "client_or_default m1 cid"
  define m' where "m' = set_client cid (push_event m1 ConnectionLoss n' ?c) m1"
  have m': "event_loop (health_step send)
      [Recv (Inr (ClientConnect cid n' ip')), Recv (Inr (ClientConnectionLoss cid n'))] m = (m', True)"
    "status_of m' cid = Some (push_event m' ConnectionLoss n' ?c)"
    "hm_max_client_events m' = hm_max_client_events m" "hm_offline_grace_period m' = hm_offline_grace_period m"
    using m1 by (simp_all add: m'_def push_event_def)
  obtain es where "cs_events (push_event m' ConnectionLoss n' ?c) =
      \<lparr>ev_kind = ConnectionLoss, ev_conn_id = n', ev_timestamp = hm_clock m'\<rparr> # es"
    using push_event_events [of m' ConnectionLoss n' ?c] m'(3) assms(1) by fastforce
  from late_connect_is_taken_offline [OF m'(2) this order_refl assms(3)] assms(1,2) m'(3,4)
  show ?thesis unfolding event_loop_append m'(1) by simp
qed

end
