(* ===== verification/Network.thy ===== *)
theory Network
  imports Engine
begin

text \<open>
  The network listener (\<open>src/src/network.rs\<close>): accepting connections, authentication, serving the
  messages of a client, and the builder. A connection is driven by the list of what its reads meet:
  incoming data, or the expiry of the timeout around the read; when the list is used up the
  task is still waiting. What is written is collected in a list.

  The record \<open>net_env\<close> holds what the listener calls: the protocol crate's framing (which is given the
  maximal payload length), decoding and encoding, whether a write succeeds (a message is written as a
  whole or not at all) and, during authentication, whether it outlasts the timeout, the password check of
  argon2, the engine (a request is sent and its answer awaited, \<open>None\<close> when the answer's sender is
  dropped) and the application's handler of custom requests. The states behind the last two are
  shared with other connections; what those do in between is part of the calls' functions.
\<close>

section \<open>Errors\<close>

datatype frame_error = PayloadTooLarge | OtherFrameError
datatype message_set_error = UnknownOpcode u8 | OtherSetError

datatype 'raw net_error =
    IoError
  | FrameErr frame_error
  | EncodeErr
  | OneshotErr
  | UnexpectedMessageErr 'raw
  | MalformedMessageErr message_set_error
  | UnsupportedVersionErr u8 u8
  | InvalidCredentialsErr

fun error_response_of :: "'raw net_error \<Rightarrow> error_response option" where
  "error_response_of (UnexpectedMessageErr raw) = Some UnexpectedMessage"
| "error_response_of (MalformedMessageErr e) = Some MalformedMessage"
| "error_response_of (FrameErr PayloadTooLarge) = Some MalformedMessage"
| "error_response_of (UnsupportedVersionErr a b) = Some UnsupportedVersionRange"
| "error_response_of InvalidCredentialsErr = Some InvalidCredentials"
| "error_response_of _ = None"

datatype 'res custom_outcome = CustomResponse 'res | CustomError error_response

datatype 'res net_output =
    OutServerHandshake u8
  | OutAuthenticationAccepted
  | OutPong
  | OutMessage server_message
  | OutCustom 'res
  | OutError error_response

text \<open>A write can fail in encoding, in framing or in the transport; \<open>?\<close> converts the error.\<close>

datatype write_failure = WriteEncode | WriteFrame frame_error | WriteIo

primrec net_error_from :: "write_failure \<Rightarrow> 'raw net_error" where
  "net_error_from WriteEncode = EncodeErr"
| "net_error_from (WriteFrame e) = FrameErr e"
| "net_error_from WriteIo = IoError"

datatype 'f read_event = ReadTimeout | ReadFrame 'f

record ('f, 'raw, 'n, 'req, 'res, 'es, 'cs, 'h) net_env =
  read_frame :: "u32 \<Rightarrow> 'f \<Rightarrow> frame_error + 'raw"
  decode :: "'raw \<Rightarrow> message_set_error + ('n, 'req) client_message"
  encode :: "('n, 'req) client_message \<Rightarrow> 'raw option"
  encode_request :: "'req \<Rightarrow> 'raw option"
  write_error :: "nat \<Rightarrow> 'res net_output \<Rightarrow> write_failure option"
  write_stalls :: "nat \<Rightarrow> 'res net_output \<Rightarrow> bool"
  verify_password :: "string \<Rightarrow> 'h \<Rightarrow> bool"
  engine_call :: "'n engine_request \<Rightarrow> 'es \<Rightarrow> server_message option \<times> 'es"
  custom_call :: "(client_id \<Rightarrow> 'req \<Rightarrow> 'cs \<Rightarrow> 'res custom_outcome option \<times> 'cs) option"

section \<open>Reading and writing\<close>

definition read_message ::
  "('f, 'raw, 'n, 'req, 'res, 'es, 'cs, 'h) net_env \<Rightarrow> u32 \<Rightarrow> 'f \<Rightarrow>
   'raw net_error + ('n, 'req) client_message" where
  "read_message env max_payload_len frame =
     (case read_frame env max_payload_len frame of
        Inl e \<Rightarrow> Inl (FrameErr e)
      | Inr raw \<Rightarrow>
          (case decode env raw of
             Inr message \<Rightarrow> Inr message
           | Inl (UnknownOpcode opcode) \<Rightarrow> Inl (UnexpectedMessageErr raw)
           | Inl error \<Rightarrow> Inl (MalformedMessageErr error)))"

text \<open>\<open>write_message\<close> and \<open>write_payload\<close>: the message is encoded and written, or the error returned.\<close>

definition write_output ::
  "('f, 'raw, 'n, 'req, 'res, 'es, 'cs, 'h) net_env \<Rightarrow> 'res net_output \<Rightarrow> 'res net_output list \<Rightarrow>
   ('raw net_error + unit) \<times> 'res net_output list" where
  "write_output env message out =
     (case write_error env (length out) message of
        Some e \<Rightarrow> (Inl (net_error_from e), out)
      | None \<Rightarrow> (Inr (), out @ [message]))"

text \<open>\<open>Error::UnexpectedMessage(x.encode()?)\<close>, for a message or a custom request.\<close>

fun unexpected :: "'raw option \<Rightarrow> 'raw net_error" where
  "unexpected None = EncodeErr"
| "unexpected (Some raw) = UnexpectedMessageErr raw"

section \<open>Serving a client\<close>

text \<open>One message of an authenticated client: \<open>Some\<close> ends the loop with that result.\<close>

definition engine_round ::
  "('f, 'raw, 'n, 'req, 'res, 'es, 'cs, 'h) net_env \<Rightarrow> 'n engine_request \<Rightarrow> 'es \<times> 'cs \<Rightarrow> 'res net_output list \<Rightarrow>
   ('raw net_error + unit) option \<times> ('es \<times> 'cs) \<times> 'res net_output list" where
  "engine_round env req st out =
     (let (response, es) = engine_call env req (fst st); st = (es, snd st)
      in case response of
           None \<Rightarrow> (Some (Inl OneshotErr), st, out)
         | Some message \<Rightarrow>
             (case write_output env (OutMessage message) out of
                (Inl e, out) \<Rightarrow> (Some (Inl e), st, out)
              | (Inr _, out) \<Rightarrow> (None, st, out)))"

fun serve_message ::
  "('f, 'raw, 'n, 'req, 'res, 'es, 'cs, 'h) net_env \<Rightarrow> client_id \<Rightarrow> ('n, 'req) client_message \<Rightarrow>
   'es \<times> 'cs \<Rightarrow> 'res net_output list \<Rightarrow>
   ('raw net_error + unit) option \<times> ('es \<times> 'cs) \<times> 'res net_output list" where
  "serve_message env cid (BloopMessage nfc) st out = engine_round env (BloopRequest cid nfc) st out"
| "serve_message env cid (RetrieveAudioMessage i) st out = engine_round env (RetrieveAudio i) st out"
| "serve_message env cid (PreloadCheckMessage h) st out = engine_round env (PreloadCheck h) st out"
| "serve_message env cid Ping st out =
     (case write_output env OutPong out of
        (Inl e, out) \<Rightarrow> (Some (Inl e), st, out)
      | (Inr _, out) \<Rightarrow> (None, st, out))"
| "serve_message env cid Quit st out = (Some (Inr ()), st, out)"
| "serve_message env cid (Custom custom) st out =
     (case custom_call env of
        None \<Rightarrow> (Some (Inl (unexpected (encode_request env custom))), st, out)
      | Some handler \<Rightarrow>
          (let (outcome, cs) = handler cid custom (snd st); st = (fst st, cs)
           in case outcome of
                None \<Rightarrow> (Some (Inl OneshotErr), st, out)
              | Some r \<Rightarrow>
                  (case write_output env
                          (case r of CustomResponse res \<Rightarrow> OutCustom res | CustomError e \<Rightarrow> OutError e) out of
                     (Inl e, out) \<Rightarrow> (Some (Inl e), st, out)
                   | (Inr _, out) \<Rightarrow> (None, st, out))))"
| "serve_message env cid message st out = (Some (Inl (unexpected (encode env message))), st, out)"

text \<open>The loop: \<open>None\<close> when the client has sent nothing more yet.\<close>

fun handle_connection ::
  "('f, 'raw, 'n, 'req, 'res, 'es, 'cs, 'h) net_env \<Rightarrow> client_id \<Rightarrow> u32 \<Rightarrow> 'f read_event list \<Rightarrow>
   'es \<times> 'cs \<Rightarrow> 'res net_output list \<Rightarrow>
   ('raw net_error + unit) option \<times> ('es \<times> 'cs) \<times> 'res net_output list" where
  "handle_connection env cid mpl [] st out = (None, st, out)"
| "handle_connection env cid mpl (ReadTimeout # reads) st out = (Some (Inr ()), st, out)"
| "handle_connection env cid mpl (ReadFrame frame # reads) st out =
     (case read_message env mpl frame of
        Inl e \<Rightarrow> (Some (Inl e), st, out)
      | Inr message \<Rightarrow>
          (case serve_message env cid message st out of
             (Some r, st, out) \<Rightarrow> (Some r, st, out)
           | (None, st, out) \<Rightarrow> handle_connection env cid mpl reads st out))"

section \<open>Authentication\<close>

datatype 'raw auth_result =
    AuthOk client_id ip_addr u8
  | AuthErr "'raw net_error"
  | AuthTimeout
  | AuthWaiting

text \<open>A read, and a write, inside the two-second timeout of \<open>handle_stream\<close>.\<close>

definition auth_read ::
  "('f, 'raw, 'n, 'req, 'res, 'es, 'cs, 'h) net_env \<Rightarrow> u32 \<Rightarrow> 'f read_event list \<Rightarrow>
   'raw auth_result + ('n, 'req) client_message \<times> 'f read_event list" where
  "auth_read env mpl reads =
     (case reads of
        [] \<Rightarrow> Inl AuthWaiting
      | ReadTimeout # _ \<Rightarrow> Inl AuthTimeout
      | ReadFrame frame # rest \<Rightarrow>
          (case read_message env mpl frame of Inl e \<Rightarrow> Inl (AuthErr e) | Inr m \<Rightarrow> Inr (m, rest)))"

definition auth_write ::
  "('f, 'raw, 'n, 'req, 'res, 'es, 'cs, 'h) net_env \<Rightarrow> 'res net_output \<Rightarrow> 'res net_output list \<Rightarrow>
   'raw auth_result + 'res net_output list" where
  "auth_write env message out =
     (if write_stalls env (length out) message then Inl AuthTimeout
      else case write_output env message out of (Inl e, _) \<Rightarrow> Inl (AuthErr e) | (Inr _, out) \<Rightarrow> Inr out)"

definition authenticate ::
  "('f, 'raw, 'n, 'req, 'res, 'es, 'cs, 'h) net_env \<Rightarrow> (client_id \<rightharpoonup> 'h) \<Rightarrow> u32 \<Rightarrow> 'f read_event list \<Rightarrow>
   'res net_output list \<Rightarrow> 'raw auth_result \<times> 'f read_event list \<times> 'res net_output list" where
  "authenticate env clients mpl reads out =
     (case auth_read env mpl reads of
        Inl r \<Rightarrow> (r, reads, out)
      | Inr (ClientHandshake min_version max_version, reads) \<Rightarrow>
          if min_version > 3 \<or> max_version < 3
          then (AuthErr (UnsupportedVersionErr min_version max_version), reads, out)
          else
            (case auth_write env (OutServerHandshake 3) out of
               Inl r \<Rightarrow> (r, reads, out)
             | Inr out \<Rightarrow>
                 (case auth_read env mpl reads of
                    Inl r \<Rightarrow> (r, reads, out)
                  | Inr (Authentication cid secret ip, reads) \<Rightarrow>
                      (case clients cid of
                         None \<Rightarrow> (AuthErr InvalidCredentialsErr, reads, out)
                       | Some secret_hash \<Rightarrow>
                           if \<not> verify_password env secret secret_hash
                           then (AuthErr InvalidCredentialsErr, reads, out)
                           else
                             (case auth_write env OutAuthenticationAccepted out of
                                Inl r \<Rightarrow> (r, reads, out)
                              | Inr out \<Rightarrow> (AuthOk cid ip 3, reads, out)))
                  | Inr (message, reads) \<Rightarrow> (AuthErr (unexpected (encode env message)), reads, out)))
      | Inr (message, reads) \<Rightarrow> (AuthErr (unexpected (encode env message)), reads, out))"

section \<open>Connections\<close>

definition write_error_response ::
  "('f, 'raw, 'n, 'req, 'res, 'es, 'cs, 'h) net_env \<Rightarrow> 'raw net_error \<Rightarrow> 'res net_output list \<Rightarrow> 'res net_output list" where
  "write_error_response env e out =
     (case error_response_of e of
        None \<Rightarrow> out
      | Some r \<Rightarrow> snd (write_output env (OutError r) out))"

text \<open>The task of one connection: the TLS handshake, authentication, the client's messages and the events
  sent. The result has the events, the state of the handlers and what was written.\<close>

definition handle_stream ::
  "('f, 'raw, 'n, 'req, 'res, 'es, 'cs, 'h) net_env \<Rightarrow> (client_id \<rightharpoonup> 'h) \<Rightarrow> u32 \<Rightarrow> bool \<Rightarrow> usize \<Rightarrow> 'f read_event list \<Rightarrow>
   'es \<times> 'cs \<Rightarrow> event list \<times> ('es \<times> 'cs) \<times> 'res net_output list" where
  "handle_stream env clients mpl tls_ok conn_id reads st =
     (if \<not> tls_ok then ([], st, [])
      else
        case authenticate env clients mpl reads [] of
          (AuthOk cid local_ip version, reads, out) \<Rightarrow>
            (let connect = ClientConnect cid conn_id local_ip
             in case handle_connection env cid mpl reads st out of
                  (None, st, out) \<Rightarrow> ([connect], st, out)
                | (Some (Inr _), st, out) \<Rightarrow> ([connect, ClientDisconnect cid conn_id], st, out)
                | (Some (Inl e), st, out) \<Rightarrow>
                    ([connect, ClientConnectionLoss cid conn_id], st, write_error_response env e out))
        | (AuthErr e, reads, out) \<Rightarrow> ([], st, write_error_response env e out)
        | (_, reads, out) \<Rightarrow> ([], st, out))"

text \<open>The accept loop hands out connection IDs; it returns when the socket cannot be bound or when an
  accept fails, and waits otherwise (\<open>None\<close>).\<close>

fun accept_loop :: "('io + 'stream) list \<Rightarrow> usize \<Rightarrow> (usize \<times> 'stream) list \<Rightarrow> 'io option \<times> (usize \<times> 'stream) list" where
  "accept_loop [] con_counter handled = (None, handled)"
| "accept_loop (Inl e # accepts) con_counter handled = (Some e, handled)"
| "accept_loop (Inr stream # accepts) con_counter handled =
     accept_loop accepts (con_counter + 1) (handled @ [(con_counter, stream)])"

definition listen :: "'io option \<Rightarrow> ('io + 'stream) list \<Rightarrow> 'io option \<times> (usize \<times> 'stream) list" where
  "listen bind_error accepts =
     (case bind_error of Some e \<Rightarrow> (Some e, []) | None \<Rightarrow> accept_loop accepts 0 [])"

section \<open>The builder\<close>

datatype ('pe, 'te) net_builder_error = NetMissingField string | AddrParse | Pem path 'pe | Rustls 'te

record ('cl, 'etx, 'vtx, 'ctx) net_builder =
  nb_address :: "string option"
  nb_cert_path :: "path option"
  nb_key_path :: "path option"
  nb_clients :: "'cl option"
  nb_engine_tx :: "'etx option"
  nb_event_tx :: "'vtx option"
  nb_custom_req_tx :: "'ctx option"
  nb_max_payload_len :: u32

record ('a, 'tls, 'cl, 'etx, 'vtx, 'ctx) network_listener =
  nl_clients :: 'cl
  nl_addr :: 'a
  nl_tls_acceptor :: 'tls
  nl_engine_tx :: 'etx
  nl_event_tx :: 'vtx
  nl_custom_req_tx :: "'ctx option"
  nl_max_payload_len :: u32

definition default_max_payload_len :: u32 where
  "default_max_payload_len = 64 * 1024"

definition net_builder_new :: "('cl, 'etx, 'vtx, 'ctx) net_builder" where
  "net_builder_new =
     \<lparr>nb_address = None, nb_cert_path = None, nb_key_path = None, nb_clients = None, nb_engine_tx = None,
      nb_event_tx = None, nb_custom_req_tx = None, nb_max_payload_len = default_max_payload_len\<rparr>"

definition net_builder_custom_req_tx ::
  "'ctx \<Rightarrow> ('cl, 'etx, 'vtx, 'ctx0) net_builder \<Rightarrow> ('cl, 'etx, 'vtx, 'ctx) net_builder" where
  "net_builder_custom_req_tx tx b =
     \<lparr>nb_address = nb_address b, nb_cert_path = nb_cert_path b, nb_key_path = nb_key_path b,
      nb_clients = nb_clients b, nb_engine_tx = nb_engine_tx b, nb_event_tx = nb_event_tx b,
      nb_custom_req_tx = Some tx, nb_max_payload_len = nb_max_payload_len b\<rparr>"

definition net_builder_address :: "string \<Rightarrow> ('cl, 'etx, 'vtx, 'ctx) net_builder \<Rightarrow> ('cl, 'etx, 'vtx, 'ctx) net_builder" where
  "net_builder_address x b = b\<lparr>nb_address := Some x\<rparr>"

definition net_builder_cert_path :: "path \<Rightarrow> ('cl, 'etx, 'vtx, 'ctx) net_builder \<Rightarrow> ('cl, 'etx, 'vtx, 'ctx) net_builder" where
  "net_builder_cert_path x b = b\<lparr>nb_cert_path := Some x\<rparr>"

definition net_builder_key_path :: "path \<Rightarrow> ('cl, 'etx, 'vtx, 'ctx) net_builder \<Rightarrow> ('cl, 'etx, 'vtx, 'ctx) net_builder" where
  "net_builder_key_path x b = b\<lparr>nb_key_path := Some x\<rparr>"

definition net_builder_clients :: "'cl \<Rightarrow> ('cl, 'etx, 'vtx, 'ctx) net_builder \<Rightarrow> ('cl, 'etx, 'vtx, 'ctx) net_builder" where
  "net_builder_clients x b = b\<lparr>nb_clients := Some x\<rparr>"

definition net_builder_engine_tx :: "'etx \<Rightarrow> ('cl, 'etx, 'vtx, 'ctx) net_builder \<Rightarrow> ('cl, 'etx, 'vtx, 'ctx) net_builder" where
  "net_builder_engine_tx x b = b\<lparr>nb_engine_tx := Some x\<rparr>"

definition net_builder_event_tx :: "'vtx \<Rightarrow> ('cl, 'etx, 'vtx, 'ctx) net_builder \<Rightarrow> ('cl, 'etx, 'vtx, 'ctx) net_builder" where
  "net_builder_event_tx x b = b\<lparr>nb_event_tx := Some x\<rparr>"

definition net_builder_max_payload_len :: "u32 \<Rightarrow> ('cl, 'etx, 'vtx, 'ctx) net_builder \<Rightarrow> ('cl, 'etx, 'vtx, 'ctx) net_builder" where
  "net_builder_max_payload_len x b = b\<lparr>nb_max_payload_len := x\<rparr>"

text \<open>Parsing the address, reading PEM files and setting up TLS are arguments.\<close>

definition net_build ::
  "(string \<Rightarrow> 'a option) \<Rightarrow> (path \<Rightarrow> 'pe + 'certs) \<Rightarrow> (path \<Rightarrow> 'pe + 'key) \<Rightarrow> ('certs \<Rightarrow> 'key \<Rightarrow> 'te + 'tls) \<Rightarrow>
   ('cl, 'etx, 'vtx, 'ctx) net_builder \<Rightarrow>
   ('pe, 'te) net_builder_error + ('a, 'tls, 'cl, 'etx, 'vtx, 'ctx) network_listener" where
  "net_build parse_addr read_certs read_key tls_config b =
     try_bind (ok_or (NetMissingField ''address'') (nb_address b)) (\<lambda>address.
     try_bind (ok_or AddrParse (parse_addr address)) (\<lambda>addr.
     try_bind (ok_or (NetMissingField ''cert_path'') (nb_cert_path b)) (\<lambda>cert_path.
     try_bind (ok_or (NetMissingField ''key_path'') (nb_key_path b)) (\<lambda>key_path.
     try_bind (case read_certs cert_path of Inl e \<Rightarrow> Inl (Pem cert_path e) | Inr c \<Rightarrow> Inr c) (\<lambda>certs.
     try_bind (case read_key key_path of Inl e \<Rightarrow> Inl (Pem key_path e) | Inr k \<Rightarrow> Inr k) (\<lambda>key.
     try_bind (case tls_config certs key of Inl e \<Rightarrow> Inl (Rustls e) | Inr t \<Rightarrow> Inr t) (\<lambda>tls.
     try_bind (ok_or (NetMissingField ''clients'') (nb_clients b)) (\<lambda>clients.
     try_bind (ok_or (NetMissingField ''engine_tx'') (nb_engine_tx b)) (\<lambda>engine_tx.
     try_bind (ok_or (NetMissingField ''event_tx'') (nb_event_tx b)) (\<lambda>event_tx.
       Inr \<lparr>nl_clients = clients, nl_addr = addr, nl_tls_acceptor = tls, nl_engine_tx = engine_tx,
            nl_event_tx = event_tx, nl_custom_req_tx = nb_custom_req_tx b,
            nl_max_payload_len = nb_max_payload_len b\<rparr>))))))))))"

section \<open>Answers and requests of a connection\<close>

text \<open>The messages a connection receives, up to the first timeout or read error; the engine request a
  message stands for, always with the authenticated client's ID; and the answers the messages get, as long as
  each gets one: the engine's response to the request, the pong, or the outcome of the custom handler.\<close>

fun received_messages ::
  "('f, 'raw, 'n, 'req, 'res, 'es, 'cs, 'h) net_env \<Rightarrow> u32 \<Rightarrow> 'f read_event list \<Rightarrow> ('n, 'req) client_message list" where
  "received_messages env mpl (ReadFrame frame # reads) =
     (case read_message env mpl frame of Inl e \<Rightarrow> [] | Inr m \<Rightarrow> m # received_messages env mpl reads)"
| "received_messages env mpl _ = []"

fun engine_request_of :: "client_id \<Rightarrow> ('n, 'req) client_message \<Rightarrow> 'n engine_request list" where
  "engine_request_of cid (BloopMessage nfc) = [BloopRequest cid nfc]"
| "engine_request_of cid (RetrieveAudioMessage i) = [RetrieveAudio i]"
| "engine_request_of cid (PreloadCheckMessage h) = [PreloadCheck h]"
| "engine_request_of cid _ = []"

definition run_engine :: "('f, 'raw, 'n, 'req, 'res, 'es, 'cs, 'h) net_env \<Rightarrow> 'n engine_request list \<Rightarrow> 'es \<Rightarrow> 'es" where
  "run_engine env = fold (\<lambda>req es. snd (engine_call env req es))"

definition engine_reply ::
  "('f, 'raw, 'n, 'req, 'res, 'es, 'cs, 'h) net_env \<Rightarrow> 'n engine_request \<Rightarrow> 'es \<times> 'cs \<Rightarrow>
   'res net_output option \<times> 'es \<times> 'cs" where
  "engine_reply env req st =
     (let (response, es) = engine_call env req (fst st) in (map_option OutMessage response, es, snd st))"

fun reply ::
  "('f, 'raw, 'n, 'req, 'res, 'es, 'cs, 'h) net_env \<Rightarrow> client_id \<Rightarrow> ('n, 'req) client_message \<Rightarrow> 'es \<times> 'cs \<Rightarrow>
   'res net_output option \<times> 'es \<times> 'cs" where
  "reply env cid (BloopMessage nfc) st = engine_reply env (BloopRequest cid nfc) st"
| "reply env cid (RetrieveAudioMessage i) st = engine_reply env (RetrieveAudio i) st"
| "reply env cid (PreloadCheckMessage h) st = engine_reply env (PreloadCheck h) st"
| "reply env cid Ping st = (Some OutPong, st)"
| "reply env cid (Custom c) st =
     (case custom_call env of
        None \<Rightarrow> (None, st)
      | Some handler \<Rightarrow>
          (let (outcome, cs) = handler cid c (snd st)
           in (map_option (case_custom_outcome OutCustom OutError) outcome, fst st, cs)))"
| "reply env cid _ st = (None, st)"

fun replies ::
  "('f, 'raw, 'n, 'req, 'res, 'es, 'cs, 'h) net_env \<Rightarrow> client_id \<Rightarrow> ('n, 'req) client_message list \<Rightarrow> 'es \<times> 'cs \<Rightarrow>
   'res net_output list" where
  "replies env cid [] st = []"
| "replies env cid (m # ms) st =
     (case reply env cid m st of (None, st) \<Rightarrow> [] | (Some a, st) \<Rightarrow> a # replies env cid ms st)"

lemma write_output_cases:
  obtains e where "write_output env m out = (Inl e, out)" | "write_output env m out = (Inr (), out @ [m])"
  by (cases "write_error env (length out) m") (simp_all add: write_output_def)

lemma engine_round_cases:
  "(\<exists>e. engine_round env req st out = (Some (Inl e), (run_engine env [req] (fst st), snd st), out)) \<or>
   (\<exists>m. engine_round env req st out = (None, (run_engine env [req] (fst st), snd st), out @ [OutMessage m]) \<and>
     engine_reply env req st = (Some (OutMessage m), run_engine env [req] (fst st), snd st))"
  by (cases "engine_call env req (fst st)", cases "fst (engine_call env req (fst st))")
    (auto simp: engine_round_def engine_reply_def run_engine_def write_output_def split: option.split)

text \<open>One message: it ends the connection and nothing is written, or it gets exactly one answer. The engine
  sees the request of the message and nothing else.\<close>

lemma serve_message_cases:
  obtains (ends) r cs where
    "serve_message env cid m st out = (Some r, (run_engine env (engine_request_of cid m) (fst st), cs), out)"
  | (answered) a cs where
    "serve_message env cid m st out = (None, (run_engine env (engine_request_of cid m) (fst st), cs), out @ [a])"
    "reply env cid m st = (Some a, run_engine env (engine_request_of cid m) (fst st), cs)"
proof -
  have "(\<exists>r cs. serve_message env cid m st out =
        (Some r, (run_engine env (engine_request_of cid m) (fst st), cs), out)) \<or>
      (\<exists>a cs. serve_message env cid m st out =
        (None, (run_engine env (engine_request_of cid m) (fst st), cs), out @ [a]) \<and>
        reply env cid m st = (Some a, run_engine env (engine_request_of cid m) (fst st), cs))"
  proof (cases m)
    case (BloopMessage n)
    then show ?thesis using engine_round_cases [of env "BloopRequest cid n" st out] by fastforce
  next
    case (RetrieveAudioMessage i)
    then show ?thesis using engine_round_cases [of env "RetrieveAudio i" st out] by fastforce
  next
    case (PreloadCheckMessage h)
    then show ?thesis using engine_round_cases [of env "PreloadCheck h" st out] by fastforce
  next
    case Ping
    then show ?thesis by (cases st) (auto simp: write_output_def run_engine_def split: option.split)
  next
    case (Custom c)
    show ?thesis
    proof (cases "custom_call env")
      case None
      then show ?thesis by (cases st) (simp add: Custom run_engine_def)
    next
      case (Some handler)
      obtain res cs where h: "handler cid c (snd st) = (res, cs)" by fastforce
      show ?thesis
      proof (cases res)
        case None
        then show ?thesis by (simp add: Custom Some h run_engine_def)
      next
        case (Some outcome)
        then show ?thesis
          by (cases outcome) (auto simp: Custom \<open>custom_call env = Some handler\<close> h run_engine_def
              write_output_def split: option.split)
      qed
    qed
  qed (cases st; simp add: run_engine_def)+
  then show ?thesis using that by blast
qed

lemma run_engine_append: "run_engine env (xs @ ys) es = run_engine env ys (run_engine env xs es)"
  by (simp add: run_engine_def)

lemma handle_connection_spec:
  assumes "handle_connection env cid mpl reads st out = (r, st', out')"
  shows "\<exists>j k ans. let ms = received_messages env mpl reads in
    j \<le> k \<and> k \<le> Suc j \<and> k \<le> length ms \<and>
    fst st' = run_engine env (concat (map (engine_request_of cid) (take k ms))) (fst st) \<and>
    out' = out @ ans \<and> length ans = j \<and> ans = take j (replies env cid ms st) \<and> (r = None \<longrightarrow> j = length reads)"
  using assms
proof (induction env cid mpl reads st out rule: handle_connection.induct)
  case (1 env cid mpl st out)
  then show ?case by (auto simp: run_engine_def)
next
  case (2 env cid mpl reads st out)
  then show ?case by (auto simp: run_engine_def)
next
  case (3 env cid mpl frame reads st out)
  show ?case
  proof (cases "read_message env mpl frame")
    case (Inl e)
    with 3(2) show ?thesis by (auto simp: run_engine_def)
  next
    case (Inr m)
    show ?thesis
    proof (cases rule: serve_message_cases [of env cid m st out])
      case (ends r0 cs)
      with 3(2) Inr have "fst st' = run_engine env (engine_request_of cid m) (fst st)" "out' = out" "r \<noteq> None" by auto
      then show ?thesis
        using Inr by (intro exI [of _ 0] exI [of _ 1] exI [of _ "[]"]) (simp add: Let_def)
    next
      case (answered a cs)
      let ?st = "(run_engine env (engine_request_of cid m) (fst st), cs)"
      have "handle_connection env cid mpl reads ?st (out @ [a]) = (r, st', out')"
        using 3(2) Inr answered(1) by simp
      from 3(1) [OF Inr answered(1) [symmetric] refl refl this] obtain j k ans where IH:
        "j \<le> k" "k \<le> Suc j" "k \<le> length (received_messages env mpl reads)"
        "fst st' = run_engine env (concat (map (engine_request_of cid) (take k (received_messages env mpl reads)))) (fst ?st)"
        "out' = (out @ [a]) @ ans" "length ans = j" "ans = take j (replies env cid (received_messages env mpl reads) ?st)"
        "r = None \<longrightarrow> j = length reads" unfolding Let_def by blast
      then show ?thesis
        using Inr answered(2)
        by (intro exI [of _ "Suc j"] exI [of _ "Suc k"] exI [of _ "a # ans"]) (simp add: Let_def run_engine_append)
    qed
  qed
qed

text \<open>The application's handler, if there is one, answers every custom request.\<close>

definition custom_answers :: "('f, 'raw, 'n, 'req, 'res, 'es, 'cs, 'h) net_env \<Rightarrow> bool" where
  "custom_answers env \<longleftrightarrow> (\<forall>handler cid c cs. custom_call env = Some handler \<longrightarrow> fst (handler cid c cs) \<noteq> None)"

section \<open>Authentication\<close>

lemma auth_read_eq_Inr:
  "auth_read env mpl reads = Inr (m, rest) \<longleftrightarrow>
     (\<exists>f. reads = ReadFrame f # rest \<and> read_message env mpl f = Inr m)"
  by (auto simp: auth_read_def split: list.split read_event.split sum.split)

lemma auth_read_not_ok: "auth_read env mpl reads \<noteq> Inl (AuthOk cid ip v)"
  by (simp add: auth_read_def split: list.split read_event.split sum.split)

lemma write_output_eq_Inr:
  "write_output env m out = (Inr u, out') \<longleftrightarrow> write_error env (length out) m = None \<and> out' = out @ [m]"
  by (auto simp: write_output_def split: option.split)

text \<open>What a client has to send to be authenticated.\<close>

definition handshake_frame :: "('f, 'raw, 'n, 'req, 'res, 'es, 'cs, 'h) net_env \<Rightarrow> u32 \<Rightarrow> 'f \<Rightarrow> bool" where
  "handshake_frame env mpl f \<longleftrightarrow>
     (\<exists>lo hi. read_message env mpl f = Inr (ClientHandshake lo hi) \<and> lo \<le> 3 \<and> 3 \<le> hi)"

definition credentials_frame ::
  "('f, 'raw, 'n, 'req, 'res, 'es, 'cs, 'h) net_env \<Rightarrow> (client_id \<rightharpoonup> 'h) \<Rightarrow> u32 \<Rightarrow> client_id \<Rightarrow> ip_addr \<Rightarrow> 'f \<Rightarrow> bool" where
  "credentials_frame env clients mpl cid ip f \<longleftrightarrow>
     (\<exists>secret h. read_message env mpl f = Inr (Authentication cid secret ip) \<and>
        clients cid = Some h \<and> verify_password env secret h)"

definition writes_in_time :: "('f, 'raw, 'n, 'req, 'res, 'es, 'cs, 'h) net_env \<Rightarrow> nat \<Rightarrow> 'res net_output \<Rightarrow> bool" where
  "writes_in_time env n message \<longleftrightarrow> write_error env n message = None \<and> \<not> write_stalls env n message"

lemma auth_write_eq_Inr:
  "auth_write env m out = Inr out' \<longleftrightarrow> writes_in_time env (length out) m \<and> out' = out @ [m]"
  by (auto simp: auth_write_def write_output_def writes_in_time_def split: option.split)

lemma auth_write_not_ok: "auth_write env m out \<noteq> Inl (AuthOk cid ip v)"
  by (simp add: auth_write_def write_output_def split: option.split)

lemma authenticate_ok:
  "authenticate env clients mpl reads out = (AuthOk cid ip v, rest, out') \<longleftrightarrow>
     (\<exists>f g. reads = ReadFrame f # ReadFrame g # rest \<and> handshake_frame env mpl f \<and>
        credentials_frame env clients mpl cid ip g \<and>
        writes_in_time env (length out) (OutServerHandshake 3) \<and>
        writes_in_time env (Suc (length out)) OutAuthenticationAccepted \<and>
        v = 3 \<and> out' = out @ [OutServerHandshake 3, OutAuthenticationAccepted])"
  (is "?L \<longleftrightarrow> ?R")
proof
  assume L: ?L
  then obtain lo hi reads1 where 1: "auth_read env mpl reads = Inr (ClientHandshake lo hi, reads1)"
    by (auto simp: authenticate_def auth_read_not_ok split: sum.splits client_message.splits)
  with L have 2: "lo \<le> 3" "3 \<le> hi" "auth_write env (OutServerHandshake 3) out = Inr (out @ [OutServerHandshake 3])"
    by (auto simp: authenticate_def auth_write_eq_Inr auth_write_not_ok split: if_splits sum.splits)
  with L 1 obtain secret reads2 where 3: "auth_read env mpl reads1 = Inr (Authentication cid secret ip, reads2)"
    by (auto simp: authenticate_def auth_write_not_ok auth_read_not_ok not_less
        split: if_splits option.splits sum.splits client_message.splits)
  from L 1 2 3 have "reads2 = rest" "v = 3" "writes_in_time env (Suc (length out)) OutAuthenticationAccepted"
    "out' = out @ [OutServerHandshake 3, OutAuthenticationAccepted]"
    "\<exists>h. clients cid = Some h \<and> verify_password env secret h"
    by (auto simp: authenticate_def auth_write_eq_Inr auth_write_not_ok not_less split: if_splits option.splits sum.splits)
  with 1 2 3 show ?R by (auto simp: auth_read_eq_Inr auth_write_eq_Inr handshake_frame_def credentials_frame_def)
next
  assume ?R
  then show ?L
    by (auto simp: authenticate_def auth_read_eq_Inr [THEN iffD2] auth_read_def handshake_frame_def
        credentials_frame_def auth_write_eq_Inr [THEN iffD2] not_less)
qed

lemma authenticate_output:
  assumes "authenticate env clients mpl reads out = (r, rest, out')"
  shows "(\<exists>cid ip v. r = AuthOk cid ip v) \<or> out' = out \<or> out' = out @ [OutServerHandshake 3]"
  using assms
  by (auto simp: authenticate_def auth_write_eq_Inr split: sum.splits client_message.splits if_splits option.splits)

section \<open>The engine behind the listener\<close>

text \<open>What a connection relies on: an engine that is well answers every request and stays well. Then no connection is
  ever torn down because the engine dropped an answer. The other way round, an engine that no longer
  answers ends every connection at its next engine request.\<close>

locale engine_port =
  fixes call :: "'n engine_request \<Rightarrow> 'es \<Rightarrow> server_message option \<times> 'es"
    and ok :: "'es \<Rightarrow> bool"
  assumes answers_when_ok: "ok es \<Longrightarrow> fst (call req es) \<noteq> None"
    and stays_ok: "ok es \<Longrightarrow> ok (snd (call req es))"
begin

lemma run_engine_ok: "engine_call env = call \<Longrightarrow> ok es \<Longrightarrow> ok (run_engine env reqs es)"
  by (induction reqs arbitrary: es) (simp_all add: run_engine_def stays_ok)

lemma serve_message_ok:
  assumes "engine_call env = call" "custom_answers env" "ok (fst st)"
  shows "fst (serve_message env cid m st out) \<noteq> Some (Inl OneshotErr)"
proof -
  have "net_error_from e \<noteq> OneshotErr" for e :: write_failure by (cases e) simp_all
  moreover have "unexpected raw \<noteq> OneshotErr" for raw :: "'b option" by (cases raw) simp_all
  moreover have "engine_call env req (fst st) \<noteq> (None, es)" for req es
    using answers_when_ok [OF assms(3), of req] assms(1) by auto
  moreover have "handler cid c cs \<noteq> (None, cs')" if "custom_call env = Some handler" for handler c cs cs'
    using assms(2) that unfolding custom_answers_def by (metis fst_conv)
  ultimately show ?thesis
    by (cases m) (auto simp: engine_round_def write_output_def Let_def split: prod.split option.split)
qed

lemma connection_ok:
  assumes "engine_call env = call" "custom_answers env" "ok (fst st)"
  shows "fst (handle_connection env cid mpl reads st out) \<noteq> Some (Inl OneshotErr) \<and>
    ok (fst (fst (snd (handle_connection env cid mpl reads st out))))"
  using assms
proof (induction env cid mpl reads st out rule: handle_connection.induct)
  case (3 env cid mpl frame reads st out)
  show ?case
  proof (cases "read_message env mpl frame")
    case (Inl e)
    then have "e \<noteq> OneshotErr" by (auto simp: read_message_def split: sum.splits message_set_error.splits)
    with Inl 3(4) show ?thesis by simp
  next
    case (Inr m)
    show ?thesis
    proof (cases rule: serve_message_cases [of env cid m st out])
      case (ends r cs)
      with Inr serve_message_ok [OF 3(2,3,4), of cid m out] run_engine_ok [OF 3(2,4)] show ?thesis by simp
    next
      case (answered a cs)
      with Inr 3(1) [OF Inr answered(1) [symmetric] refl refl 3(2,3)] run_engine_ok [OF 3(2,4)] show ?thesis by simp
    qed
  qed
qed simp_all

end

section \<open>Properties\<close>

lemma write_error_response_output:
  "\<exists>errs. write_error_response env e out = out @ errs \<and>
     (errs = [] \<or> (\<exists>r. error_response_of e = Some r \<and> errs = [OutError r]))"
  by (auto simp: write_error_response_def write_output_def split: option.split)

text \<open>C17: A client is accepted exactly when its first message is a handshake whose version range contains 3,
  its second message names a registered client with a password that verifies against the stored hash,
  and both answers can be written in time. It then has been sent the handshake and the acceptance, the version is 3
  and the reads after the two messages are left for serving it.\<close>

theorem authenticate_succeeds_iff:
  "authenticate env clients mpl reads [] = (AuthOk cid ip v, rest, out) \<longleftrightarrow>
     (\<exists>f g lo hi secret h. reads = ReadFrame f # ReadFrame g # rest \<and>
        read_message env mpl f = Inr (ClientHandshake lo hi) \<and> lo \<le> 3 \<and> 3 \<le> hi \<and>
        read_message env mpl g = Inr (Authentication cid secret ip) \<and>
        clients cid = Some h \<and> verify_password env secret h \<and>
        writes_in_time env 0 (OutServerHandshake 3) \<and> writes_in_time env 1 OutAuthenticationAccepted \<and>
        v = 3 \<and> out = [OutServerHandshake 3, OutAuthenticationAccepted])"
  unfolding authenticate_ok handshake_frame_def credentials_frame_def by simp blast

text \<open>C20: The task of a connection acts only for an authenticated client. Either the two frames of a
  successful authentication came first; then the events are \<open>ClientConnect\<close> for that client and, when
  the connection ends, exactly one of \<open>ClientDisconnect\<close> (quit or idle timeout) and
  \<open>ClientConnectionLoss\<close> (any error), and an error response is written only after an error. Or there is no
  event, the engine and the application's handler are not called, and at most the server handshake and
  an error response are written.\<close>

theorem stream_acts_only_after_authentication:
  "(let (evs, st', out) = handle_stream env clients mpl tls_ok conn_id reads st in
      (tls_ok \<and> (\<exists>f g rest cid ip r out1 errs.
         reads = ReadFrame f # ReadFrame g # rest \<and> handshake_frame env mpl f \<and>
         credentials_frame env clients mpl cid ip g \<and>
         handle_connection env cid mpl rest st [OutServerHandshake 3, OutAuthenticationAccepted] = (r, st', out1) \<and>
         out = out1 @ errs \<and>
         (case r of
            None \<Rightarrow> evs = [ClientConnect cid conn_id ip] \<and> errs = []
          | Some (Inr _) \<Rightarrow> evs = [ClientConnect cid conn_id ip, ClientDisconnect cid conn_id] \<and> errs = []
          | Some (Inl e) \<Rightarrow> evs = [ClientConnect cid conn_id ip, ClientConnectionLoss cid conn_id] \<and>
              (errs = [] \<or> (\<exists>resp. error_response_of e = Some resp \<and> errs = [OutError resp]))))) \<or>
      (evs = [] \<and> st' = st \<and>
       (\<exists>hs errs. out = hs @ errs \<and> hs \<in> {[], [OutServerHandshake 3]} \<and> (errs = [] \<or> (\<exists>resp. errs = [OutError resp])))))"
proof (cases tls_ok)
  case True
  obtain r rest out where a: "authenticate env clients mpl reads [] = (r, rest, out)" using prod_cases3 by blast
  show ?thesis
  proof (cases "\<exists>cid ip v. r = AuthOk cid ip v")
    case ok: True
    then obtain cid ip v where r: "r = AuthOk cid ip v" by blast
    obtain r' st' out' where h: "handle_connection env cid mpl rest st out = (r', st', out')" using prod_cases3 by blast
    from a [unfolded r authenticate_ok] obtain f g where reads: "reads = ReadFrame f # ReadFrame g # rest"
      "handshake_frame env mpl f" "credentials_frame env clients mpl cid ip g"
      "out = [OutServerHandshake 3, OutAuthenticationAccepted]" by auto
    have "\<exists>evs errs. handle_stream env clients mpl tls_ok conn_id reads st = (evs, st', out' @ errs) \<and>
        (case r' of
           None \<Rightarrow> evs = [ClientConnect cid conn_id ip] \<and> errs = []
         | Some (Inr _) \<Rightarrow> evs = [ClientConnect cid conn_id ip, ClientDisconnect cid conn_id] \<and> errs = []
         | Some (Inl e) \<Rightarrow> evs = [ClientConnect cid conn_id ip, ClientConnectionLoss cid conn_id] \<and>
             (errs = [] \<or> (\<exists>resp. error_response_of e = Some resp \<and> errs = [OutError resp])))"
    proof -
      consider "r' = None" | u where "r' = Some (Inr u)" | e where "r' = Some (Inl e)"
        by (metis old.sum.exhaust option.exhaust)
      then show ?thesis
      proof cases
        case (3 e)
        then show ?thesis using True a r h write_error_response_output [of env e out'] by (simp add: handle_stream_def)
      qed (use True a r h in \<open>simp_all add: handle_stream_def\<close>)
    qed
    then obtain evs errs where stream: "handle_stream env clients mpl tls_ok conn_id reads st = (evs, st', out' @ errs)"
      "case r' of
           None \<Rightarrow> evs = [ClientConnect cid conn_id ip] \<and> errs = []
         | Some (Inr _) \<Rightarrow> evs = [ClientConnect cid conn_id ip, ClientDisconnect cid conn_id] \<and> errs = []
         | Some (Inl e) \<Rightarrow> evs = [ClientConnect cid conn_id ip, ClientConnectionLoss cid conn_id] \<and>
             (errs = [] \<or> (\<exists>resp. error_response_of e = Some resp \<and> errs = [OutError resp]))" by blast
    show ?thesis
      unfolding stream(1) Let_def prod.case
      by (intro disjI1 conjI exI [of _ f] exI [of _ g] exI [of _ rest] exI [of _ cid] exI [of _ ip] exI [of _ r']
          exI [of _ out'] exI [of _ errs]) (use True reads h stream(2) in simp_all)
  next
    case False
    then have "out = [] \<or> out = [OutServerHandshake 3]" using authenticate_output [OF a] by auto
    moreover have "\<exists>errs. handle_stream env clients mpl tls_ok conn_id reads st = ([], st, out @ errs) \<and>
        (errs = [] \<or> (\<exists>resp. errs = [OutError resp]))"
    proof (cases r)
      case (AuthErr e)
      then show ?thesis using True a write_error_response_output [of env e out] by (auto simp: handle_stream_def)
    qed (use True False a in \<open>simp_all add: handle_stream_def\<close>)
    ultimately obtain errs where stream: "handle_stream env clients mpl tls_ok conn_id reads st = ([], st, out @ errs)"
      "out \<in> {[], [OutServerHandshake 3]}" "errs = [] \<or> (\<exists>resp. errs = [OutError resp])" by blast
    show ?thesis
      unfolding stream(1) Let_def prod.case
      by (intro disjI2 conjI refl exI [of _ out] exI [of _ errs] stream)
  qed
qed (simp add: handle_stream_def)

text \<open>C21: The protocol is strictly request and response. Whatever an authenticated client sends, what is written
  are the answers to the first messages received, in order and one each: the engine's response to exactly the
  request the message stands for, under the authenticated client's ID and in the state the requests before
  have left the engine in, the pong, or the outcome of the application's handler. The engine has seen the
  requests of these messages, and at most one more, of the message being answered when the connection ended.
  As long as the connection goes on, every message received has been answered.\<close>

theorem connection_answers_in_order:
  "(let (r, st', out') = handle_connection env cid mpl reads st out; ms = received_messages env mpl reads
    in \<exists>j k ans. j \<le> k \<and> k \<le> Suc j \<and> k \<le> length ms \<and>
         fst st' = run_engine env (concat (map (engine_request_of cid) (take k ms))) (fst st) \<and>
         out' = out @ ans \<and> length ans = j \<and> ans = take j (replies env cid ms st) \<and>
         (r = None \<longrightarrow> j = length reads))"
proof -
  obtain r st' out' where h: "handle_connection env cid mpl reads st out = (r, st', out')" using prod_cases3 by blast
  show ?thesis using handle_connection_spec [OF h] by (simp add: h Let_def)
qed

text \<open>An environment for examples: frames are the messages themselves, secrets are compared in the
  clear, writes succeed and the engine counts its requests.\<close>

definition demo_env :: "((nat, unit) client_message, (nat, unit) client_message, nat, unit, unit, nat, unit, string) net_env" where
  "demo_env =
     \<lparr>read_frame = (\<lambda>mpl f. Inr f), decode = Inr, encode = Some, encode_request = (\<lambda>c. Some (Custom c)),
      write_error = (\<lambda>n m. None), write_stalls = (\<lambda>n m. False), verify_password = (\<lambda>secret h. secret = h),
      engine_call = (\<lambda>req n. (Some (ErrorMessage UnknownNfcUid), Suc n)), custom_call = None\<rparr>"

theorem connection_answers_in_order_witness:
  "snd (snd (handle_connection demo_env ''c'' 100 [ReadFrame Ping, ReadFrame (BloopMessage 7)] (0, ()) [])) =
     [OutPong, OutMessage (ErrorMessage UnknownNfcUid)]"
  using connection_answers_in_order [of demo_env "''c''" 100 "[ReadFrame Ping, ReadFrame (BloopMessage 7)]" "(0, ())" "[]"]
  by (auto simp: demo_env_def read_message_def write_output_def engine_round_def engine_reply_def Let_def)

lemma accept_loop_ids:
  "accept_loop (map Inr ss @ accepts) n handled =
     accept_loop accepts (n + of_nat (length ss)) (handled @ zip (map (\<lambda>i. n + of_nat i) [0..<length ss]) ss)"
proof (induction ss arbitrary: n handled)
  case (Cons s ss)
  have "map (\<lambda>i. n + of_nat i) [0..<Suc (length ss)] = n # map (\<lambda>i. n + 1 + of_nat i) [0..<length ss]"
    by (simp only: map_upt_Suc) (simp add: algebra_simps)
  then show ?case by (simp add: Cons.IH algebra_simps del: upt_Suc)
qed simp

text \<open>The listener numbers the connections it accepts 0, 1, 2 and so on, so that up to \<open>2 ^ 64\<close> of them
  are told apart by their IDs, and hands each to a task. It returns with the error when the address
  cannot be bound, and also when a single accept fails: connections that would come after that are
  not served.\<close>

theorem accept_error_ends_listen:
  "listen (Some e) accepts = (Some e, []) \<and>
   listen None (map Inr streams) = (None, zip (map of_nat [0..<length streams]) streams) \<and>
   listen None (map Inr streams @ Inl e # accepts) = (Some e, zip (map of_nat [0..<length streams]) streams) \<and>
   (length streams \<le> 2 ^ 64 \<longrightarrow> distinct (map fst (snd (listen None (map Inr streams @ Inl e # accepts)))))"
proof -
  have "distinct (map (of_nat :: nat \<Rightarrow> usize) [0..<n])" if "n \<le> 2 ^ 64" for n
  proof -
    have "inj_on (of_nat :: nat \<Rightarrow> usize) {0..<n}"
    proof (rule inj_onI)
      fix i j assume "i \<in> {0..<n}" "j \<in> {0..<n}" "(of_nat i :: usize) = of_nat j"
      moreover from this have "i < 2 ^ 64" "j < 2 ^ 64" using that by auto
      ultimately show "i = j" by (auto simp: of_nat_eq_iff word_of_nat_eq_iff take_bit_nat_eq_self)
    qed
    then show ?thesis by (simp add: distinct_map)
  qed
  then show ?thesis
    using accept_loop_ids [of streams "[]" 0 "[]"] accept_loop_ids [of streams "Inl e # accepts" 0 "[]"]
    by (simp add: listen_def)
qed


theorem accept_error_ends_listen_witness:
  "distinct (map fst (snd (listen None (map Inr ''ab'' @ Inl (7::nat) # [Inr CHR ''c'']))))"
  using accept_error_ends_listen [of "7::nat" "[Inr CHR ''c'']" "''ab''"] by auto

end
