(* ===== verification/Server.thy ===== *)
theory Server
  imports Network
begin

text \<open>
  Many connections at once (\<open>src/src/network.rs\<close>). \<open>listen\<close> spawns one task per accepted stream; the tasks
  share the client registry, the event channel, the engine and the application's handler. The record
  \<open>server\<close> is that shared state with the tasks; a step is the accept loop taking a stream, a task
  finishing its authentication, a task handling one read, or the application changing the client
  registry, in any order. The theory \<open>Network\<close> has the code of a single task; here a task goes on by one
  read at a time, with \<open>handle_connection\<close> on that read.

  \<open>history\<close> is the event channel, with the calls of the engine recorded in between.
\<close>

section \<open>The tasks and what they share\<close>

datatype phase = Accepted | Serving client_id | Finished

record 'res conn_task =
  conn_number :: usize
  conn_phase :: phase
  conn_out :: "'res net_output list"

datatype 'n action = Broadcast event | EngineCall usize "'n engine_request"

record ('n, 'res, 'es, 'cs, 'h) server =
  con_counter :: usize
  connections :: "'res conn_task list"
  registered :: "client_id \<rightharpoonup> 'h"
  history :: "'n action list"
  handlers :: "'es \<times> 'cs"

definition server_new :: "(client_id \<rightharpoonup> 'h) \<Rightarrow> 'es \<times> 'cs \<Rightarrow> ('n, 'res, 'es, 'cs, 'h) server" where
  "server_new clients st =
     \<lparr>con_counter = 0, connections = [], registered = clients, history = [], handlers = st\<rparr>"

definition accept_stream ::
  "('n, 'res, 'es, 'cs, 'h) server \<Rightarrow> ('n, 'res, 'es, 'cs, 'h) server" where
  "accept_stream s =
     (let conn_id = con_counter s
      in s\<lparr>con_counter := con_counter s + 1,
           connections := connections s @ [\<lparr>conn_number = conn_id, conn_phase = Accepted, conn_out = []\<rparr>]\<rparr>)"

definition tls_failed ::
  "nat \<Rightarrow> ('n, 'res, 'es, 'cs, 'h) server \<Rightarrow> ('n, 'res, 'es, 'cs, 'h) server" where
  "tls_failed k s = s\<lparr>connections := (connections s)[k := (connections s ! k)\<lparr>conn_phase := Finished\<rparr>]\<rparr>"

text \<open>The task has authenticated its client, or given up: \<open>reads\<close> is what it has read for that. While
  the authentication still waits nothing happens.\<close>

definition authenticate_stream ::
  "('f, 'raw, 'n, 'req, 'res, 'es, 'cs, 'h) net_env \<Rightarrow> u32 \<Rightarrow> nat \<Rightarrow> 'f read_event list \<Rightarrow>
   ('n, 'res, 'es, 'cs, 'h) server \<Rightarrow> ('n, 'res, 'es, 'cs, 'h) server" where
  "authenticate_stream env mpl k reads s =
     (let c = connections s ! k in
      case authenticate env (registered s) mpl reads (conn_out c) of
        (AuthOk cid local_ip version, _, out) \<Rightarrow>
          s\<lparr>connections := (connections s)[k := c\<lparr>conn_phase := Serving cid, conn_out := out\<rparr>],
            history := history s @ [Broadcast (ClientConnect cid (conn_number c) local_ip)]\<rparr>
      | (AuthErr e, _, out) \<Rightarrow>
          s\<lparr>connections := (connections s)
              [k := c\<lparr>conn_phase := Finished, conn_out := write_error_response env e out\<rparr>]\<rparr>
      | (AuthTimeout, _, out) \<Rightarrow>
          s\<lparr>connections := (connections s)[k := c\<lparr>conn_phase := Finished, conn_out := out\<rparr>]\<rparr>
      | (AuthWaiting, _, out) \<Rightarrow> s)"

text \<open>The task of the client \<open>cid\<close> handles one read.\<close>

definition serve_stream ::
  "('f, 'raw, 'n, 'req, 'res, 'es, 'cs, 'h) net_env \<Rightarrow> u32 \<Rightarrow> nat \<Rightarrow> client_id \<Rightarrow> 'f read_event \<Rightarrow>
   ('n, 'res, 'es, 'cs, 'h) server \<Rightarrow> ('n, 'res, 'es, 'cs, 'h) server" where
  "serve_stream env mpl k cid read s =
     (let c = connections s ! k;
          calls = map (EngineCall (conn_number c))
            (concat (map (engine_request_of cid) (received_messages env mpl [read])))
      in case handle_connection env cid mpl [read] (handlers s) (conn_out c) of
           (None, st, out) \<Rightarrow>
             s\<lparr>connections := (connections s)[k := c\<lparr>conn_out := out\<rparr>],
               history := history s @ calls, handlers := st\<rparr>
         | (Some (Inr _), st, out) \<Rightarrow>
             s\<lparr>connections := (connections s)[k := c\<lparr>conn_phase := Finished, conn_out := out\<rparr>],
               history := history s @ calls @ [Broadcast (ClientDisconnect cid (conn_number c))],
               handlers := st\<rparr>
         | (Some (Inl e), st, out) \<Rightarrow>
             s\<lparr>connections := (connections s)
                 [k := c\<lparr>conn_phase := Finished, conn_out := write_error_response env e out\<rparr>],
               history := history s @ calls @ [Broadcast (ClientConnectionLoss cid (conn_number c))],
               handlers := st\<rparr>)"

text \<open>A task that authenticates its client has used up what it has read so far; later reads are served.\<close>

inductive server_step ::
  "('f, 'raw, 'n, 'req, 'res, 'es, 'cs, 'h) net_env \<Rightarrow> u32 \<Rightarrow>
   ('n, 'res, 'es, 'cs, 'h) server \<Rightarrow> ('n, 'res, 'es, 'cs, 'h) server \<Rightarrow> bool" for env mpl where
  accept: "server_step env mpl s (accept_stream s)"
| tls: "k < length (connections s) \<Longrightarrow> conn_phase (connections s ! k) = Accepted \<Longrightarrow>
    server_step env mpl s (tls_failed k s)"
| auth: "k < length (connections s) \<Longrightarrow> conn_phase (connections s ! k) = Accepted \<Longrightarrow>
    (\<And>cid ip v rest out. authenticate env (registered s) mpl reads (conn_out (connections s ! k)) =
       (AuthOk cid ip v, rest, out) \<Longrightarrow> rest = []) \<Longrightarrow>
    server_step env mpl s (authenticate_stream env mpl k reads s)"
| serve: "k < length (connections s) \<Longrightarrow> conn_phase (connections s ! k) = Serving cid \<Longrightarrow>
    server_step env mpl s (serve_stream env mpl k cid read s)"
| register: "server_step env mpl s (s\<lparr>registered := clients\<rparr>)"

inductive_cases server_step_elim: "server_step env mpl s s'"

abbreviation server_run ::
  "('f, 'raw, 'n, 'req, 'res, 'es, 'cs, 'h) net_env \<Rightarrow> u32 \<Rightarrow>
   ('n, 'res, 'es, 'cs, 'h) server \<Rightarrow> ('n, 'res, 'es, 'cs, 'h) server \<Rightarrow> bool" where
  "server_run env mpl \<equiv> (server_step env mpl)\<^sup>*\<^sup>*"

section \<open>The session of a connection\<close>

fun concerns :: "usize \<Rightarrow> 'n action \<Rightarrow> bool" where
  "concerns i (Broadcast (ClientConnect cid j ip)) \<longleftrightarrow> i = j"
| "concerns i (Broadcast (ClientDisconnect cid j)) \<longleftrightarrow> i = j"
| "concerns i (Broadcast (ClientConnectionLoss cid j)) \<longleftrightarrow> i = j"
| "concerns i (Broadcast _) \<longleftrightarrow> False"
| "concerns i (EngineCall j req) \<longleftrightarrow> i = j"

definition session :: "usize \<Rightarrow> ('n, 'res, 'es, 'cs, 'h) server \<Rightarrow> 'n action list" where
  "session i s = filter (concerns i) (history s)"

fun own_request :: "client_id \<Rightarrow> 'n engine_request \<Rightarrow> bool" where
  "own_request cid (BloopRequest cid' nfc) \<longleftrightarrow> cid' = cid"
| "own_request cid _ \<longleftrightarrow> True"

definition opened :: "usize \<Rightarrow> client_id \<Rightarrow> 'n action list \<Rightarrow> bool" where
  "opened i cid xs \<longleftrightarrow>
     (\<exists>ip reqs. xs = Broadcast (ClientConnect cid i ip) # map (EngineCall i) reqs \<and>
        list_all (own_request cid) reqs)"

definition closed_by :: "usize \<Rightarrow> client_id \<Rightarrow> 'n action list \<Rightarrow> bool" where
  "closed_by i cid xs \<longleftrightarrow>
     (\<exists>ys. opened i cid ys \<and>
        (xs = ys @ [Broadcast (ClientDisconnect cid i)] \<or>
         xs = ys @ [Broadcast (ClientConnectionLoss cid i)]))"

fun session_wf :: "usize \<Rightarrow> phase \<Rightarrow> 'n action list \<Rightarrow> bool" where
  "session_wf i Accepted xs \<longleftrightarrow> xs = []"
| "session_wf i (Serving cid) xs \<longleftrightarrow> opened i cid xs"
| "session_wf i Finished xs \<longleftrightarrow> xs = [] \<or> (\<exists>cid. closed_by i cid xs)"

text \<open>The counter is a \<open>usize\<close>: the connection IDs are unique as long as it has not wrapped around.\<close>

definition server_wf :: "('n, 'res, 'es, 'cs, 'h) server \<Rightarrow> bool" where
  "server_wf s \<longleftrightarrow>
     con_counter s = of_nat (length (connections s)) \<and>
     (\<forall>k < length (connections s). conn_number (connections s ! k) = of_nat k) \<and>
     (length (connections s) \<le> 2 ^ 64 \<longrightarrow>
        (\<forall>k < length (connections s).
           session_wf (of_nat k) (conn_phase (connections s ! k)) (session (of_nat k) s)) \<and>
        (\<forall>k. length (connections s) \<le> k \<and> k < 2 ^ 64 \<longrightarrow> session (of_nat k) s = []))"

lemma conn_number_inj:
  assumes "j < 2 ^ 64" "k < 2 ^ 64"
  shows "(of_nat j :: usize) = of_nat k \<longleftrightarrow> j = k"
  using assms by (simp add: word_of_nat_eq_iff take_bit_nat_eq_self)

lemma server_wfD:
  assumes "server_wf s" "k < length (connections s)"
  shows "conn_number (connections s ! k) = of_nat k"
    and "length (connections s) \<le> 2 ^ 64 \<Longrightarrow>
      session_wf (of_nat k) (conn_phase (connections s ! k)) (session (of_nat k) s)"
  using assms by (simp_all add: server_wf_def)

lemma server_wf_new: "server_wf (server_new clients st)"
  by (simp add: server_wf_def server_new_def session_def)

lemma server_wf_accept:
  assumes "server_wf s"
  shows "server_wf (accept_stream s)"
proof -
  have "session i (accept_stream s) = session i s" for i
    by (simp add: session_def accept_stream_def Let_def)
  with assms show ?thesis
    by (auto simp: server_wf_def accept_stream_def Let_def nth_append less_Suc_eq)
qed

text \<open>One task goes on: it changes its own entry and appends actions of its own to the history.\<close>

lemma server_wf_task:
  assumes "server_wf s" "k < length (connections s)"
    and "connections s' = (connections s)[k := c]" "conn_number c = conn_number (connections s ! k)"
    and "con_counter s' = con_counter s" "history s' = history s @ acts"
    and "\<And>act i. act \<in> set acts \<Longrightarrow> concerns i act \<longleftrightarrow> i = conn_number c"
    and "\<And>xs. session_wf (conn_number c) (conn_phase (connections s ! k)) xs \<Longrightarrow>
      session_wf (conn_number c) (conn_phase c) (xs @ acts)"
  shows "server_wf s'"
proof -
  have n: "conn_number c = of_nat k" using assms(4) server_wfD(1) [OF assms(1,2)] by simp
  have same: "session (of_nat j) s' = session (of_nat j) s" if "j \<noteq> k" "j < 2 ^ 64" "k < 2 ^ 64" for j
    using that assms(7) conn_number_inj [of j k]
    by (auto simp: session_def assms(6) n filter_empty_conv)
  have own: "session (of_nat k) s' = session (of_nat k) s @ acts"
    using assms(7) by (simp add: session_def assms(6) n cong: filter_cong)
  have k: "k < 2 ^ 64" if "length (connections s) \<le> 2 ^ 64"
    using assms(2) that by simp
  show ?thesis
    unfolding server_wf_def
  proof (intro conjI impI allI; (elim conjE)?)
    show "con_counter s' = of_nat (length (connections s'))"
      using assms(1,3,5) by (simp add: server_wf_def)
  next
    fix j
    assume "j < length (connections s')"
    then show "conn_number (connections s' ! j) = of_nat j"
      using server_wfD(1) [OF assms(1), of j] by (cases "j = k") (simp_all add: assms(3) n)
  next
    fix j
    assume len: "length (connections s') \<le> 2 ^ 64" and j: "j < length (connections s')"
    then have "length (connections s) \<le> 2 ^ 64" "j < length (connections s)" by (simp_all add: assms(3))
    then show "session_wf (of_nat j) (conn_phase (connections s' ! j)) (session (of_nat j) s')"
      using server_wfD(2) [OF assms(1), of j] assms(8) [unfolded n] own same [of j] k
      by (cases "j = k") (simp_all add: assms(3))
  next
    fix j
    assume len: "length (connections s') \<le> 2 ^ 64" and j: "length (connections s') \<le> j" "j < 2 ^ 64"
    then have "session (of_nat j) s = []" "j \<noteq> k" using assms(1,2) by (auto simp: server_wf_def assms(3))
    with same [of j] k j len show "session (of_nat j) s' = []" by (simp add: assms(3))
  qed
qed

lemma own_request_of: "list_all (own_request cid) (engine_request_of cid m)"
  by (cases m) simp_all

lemma opened_calls:
  assumes "opened i cid xs" "list_all (own_request cid) reqs"
  shows "opened i cid (xs @ map (EngineCall i) reqs)"
  using assms unfolding opened_def by (metis append_Cons list_all_append map_append)

lemma session_wf_end:
  assumes "session_wf i (Serving cid) xs" "list_all (own_request cid) reqs"
  shows "session_wf i Finished (xs @ map (EngineCall i) reqs @ [Broadcast (ClientDisconnect cid i)])"
    and "session_wf i Finished (xs @ map (EngineCall i) reqs @ [Broadcast (ClientConnectionLoss cid i)])"
  using opened_calls [OF assms(1) [simplified] assms(2)]
  by (auto simp: closed_by_def append_assoc [symmetric] simp del: append_assoc)

lemma server_wf_authenticate:
  assumes "server_wf s" "k < length (connections s)" "conn_phase (connections s ! k) = Accepted"
  shows "server_wf (authenticate_stream env mpl k reads s)"
proof -
  let ?c = "connections s ! k"
  obtain r rest out where a: "authenticate env (registered s) mpl reads (conn_out ?c) = (r, rest, out)"
    using prod_cases3 by blast
  show ?thesis
  proof (cases r)
    case (AuthOk cid ip v)
    show ?thesis
      by (rule server_wf_task [OF assms(1,2), where c = "?c\<lparr>conn_phase := Serving cid, conn_out := out\<rparr>"
            and acts = "[Broadcast (ClientConnect cid (conn_number ?c) ip)]"])
        (auto simp: authenticate_stream_def Let_def a AuthOk assms(3) opened_def)
  next
    case (AuthErr e)
    show ?thesis
      by (rule server_wf_task [OF assms(1,2), where acts = "[]"
            and c = "?c\<lparr>conn_phase := Finished, conn_out := write_error_response env e out\<rparr>"])
        (auto simp: authenticate_stream_def Let_def a AuthErr assms(3))
  next
    case AuthTimeout
    show ?thesis
      by (rule server_wf_task [OF assms(1,2), where acts = "[]" and c = "?c\<lparr>conn_phase := Finished, conn_out := out\<rparr>"])
        (auto simp: authenticate_stream_def Let_def a AuthTimeout assms(3))
  qed (use assms(1) in \<open>simp add: authenticate_stream_def Let_def a\<close>)
qed

lemma server_wf_serve:
  assumes "server_wf s" "k < length (connections s)" "conn_phase (connections s ! k) = Serving cid"
  shows "server_wf (serve_stream env mpl k cid read s)"
proof -
  let ?c = "connections s ! k"
  let ?reqs = "concat (map (engine_request_of cid) (received_messages env mpl [read]))"
  let ?calls = "map (EngineCall (conn_number ?c)) ?reqs"
  have own: "list_all (own_request cid) ?reqs"
    using own_request_of by (fastforce simp: list_all_iff)
  obtain r st out where h: "handle_connection env cid mpl [read] (handlers s) (conn_out ?c) = (r, st, out)"
    using prod_cases3 by blast
  note task = server_wf_task [OF assms(1,2)]
  show ?thesis
  proof (cases r)
    case None
    show ?thesis
      by (rule task [where acts = ?calls and c = "?c\<lparr>conn_out := out\<rparr>"])
        (use own in \<open>auto simp: serve_stream_def Let_def h None assms(3) intro: opened_calls simp del: map_concat\<close>)
  next
    case (Some res)
    show ?thesis
    proof (cases res)
      case (Inl e)
      show ?thesis
        by (rule task [where acts = "?calls @ [Broadcast (ClientConnectionLoss cid (conn_number ?c))]"
              and c = "?c\<lparr>conn_phase := Finished, conn_out := write_error_response env e out\<rparr>"])
          (use session_wf_end(2) [OF _ own] in \<open>auto simp: serve_stream_def Let_def h Some Inl assms(3)\<close>)
    next
      case (Inr u)
      show ?thesis
        by (rule task [where acts = "?calls @ [Broadcast (ClientDisconnect cid (conn_number ?c))]"
              and c = "?c\<lparr>conn_phase := Finished, conn_out := out\<rparr>"])
          (use session_wf_end(1) [OF _ own] in \<open>auto simp: serve_stream_def Let_def h Some Inr assms(3)\<close>)
    qed
  qed
qed

lemma server_step_wf [inv_intros]:
  assumes "server_step env mpl s s'" "server_wf s"
  shows "server_wf s'"
  using assms(1)
proof (cases rule: server_step.cases)
  case (tls k)
  show ?thesis
    unfolding tls(1)
    by (rule server_wf_task [OF assms(2) tls(2), where acts = "[]" and c = "(connections s ! k)\<lparr>conn_phase := Finished\<rparr>"])
      (auto simp: tls_failed_def tls(3))
next
  case (register clients)
  with assms(2) show ?thesis by (simp add: server_wf_def session_def)
qed (use assms(2) in \<open>simp_all add: server_wf_accept server_wf_authenticate server_wf_serve\<close>)

lemma server_run_wf: "server_run env mpl s s' \<Longrightarrow> server_wf s \<Longrightarrow> server_wf s'"
  by (induction rule: rtranclp_induct) (auto intro: inv_intros)

section \<open>The engine sees one request at a time\<close>

fun engine_calls :: "'n action list \<Rightarrow> 'n engine_request list" where
  "engine_calls [] = []"
| "engine_calls (EngineCall i req # acts) = req # engine_calls acts"
| "engine_calls (Broadcast ev # acts) = engine_calls acts"

fun broadcasts :: "'n action list \<Rightarrow> event list" where
  "broadcasts [] = []"
| "broadcasts (Broadcast ev # acts) = ev # broadcasts acts"
| "broadcasts (EngineCall i req # acts) = broadcasts acts"

lemma history_append [simp]:
  "engine_calls (xs @ ys) = engine_calls xs @ engine_calls ys"
  "broadcasts (xs @ ys) = broadcasts xs @ broadcasts ys"
  "engine_calls (map (EngineCall i) reqs) = reqs" "broadcasts (map (EngineCall i) reqs) = []"
  by (induction xs rule: engine_calls.induct, simp_all, induction xs rule: broadcasts.induct, simp_all)
    (induction reqs, simp_all)+

lemma handle_one_read_engine:
  "fst (fst (snd (handle_connection env cid mpl [read] st out))) =
     run_engine env (concat (map (engine_request_of cid) (received_messages env mpl [read]))) (fst st)"
proof (cases read)
  case ReadTimeout
  then show ?thesis by (simp add: run_engine_def)
next
  case (ReadFrame f)
  show ?thesis
  proof (cases "read_message env mpl f")
    case (Inl e)
    with ReadFrame show ?thesis by (simp add: run_engine_def)
  next
    case (Inr m)
    with ReadFrame show ?thesis
      by (cases rule: serve_message_cases [of env cid m st out]) simp_all
  qed
qed

lemma serve_stream_engine:
  "fst (handlers (serve_stream env mpl k cid read s)) =
     run_engine env (concat (map (engine_request_of cid) (received_messages env mpl [read]))) (fst (handlers s))"
  "engine_calls (history (serve_stream env mpl k cid read s)) =
     engine_calls (history s) @ concat (map (engine_request_of cid) (received_messages env mpl [read]))"
  using handle_one_read_engine [of env cid mpl read "handlers s" "conn_out (connections s ! k)"]
  by (auto simp: serve_stream_def Let_def simp del: map_concat split: prod.split option.split sum.split)

lemma authenticate_stream_engine:
  "handlers (authenticate_stream env mpl k reads s) = handlers s"
  "engine_calls (history (authenticate_stream env mpl k reads s)) = engine_calls (history s)"
  by (simp_all add: authenticate_stream_def Let_def split: prod.split auth_result.split)

lemma server_step_engine:
  assumes "server_step env mpl s s'"
    and "fst (handlers s) = run_engine env (engine_calls (history s)) es"
  shows "fst (handlers s') = run_engine env (engine_calls (history s')) es"
  using assms(1)
proof (cases rule: server_step.cases)
  case (serve k cid read)
  then show ?thesis using assms(2) by (simp add: serve_stream_engine run_engine_append)
qed (use assms(2) in \<open>simp_all add: accept_stream_def tls_failed_def authenticate_stream_engine Let_def\<close>)

lemma server_run_engine:
  assumes "server_run env mpl (server_new clients st) s"
  shows "fst (handlers s) = run_engine env (engine_calls (history s)) (fst st)"
  using assms
  by (induction rule: rtranclp_induct) (auto simp: server_new_def run_engine_def intro: server_step_engine [unfolded run_engine_def])

text \<open>Every connection finds the engine well, however the connections are interleaved.\<close>

context engine_port
begin

lemma server_engine_ok:
  assumes "engine_call env = call" "ok (fst st)" "server_run env mpl (server_new clients st) s"
  shows "ok (fst (handlers s))"
  unfolding server_run_engine [OF assms(3)] by (rule run_engine_ok [OF assms(1,2)])

end

section \<open>A connection on its own\<close>

lemma handle_connection_Cons:
  "handle_connection env cid mpl (read # reads) st out =
     (case handle_connection env cid mpl [read] st out of
        (None, st, out) \<Rightarrow> handle_connection env cid mpl reads st out
      | r \<Rightarrow> r)"
  by (cases read) (simp_all split: sum.split prod.split option.split)

definition end_event :: "client_id \<Rightarrow> usize \<Rightarrow> ('raw net_error + unit) option \<Rightarrow> event list" where
  "end_event cid i r =
     (case r of None \<Rightarrow> [] | Some (Inr _) \<Rightarrow> [ClientDisconnect cid i] | Some (Inl e) \<Rightarrow> [ClientConnectionLoss cid i])"

definition end_out ::
  "('f, 'raw, 'n, 'req, 'res, 'es, 'cs, 'h) net_env \<Rightarrow> ('raw net_error + unit) option \<Rightarrow>
   'res net_output list \<Rightarrow> 'res net_output list" where
  "end_out env r out = (case r of Some (Inl e) \<Rightarrow> write_error_response env e out | _ \<Rightarrow> out)"

lemma connection_update:
  "c\<lparr>conn_phase := p, conn_out := out\<rparr> = \<lparr>conn_number = conn_number c, conn_phase = p, conn_out = out\<rparr>"
  by (cases c) simp

lemma serve_run:
  assumes "k < length (connections s)" "conn_phase (connections s ! k) = Serving cid"
    and "handle_connection env cid mpl reads (handlers s) (conn_out (connections s ! k)) = (r, st', out')"
  shows "\<exists>s'. server_run env mpl s s' \<and> handlers s' = st' \<and>
    broadcasts (history s') = broadcasts (history s) @ end_event cid (conn_number (connections s ! k)) r \<and>
    connections s' = (connections s)[k := \<lparr>conn_number = conn_number (connections s ! k),
      conn_phase = (if r = None then Serving cid else Finished), conn_out = end_out env r out'\<rparr>]"
  using assms
proof (induction reads arbitrary: s)
  case Nil
  then have "\<lparr>conn_number = conn_number (connections s ! k), conn_phase = Serving cid,
      conn_out = conn_out (connections s ! k)\<rparr> = connections s ! k" by simp
  then have "(connections s)[k := \<lparr>conn_number = conn_number (connections s ! k), conn_phase = Serving cid,
      conn_out = conn_out (connections s ! k)\<rparr>] = connections s" by (metis list_update_id)
  with Nil show ?case by (intro exI [of _ s]) (auto simp: end_event_def end_out_def)
next
  case (Cons read reads)
  let ?c = "connections s ! k" and ?s = "serve_stream env mpl k cid read s"
  have step: "server_step env mpl s ?s" using Cons.prems by (intro server_step.serve)
  obtain r1 st1 out1 where h: "handle_connection env cid mpl [read] (handlers s) (conn_out ?c) = (r1, st1, out1)"
    using prod_cases3 by blast
  show ?case
  proof (cases r1)
    case None
    have s: "handlers ?s = st1" "connections ?s = (connections s)[k := ?c\<lparr>conn_out := out1\<rparr>]"
      "broadcasts (history ?s) = broadcasts (history s)"
      by (simp_all add: serve_stream_def Let_def h None del: map_concat)
    have "handle_connection env cid mpl reads st1 out1 = (r, st', out')"
      using Cons.prems(3) handle_connection_Cons [of env cid mpl read reads] h None by simp
    with Cons.IH [of ?s] Cons.prems(1,2) obtain s' where "server_run env mpl ?s s'" "handlers s' = st'"
      "broadcasts (history s') = broadcasts (history s) @ end_event cid (conn_number ?c) r"
      "connections s' = (connections s)[k := \<lparr>conn_number = conn_number ?c,
        conn_phase = (if r = None then Serving cid else Finished), conn_out = end_out env r out'\<rparr>]"
      by (auto simp: s)
    with converse_rtranclp_into_rtranclp [of "server_step env mpl", OF step] show ?thesis by blast
  next
    case (Some res)
    then have "r = Some res" "st' = st1" "out' = out1"
      using Cons.prems(3) handle_connection_Cons [of env cid mpl read reads] h by simp_all
    then show ?thesis
      using step
      by (intro exI [of _ ?s])
        (auto simp: serve_stream_def Let_def h Some end_event_def end_out_def connection_update simp del: map_concat split: sum.split)
  qed
qed

section \<open>Properties\<close>

text \<open>C16: However the connections are interleaved, every connection leaves a well-formed session: as long as
  fewer than 2^64 streams have been accepted, connection IDs are unique and count the accepted
  streams; a connection that has not authenticated has sent no event and called nothing; a
  connection that serves a client has sent one \<open>ClientConnect\<close> with that client and its own ID, then
  only engine requests under that client's ID; a connection that has ended has sent nothing, or
  closed such a session with exactly one \<open>ClientDisconnect\<close> or \<open>ClientConnectionLoss\<close>.\<close>

theorem interleaved_sessions:
  assumes "server_run env mpl (server_new clients st) s" "length (connections s) \<le> 2 ^ 64"
  shows "map conn_number (connections s) = map of_nat [0..<length (connections s)] \<and>
    distinct (map conn_number (connections s)) \<and>
    (\<forall>c \<in> set (connections s). session_wf (conn_number c) (conn_phase c) (session (conn_number c) s))"
proof -
  have wf: "server_wf s" using server_run_wf [OF assms(1) server_wf_new] .
  have ids: "map conn_number (connections s) = map of_nat [0..<length (connections s)]"
    by (rule nth_equalityI) (simp_all add: server_wfD(1) [OF wf])
  moreover have "inj_on (of_nat :: nat \<Rightarrow> usize) {0..<length (connections s)}"
    using assms(2) by (auto simp: inj_on_def conn_number_inj)
  ultimately have "distinct (map conn_number (connections s))"
    by (simp add: distinct_map)
  moreover have "session_wf (conn_number c) (conn_phase c) (session (conn_number c) s)"
    if "c \<in> set (connections s)" for c
    using that server_wfD [OF wf] assms(2) by (auto simp: in_set_conv_nth)
  ultimately show ?thesis using ids by blast
qed

text \<open>The task of a single stream, after its TLS handshake and once its authentication has ended, is a run of
  the server: from a state in which the stream has been
  accepted, its steps alone lead to a state with the events, the handlers' state and the output
  that \<open>handle_stream\<close> gives for all reads of the stream, the other connections being unchanged.\<close>

theorem stream_is_a_run:
  assumes "k < length (connections s)"
    and "connections s ! k = \<lparr>conn_number = i, conn_phase = Accepted, conn_out = []\<rparr>"
    and "fst (authenticate env (registered s) mpl reads []) \<noteq> AuthWaiting"
  shows "\<exists>s' c. server_run env mpl s s' \<and>
    (let (evs, st', out) = handle_stream env (registered s) mpl True i reads (handlers s)
     in broadcasts (history s') = broadcasts (history s) @ evs \<and> handlers s' = st' \<and>
        connections s' = (connections s)[k := c] \<and> conn_number c = i \<and> conn_out c = out)"
proof -
  obtain r rest out where a: "authenticate env (registered s) mpl reads [] = (r, rest, out)"
    using prod_cases3 by blast
  show ?thesis
  proof (cases "\<exists>cid ip v. r = AuthOk cid ip v")
    case True
    then obtain cid ip v where r: "r = AuthOk cid ip v" by blast
    obtain f g where reads: "reads = ReadFrame f # ReadFrame g # rest"
      using a authenticate_ok [of env "registered s" mpl reads "[]" cid ip v rest out] r by auto
    have a2: "authenticate env (registered s) mpl [ReadFrame f, ReadFrame g] [] = (AuthOk cid ip v, [], out)"
      using a [unfolded r authenticate_ok] by (simp add: reads authenticate_ok)
    let ?s = "authenticate_stream env mpl k [ReadFrame f, ReadFrame g] s"
    have step: "server_step env mpl s ?s" by (rule server_step.auth) (simp_all add: assms(1,2) a2)
    have s: "connections ?s = (connections s)[k := \<lparr>conn_number = i, conn_phase = Serving cid, conn_out = out\<rparr>]"
      "handlers ?s = handlers s" "broadcasts (history ?s) = broadcasts (history s) @ [ClientConnect cid i ip]"
      by (simp_all add: authenticate_stream_def assms(2) a2)
    obtain r' st' out' where h: "handle_connection env cid mpl rest (handlers s) out = (r', st', out')"
      using prod_cases3 by blast
    obtain s' where s': "server_run env mpl ?s s'" "handlers s' = st'"
      "broadcasts (history s') = broadcasts (history ?s) @ end_event cid i r'"
      "connections s' = (connections s)[k := \<lparr>conn_number = i,
        conn_phase = (if r' = None then Serving cid else Finished), conn_out = end_out env r' out'\<rparr>]"
      using serve_run [of k ?s cid env mpl rest r' st' out'] assms(1) h by (auto simp: s)
    have hs: "handle_stream env (registered s) mpl True i reads (handlers s) =
        (ClientConnect cid i ip # end_event cid i r', st', end_out env r' out')"
      by (auto simp: handle_stream_def a r h end_event_def end_out_def split: option.split sum.split)
    have "server_run env mpl s s'" using step s'(1) by (rule converse_rtranclp_into_rtranclp)
    with s' s(3) show ?thesis
      by (intro exI [of _ s'] exI [of _ "\<lparr>conn_number = i,
        conn_phase = (if r' = None then Serving cid else Finished), conn_out = end_out env r' out'\<rparr>"])
        (simp add: hs)
  next
    case False
    let ?s = "authenticate_stream env mpl k reads s"
    have "server_step env mpl s ?s" by (rule server_step.auth) (use False in \<open>simp_all add: assms(1,2) a\<close>)
    moreover have "r \<noteq> AuthWaiting" using a assms(3) by simp
    ultimately show ?thesis
      using False
      by (intro exI [of _ ?s] exI [of _ "connections ?s ! k"])
        (cases r; simp add: authenticate_stream_def assms(1,2) a handle_stream_def)
  qed
qed

theorem stream_is_a_run_witness:
  "\<exists>s'. server_run demo_env 100 (accept_stream (server_new [''c'' \<mapsto> ''pw''] (0, ()))) s' \<and>
     broadcasts (history s') = [ClientConnect ''c'' 0 (V4 1), ClientDisconnect ''c'' 0]"
proof -
  let ?s = "accept_stream (server_new [''c'' \<mapsto> ''pw''] (0, ()))"
  let ?reads = "[ReadFrame (ClientHandshake 3 3), ReadFrame (Authentication ''c'' ''pw'' (V4 1)), ReadFrame Quit]"
  have s: "connections ?s ! 0 = \<lparr>conn_number = 0, conn_phase = Accepted, conn_out = []\<rparr>" "0 < length (connections ?s)"
    "registered ?s = [''c'' \<mapsto> ''pw'']" "handlers ?s = (0, ())" "history ?s = []"
    by (simp_all add: accept_stream_def server_new_def)
  have auth: "authenticate demo_env [''c'' \<mapsto> ''pw''] 100 ?reads [] =
      (AuthOk ''c'' (V4 1) 3, [ReadFrame Quit], [OutServerHandshake 3, OutAuthenticationAccepted])"
    by (simp add: authenticate_def auth_read_def read_message_def demo_env_def write_output_def auth_write_def)
  have stream: "fst (handle_stream demo_env [''c'' \<mapsto> ''pw''] 100 True 0 ?reads (0, ())) =
      [ClientConnect ''c'' 0 (V4 1), ClientDisconnect ''c'' 0]"
    by (simp add: handle_stream_def auth read_message_def) (simp add: demo_env_def)
  show ?thesis
    using stream_is_a_run [OF s(2,1), where env = demo_env and mpl = 100 and reads = ?reads] stream
    by (auto simp: s auth case_prod_beta)
qed

theorem interleaved_sessions_witness:
  "session_wf 0 (Serving ''c'') (session 0
     (authenticate_stream demo_env 100 0 [ReadFrame (ClientHandshake 3 3), ReadFrame (Authentication ''c'' ''pw'' (V4 1))]
        (accept_stream (accept_stream (server_new [''c'' \<mapsto> ''pw''] (0, ()))))))"
proof -
  let ?s1 = "accept_stream (accept_stream (server_new [''c'' \<mapsto> ''pw''] (0, ())))"
  let ?reads = "[ReadFrame (ClientHandshake 3 3), ReadFrame (Authentication ''c'' ''pw'' (V4 1))]"
  let ?s = "authenticate_stream demo_env 100 0 ?reads ?s1"
  have s1: "connections ?s1 = [\<lparr>conn_number = 0, conn_phase = Accepted, conn_out = []\<rparr>,
      \<lparr>conn_number = 1, conn_phase = Accepted, conn_out = []\<rparr>]" "registered ?s1 = [''c'' \<mapsto> ''pw'']"
    by (simp_all add: accept_stream_def server_new_def)
  have auth: "authenticate demo_env [''c'' \<mapsto> ''pw''] 100 ?reads [] =
      (AuthOk ''c'' (V4 1) 3, [], [OutServerHandshake 3, OutAuthenticationAccepted])"
    by (simp add: authenticate_def auth_read_def read_message_def demo_env_def write_output_def auth_write_def)
  have "server_step demo_env 100 ?s1 ?s" by (rule server_step.auth) (simp_all add: s1 auth)
  then have run: "server_run demo_env 100 (server_new [''c'' \<mapsto> ''pw''] (0, ())) ?s"
    by (meson rtranclp.rtrancl_into_rtrancl rtranclp.rtrancl_refl server_step.accept)
  have conns: "connections ?s = [\<lparr>conn_number = 0, conn_phase = Serving ''c'', conn_out = [OutServerHandshake 3, OutAuthenticationAccepted]\<rparr>,
      \<lparr>conn_number = 1, conn_phase = Accepted, conn_out = []\<rparr>]"
    by (simp add: authenticate_stream_def s1 auth Let_def)
  show ?thesis
    using interleaved_sessions [OF run] by (simp add: conns)
qed

end
