(* ===== verification/Simple_Example.thy ===== *)
theory Simple_Example
  imports Engine_Run Evaluators Network
begin

text \<open>
  The application of \<open>src/examples/simple\<close>: its repositories, its achievement, the wiring of \<open>main.rs\<close> through the
  builders, and its event loop that persists awards. The NFC UID of its player is parsed by the protocol
  crate and is an argument, as are MD5 and the file system.
\<close>

section \<open>Repositories\<close>

definition example_load_all :: "'n \<Rightarrow> 'n example_player list" where
  "example_load_all tag =
     [\<lparr>example_id = 0x5e9e052cc27649f68f4d1e05af0040be, example_nfc_uid = tag, example_total_bloops = 0,
       example_awarded_achievements = Map.empty\<rparr>]"

definition example_load_recent :: "('n example_player, 'n) players \<Rightarrow> duration \<Rightarrow> bloop list" where
  "example_load_recent players retention = []"

definition example_persist_batch :: "(unit, 'e) persist_batch" where
  "example_persist_batch batch r = (Inr (), r)"

section \<open>The event loop that persists awards\<close>

text \<open>Persisting is left to the application, so the loop has no state of its own.\<close>

fun persister_recv :: "recv_result \<Rightarrow> bool" where
  "persister_recv (Inr (AchievementsAwarded batch)) = True"
| "persister_recv (Inr e) = True"
| "persister_recv (Inl (Lagged n)) = True"
| "persister_recv (Inl Closed) = False"

fun persister_step :: "unit select_branch \<Rightarrow> unit \<Rightarrow> unit \<times> bool" where
  "persister_step (Other _) s = (s, True)"
| "persister_step (Recv result) s = (s, persister_recv result)"

definition persister_process_events :: "recv_result list \<Rightarrow> unit \<times> bool" where
  "persister_process_events results = event_loop persister_step (map Recv results) ()"

interpretation persister: event_consumer persister_step
proof (unfold_locales, goal_cases)
  case (1 i s)
  show ?case
  proof (cases i)
    case (Recv r)
    then show ?thesis by (cases r rule: persister_recv.cases) simp_all
  qed simp
qed simp

section \<open>Wiring\<close>

definition example_retention :: duration where
  "example_retention = from_secs (60 * 30)"

definition example_achievement_id :: uuid where
  "example_achievement_id = 0x565fd1d0d9734870b9db9574fa6d81d2"

definition example_achievement :: "builder_error + (unit, 'n example_player, unit, 'n, unit) achievement" where
  "example_achievement =
     achievement_build
       (achievement_builder_evaluator id (min_bloops_evaluate example_player_ops (min_bloops_new 1))
         (achievement_builder_id example_achievement_id
           (achievement_builder_new :: (unit, 'n example_player, unit, 'n, unit) achievement_builder)))"

definition example_engine ::
  "(u8 list \<Rightarrow> data_hash) \<Rightarrow> (path \<Rightarrow> u8 list option) \<Rightarrow> 'n \<Rightarrow>
   builder_error + (unit, 'n example_player, unit, 'n, unit) engine" where
  "example_engine md5 fs tag =
     try_bind example_achievement (\<lambda>ach.
       let player_registry = registry_new example_player_ops (example_load_all tag) [];
           bloops = example_load_recent player_registry example_retention
       in engine_build md5 fs ()
         (engine_builder_event_tx []
         (engine_builder_network_rx ()
         (engine_builder_audio_base_path ''./audio''
         (engine_builder_bloop_retention (from_secs (60 * 30))
         (engine_builder_bloops bloops
         (engine_builder_achievements [ach]
         (engine_builder_player_registry player_registry engine_builder_new))))))))"

definition example_clients :: "client_id \<rightharpoonup> string" where
  "example_clients =
     [''test'' \<mapsto> ''$argon2id$v=19$m=16,t=2,p=1$NEZFVERXYlFGVFA2SW1CVQ$9YXEyfXaMMr8XmP6D3x2pg'']"

definition example_listener ::
  "(string \<Rightarrow> 'a option) \<Rightarrow> (path \<Rightarrow> 'pe + 'certs) \<Rightarrow> (path \<Rightarrow> 'pe + 'key) \<Rightarrow> ('certs \<Rightarrow> 'key \<Rightarrow> 'te + 'tls) \<Rightarrow>
   ('pe, 'te) net_builder_error + ('a, 'tls, client_id \<rightharpoonup> string, unit, unit, unit) network_listener" where
  "example_listener parse_addr read_certs read_key tls_config =
     net_build parse_addr read_certs read_key tls_config
       (net_builder_engine_tx () (net_builder_event_tx () (net_builder_clients example_clients
       (net_builder_key_path ''examples/key.pem'' (net_builder_cert_path ''examples/cert.pem''
       (net_builder_address ''[::]:4500'' net_builder_new))))))"

definition example_sink :: "builder_error + unit processed_bloop_sink" where
  "example_sink =
     sink_build
       (sink_builder_event_rx () (sink_builder_max_batch_duration (from_secs 60)
       (sink_builder_max_batch_size 500 (sink_builder_repository () sink_builder_new))))"

section \<open>What the example does\<close>

lemmas example_defs =
  example_engine_def example_achievement_def achievement_build_def achievement_builder_evaluator_def
  achievement_builder_id_def achievement_builder_new_def engine_build_def engine_builder_new_def
  engine_builder_event_tx_def engine_builder_network_rx_def engine_builder_audio_base_path_def
  engine_builder_bloop_retention_def engine_builder_bloops_def engine_builder_achievements_def
  engine_builder_player_registry_def example_load_recent_def audio_source_from_def calculate_manifest_hash_def
  resolve_source_def audio_resolve_def

lemma into_dyn_evaluator_id [simp]: "into_dyn_evaluator id ev = ev"
  by (rule ext) (simp add: into_dyn_evaluator_def split: prod.split)

lemma distinct_singleton_list: "set xs = {x} \<Longrightarrow> distinct xs \<Longrightarrow> xs = [x]"
  by (cases xs) (auto simp: subset_singleton_iff)

lemma example_selectors [simp]:
  "player_uuid example_player_ops = example_id" "nfc_uid example_player_ops = example_nfc_uid"
  "total_bloops example_player_ops = example_total_bloops"
  "awarded_achievements example_player_ops = example_awarded_achievements"
  "increment_bloops example_player_ops p = p\<lparr>example_total_bloops := example_total_bloops p + 1\<rparr>"
  by (simp_all add: example_player_ops_def)

lemma registry_new_wf: "registry_wf example_player_ops (registry_new example_player_ops (example_load_all tag) [])"
  unfolding registry_new_def example_load_all_def fold_simps
  by (rule registry_wf_add [OF registry_wf_empty]) (simp_all add: empty_registry_def)

lemma example_engine_eq:
  "\<exists>e. example_engine md5 fs tag = Inr e \<and>
     player_registry e = registry_new example_player_ops (example_load_all tag) [] \<and>
     throttle e = None \<and> hot_achievements e = [] \<and> event_tx e = [] \<and>
     trigger_registry e = trigger_registry_new Map.empty \<and>
     (\<exists>ach. achievements e = [(example_achievement_id, ach)] \<and> achievement_id ach = example_achievement_id \<and>
        evaluator ach = min_bloops_evaluate example_player_ops (min_bloops_new 1) \<and>
        hot_duration ach = None \<and> audio_hash_of md5 fs (audio_base_path e) ach = None)"
  by (simp add: example_defs audio_hash_of_def comp_def Let_def)

text \<open>The simple example works from end to end. Its builders succeed, the engine satisfies the invariant and
  answers every request; the first scan of its player's tag at any client, whenever it happens, is answered with the
  example's achievement, and the player then has one bloop and this award with the time of the bloop. A
  scan of any other tag is answered with the error for an unknown tag and changes nothing.\<close>

theorem example_first_bloop_awards:
  "\<exists>e. example_engine md5 fs tag = Inr e \<and> engine_wf example_player_ops e \<and> awards_by_result e \<and>
     (let (response, e') = handle_bloop md5 fs example_player_ops clk tag cid e
      in response = Some (BloopAccepted [\<lparr>record_id = example_achievement_id, audio_hash = None\<rparr>]) \<and>
         (\<exists>p. read_by_id (player_registry e') 0x5e9e052cc27649f68f4d1e05af0040be = Some p \<and> example_total_bloops p = 1 \<and>
            example_awarded_achievements p = [example_achievement_id \<mapsto> now_bloop clk])) \<and>
     (\<forall>tag'. tag' \<noteq> tag \<longrightarrow>
        handle_bloop md5 fs example_player_ops clk tag' cid e = (Some (ErrorMessage UnknownNfcUid), e))"
proof -
  obtain e ach where e: "example_engine md5 fs tag = Inr e"
    "player_registry e = registry_new example_player_ops (example_load_all tag) []"
    "throttle e = None" "hot_achievements e = []" "event_tx e = []" "trigger_registry e = trigger_registry_new Map.empty"
    "achievements e = [(example_achievement_id, ach)]" "achievement_id ach = example_achievement_id"
    "evaluator ach = min_bloops_evaluate example_player_ops (min_bloops_new 1)"
    "hot_duration ach = None" "audio_hash_of md5 fs (audio_base_path e) ach = None"
    using example_engine_eq [of md5 fs tag] by blast
  have reg: "player_registry e = (example_load_all tag, \<lparr>by_id = [0x5e9e052cc27649f68f4d1e05af0040be \<mapsto> 0],
      by_nfc_uid = [tag \<mapsto> 0]\<rparr>)"
    by (simp add: e(2) registry_new_def registry_add_def example_load_all_def empty_registry_def alloc_def)
  have adm: "admitted example_player_ops clk tag cid e 0"
    by (simp add: admitted_def e(3,6) trigger_registry_new_def get_by_nfc_uid_def reg)
  have wf: "engine_wf example_player_ops e"
    using min_bloops.evaluator_api_axioms by (simp add: engine_wf_def e(4,7,8,9) e(2) registry_new_wf)
  have result: "awards_by_result e"
    using min_bloops.result_evaluator_axioms by (simp add: awards_by_result_def e(7,9))
  let ?b = "the_bloop example_player_ops clk 0 cid e" and ?e1 = "counted example_player_ops 0 e"
  let ?tr = "final_tracker example_player_ops ?b ?e1"
  note adm' = admittedD [OF example.player_traits_axioms wf adm]
  have pid: "player_id ?b = 0x5e9e052cc27649f68f4d1e05af0040be"
    using adm'(2) by (simp add: reg example_load_all_def)
  have "awards (evaluated example_player_ops ?b ?e1) (player_id ?b) = {example_achievement_id}"
    by (simp add: evaluated_def evaluation_context_def e(7-9) reg example_load_all_def count_bloop_def
        achievement_evaluate_def min_bloops_evaluate_def min_bloops_new_def context_new_def award_achievement_def
        tracker_new_def Let_def awards_def for_player_def tracker_add_def eval_result_from_bool_def pid)
  then have cand: "candidate_awards example_player_ops ?b ?e1 (player_id ?b) = {example_achievement_id}"
    by (simp add: candidate_awards_def hot_after_def e(4,7,10) newly_hot_def hot_ids_def)
  have "awards ?tr (player_id ?b) = {example_achievement_id}"
    using final_tracker_facts(3) [OF adm'(1), of ?b "player_id ?b"] adm'(3) cand
    by (simp add: reg example_load_all_def)
  moreover have "distinct (tracked ?tr (player_id ?b))"
    by (rule tracker_wf_tracked [OF final_tracker_facts(1) [OF adm'(1)]])
  ultimately have tracked: "tracked ?tr (player_id ?b) = [example_achievement_id]"
    using set_tracked [of ?tr "player_id ?b"] distinct_singleton_list by metis
  have "fst (accept_bloop md5 fs example_player_ops clk 0 cid e) =
      Some (BloopAccepted [\<lparr>record_id = example_achievement_id, audio_hash = None\<rparr>])"
    using accept_bloop_response [OF adm'(1)] tracked \<open>awards ?tr (player_id ?b) = {example_achievement_id}\<close> e(7,11) by simp
  moreover have "\<exists>q. read_by_id (player_registry (snd (accept_bloop md5 fs example_player_ops clk 0 cid e)))
      (player_id ?b) = Some q \<and> player_after example_player_ops ?b {example_achievement_id} (player_id ?b)
      (example_load_all tag ! 0) q"
    using accept_bloop_registry(3) [OF example.player_traits_axioms wf adm adm'(4), of md5 fs] cand by (simp add: reg)
  then have "\<exists>q. read_by_id (player_registry (snd (accept_bloop md5 fs example_player_ops clk 0 cid e)))
      0x5e9e052cc27649f68f4d1e05af0040be = Some q \<and> example_total_bloops q = 1 \<and>
      example_awarded_achievements q = [example_achievement_id \<mapsto> now_bloop clk]"
    by (auto simp: pid player_after_def example_load_all_def fun_eq_iff)
  moreover have "handle_bloop md5 fs example_player_ops clk tag' cid e = (Some (ErrorMessage UnknownNfcUid), e)"
    if "tag' \<noteq> tag" for tag'
    using that by (simp add: handle_bloop_def try_activate_trigger_def e(6) trigger_registry_new_def get_by_nfc_uid_def reg)
  ultimately show ?thesis
    using e(1) wf result handle_bloop_admitted [OF adm, of md5 fs]
    by (intro exI [of _ e]) (simp add: Let_def case_prod_beta)
qed

theorem example_first_bloop_awards_witness:
  "\<exists>e. example_engine demo_md5 demo_fs (1::nat) = Inr e \<and>
     fst (handle_bloop demo_md5 demo_fs example_player_ops (demo_clock 5) 2 ''c'' e) = Some (ErrorMessage UnknownNfcUid)"
  using example_first_bloop_awards [where ?md5.0 = demo_md5 and fs = demo_fs and tag = "1::nat" and clk = "demo_clock 5" and
      cid = "''c''"]
  by (auto dest!: spec [of _ "2::nat"])

end
