(* ===== verification/Subsystems.thy ===== *)
theory Subsystems
  imports Engine_Interference Engine_Run Bloop_Sink Statistics Health_Monitor Server Simple_Example
begin

text \<open>
  The parts as subsystems of a process that can be shut down: the \<open>IntoSubsystem::run\<close> of the engine, the
  network listener, the bloop sink, the statistics server, the health monitor and the example's
  persister. Each runs its loop under \<open>cancel_on_shutdown\<close> of the tokio-graceful-shutdown crate, which
  drops the loop at an \<open>await\<close> when a shutdown is initiated. A run is given the inputs that arrive; its
  result is \<open>None\<close> while it goes on, and the value \<open>run\<close> returns once it has ended.

  A shutdown can meet the engine inside \<open>handle_bloop\<close>, at one of the locks it waits for;
  \<open>accept_bloop_cancelled\<close> is what is left of the bloop then.
\<close>

section \<open>Cancellation\<close>

text \<open>The output of a future that has ended, \<open>Inr\<close>, or the cancellation, \<open>Inl\<close>.\<close>

definition cancel_on_shutdown :: "bool \<Rightarrow> 'a option \<Rightarrow> (unit + 'a) option" where
  "cancel_on_shutdown shutdown future =
     (case future of Some x \<Rightarrow> Some (Inr x) | None \<Rightarrow> if shutdown then Some (Inl ()) else None)"

text \<open>A subsystem whose \<open>run\<close> ignores how its loop came to an end, and returns \<open>Ok(())\<close>.\<close>

definition run_loop :: "bool \<Rightarrow> 's \<times> bool \<Rightarrow> ('e + unit) option \<times> 's" where
  "run_loop shutdown loop =
     (let (s, waiting) = loop
      in (map_option (\<lambda>_. Inr ()) (cancel_on_shutdown shutdown (if waiting then None else Some ())), s))"








section \<open>A bloop that is cut off\<close>

text \<open>The locks \<open>handle_bloop\<close> waits for once it has counted the bloop.\<close>

datatype await_point = AwaitState | AwaitDuplicates | AwaitApply

definition accept_bloop_cancelled ::
  "await_point \<Rightarrow> ('p, 'n) player_ops \<Rightarrow> clock \<Rightarrow> addr \<Rightarrow> client_id \<Rightarrow>
   ('m, 'p, 's, 'n, 't) engine \<Rightarrow> server_message option \<times> ('m, 'p, 's, 'n, 't) engine" where
  "accept_bloop_cancelled point ops clk a cid e =
     (let (store, registry) = player_registry e;
          store = store[a := increment_bloops ops (store ! a)];
          e = e\<lparr>player_registry := (store, registry)\<rparr>;
          b = bloop_new ops store a cid (now_bloop clk)
      in case point of
           AwaitState \<Rightarrow> (None, e)
         | _ \<Rightarrow>
             (let (tr, e) = evaluate_achievements ops b e;
                  e = activate_hot_achievements b tr e;
                  (tr, e) = inject_hot_achievements b tr e
              in (None, e)))"

section \<open>Properties\<close>

lemma cancel_on_shutdown_None [simp]:
  "cancel_on_shutdown shutdown x = None \<longleftrightarrow> x = None \<and> \<not> shutdown"
  by (simp add: cancel_on_shutdown_def split: option.split)

context event_consumer
begin

lemma run_loop_ends:
  "fst (run_loop shutdown (event_loop step is s)) =
     (if shutdown \<or> Recv (Inl Closed) \<in> set is then Some (Inr ()) else None)"
  "snd (run_loop shutdown (event_loop step is s)) = fold effect (before_close is) s"
  by (auto simp: run_loop_def loop_eq cancel_on_shutdown_def)

end



text \<open>C19: A shutdown can tear a bloop apart. When it meets the engine while it waits for the application's state
  or for the registry, the player's counter, which the application keeps, has grown by one, but
  neither the history nor the event channel has the bloop, the player has no new award, and the
  client gets no answer.\<close>

theorem cancelled_bloop_is_counted_but_lost:
  assumes "player_traits ops" "engine_wf ops e" "admitted ops clk nfc cid e a"
  shows "(let (r, e') = accept_bloop_cancelled point ops clk a cid e; p = fst (player_registry e) ! a
          in r = None \<and> event_tx e' = event_tx e \<and> bloop_provider e' = bloop_provider e \<and>
             read_by_id (player_registry e') =
               (read_by_id (player_registry e))(player_uuid ops p \<mapsto> increment_bloops ops p) \<and>
             total_bloops ops (increment_bloops ops p) = total_bloops ops p + 1 \<and>
             awarded_achievements ops (increment_bloops ops p) = awarded_achievements ops p)"
proof -
  note adm = admittedD [OF assms]
  obtain r e' where c: "accept_bloop_cancelled point ops clk a cid e = (r, e')" by fastforce
  then have e': "r = None" "event_tx e' = event_tx e" "bloop_provider e' = bloop_provider e"
    "player_registry e' = count_bloop ops a (player_registry e)"
    by (cases point; auto simp: accept_bloop_cancelled_def count_bloop_def evaluate_achievements_eq
        activate_hot_achievements_eq inject_hot_achievements_eq Let_def split: prod.splits)+
  with adm(2,3) show ?thesis
    by (simp add: c Let_def player_traits.trait_simps [OF assms(1)])
qed

theorem cancelled_bloop_is_counted_but_lost_witness:
  "\<exists>q. read_by_id (player_registry (snd (accept_bloop_cancelled AwaitState mock_player_ops (demo_clock 50) 0 ''c''
      (demo_engine [demo_award_self])))) 1 = Some q \<and> bloops_count q = 1"
proof -
  have "fst (player_registry (demo_engine [demo_award_self])) ! 0 = demo_player 1 10"
    by (simp add: demo_engine_def demo_players_eval)
  with cancelled_bloop_is_counted_but_lost [OF mock.player_traits_axioms demo_engine_wf demo_admitted, of AwaitState]
  show ?thesis
    by (simp add: case_prod_beta Let_def mock_selectors)
qed

text \<open>C40: The monitor's comparison of connection IDs can take a connected client offline. IDs are handed out when a
  stream is accepted, so a stream accepted first may authenticate last. For every environment in which
  a client can authenticate and a read can fail there is a run of the server in which the client's
  second stream authenticates and is lost, then its first stream authenticates and is being served;
  the monitor that receives these events takes the client offline once the grace period has
  passed, although the client is connected.\<close>

theorem late_authentication_is_taken_offline:
  assumes "authenticate env clients mpl reads [] = (AuthOk cid ip v, [], out)"
    and "handle_connection env cid mpl [bad] st out = (Some (Inl err), st', out')"
    and "hm_max_client_events m \<ge> 2" "hm_offline_grace_period m \<le> d"
  shows "\<exists>s. server_run env mpl (server_new clients st) s \<and>
    conn_number (connections s ! 0) = 0 \<and> conn_phase (connections s ! 0) = Serving cid \<and>
    broadcasts (history s) = [ClientConnect cid 1 ip, ClientConnectionLoss cid 1, ClientConnect cid 0 ip] \<and>
    health_of (fst (event_loop (health_step send)
      (map (Recv \<circ> Inr) (broadcasts (history s)) @ [Other (Elapse d), Other CheckTick]) m)) cid = Offline"
proof -
  let ?s0 = "accept_stream (accept_stream (server_new clients st))"
  let ?s1 = "authenticate_stream env mpl (Suc 0) reads ?s0"
  let ?s2 = "serve_stream env mpl (Suc 0) cid bad ?s1"
  define s2 where "s2 = ?s2"
  let ?s3 = "authenticate_stream env mpl 0 reads s2"
  have s0: "connections ?s0 = [\<lparr>conn_number = 0, conn_phase = Accepted, conn_out = []\<rparr>,
      \<lparr>conn_number = 1, conn_phase = Accepted, conn_out = []\<rparr>]"
    "registered ?s0 = clients" "history ?s0 = []" "handlers ?s0 = st"
    by (simp_all add: accept_stream_def server_new_def)
  have s1: "connections ?s1 = [\<lparr>conn_number = 0, conn_phase = Accepted, conn_out = []\<rparr>,
      \<lparr>conn_number = 1, conn_phase = Serving cid, conn_out = out\<rparr>]"
    "registered ?s1 = clients" "broadcasts (history ?s1) = [ClientConnect cid 1 ip]" "handlers ?s1 = st"
    by (simp_all add: authenticate_stream_def s0 assms(1))
  have s2: "connections s2 ! 0 = \<lparr>conn_number = 0, conn_phase = Accepted, conn_out = []\<rparr>"
    "length (connections s2) = 2" "registered s2 = clients"
    "broadcasts (history s2) = [ClientConnect cid 1 ip, ClientConnectionLoss cid 1]"
    by (simp_all add: s2_def serve_stream_def Let_def s1 assms(2) del: map_concat)
  have s3: "conn_number (connections ?s3 ! 0) = 0" "conn_phase (connections ?s3 ! 0) = Serving cid"
    "broadcasts (history ?s3) = [ClientConnect cid 1 ip, ClientConnectionLoss cid 1, ClientConnect cid 0 ip]"
    by (simp_all add: authenticate_stream_def Let_def s2 assms(1))
  have "server_step env mpl ?s0 ?s1" by (rule server_step.auth) (simp_all add: s0 assms(1))
  moreover have "server_step env mpl ?s1 s2" unfolding s2_def by (rule server_step.serve) (simp_all add: s1)
  moreover have "server_step env mpl s2 ?s3" by (rule server_step.auth) (simp_all add: s2 assms(1))
  ultimately have "server_run env mpl (server_new clients st) ?s3"
    by (meson rtranclp.rtrancl_into_rtrancl rtranclp.rtrancl_refl server_step.accept)
  moreover have "health_of (fst (event_loop (health_step send)
      (map (Recv \<circ> Inr) (broadcasts (history ?s3)) @ [Other (Elapse d), Other CheckTick]) m)) cid = Offline"
    using late_connection_offline [OF assms(3,4), of 0 1 send cid ip ip] by (simp add: s3 del: event_loop.simps)
  ultimately show ?thesis using s3 by blast
qed

theorem late_authentication_is_taken_offline_witness:
  "\<exists>s. server_run demo_env 100 (server_new [''c'' \<mapsto> ''pw''] (0, ())) s \<and>
     conn_phase (connections s ! 0) = Serving ''c'' \<and>
     health_of (fst (event_loop (health_step demo_send)
       (map (Recv \<circ> Inr) (broadcasts (history s)) @ [Other (Elapse (from_secs 600)), Other CheckTick]) demo_monitor)) ''c'' = Offline"
proof -
  have auth: "authenticate demo_env [''c'' \<mapsto> ''pw''] 100
      [ReadFrame (ClientHandshake 3 3), ReadFrame (Authentication ''c'' ''pw'' (V4 1))] [] =
      (AuthOk ''c'' (V4 1) 3, [], [OutServerHandshake 3, OutAuthenticationAccepted])"
    by (simp add: authenticate_def auth_read_def read_message_def demo_env_def write_output_def auth_write_def)
  have bad: "handle_connection demo_env ''c'' 100 [ReadFrame (ClientHandshake 3 3)] (0, ())
      [OutServerHandshake 3, OutAuthenticationAccepted] =
      (Some (Inl (UnexpectedMessageErr (ClientHandshake 3 3))), (0, ()), [OutServerHandshake 3, OutAuthenticationAccepted])"
    by (simp add: demo_env_def read_message_def)
  have "hm_max_client_events demo_monitor \<ge> 2" "hm_offline_grace_period demo_monitor \<le> from_secs 600"
    by (simp_all add: demo_health)
  from late_authentication_is_taken_offline [OF auth bad this, of demo_send] show ?thesis by blast
qed

end
