(* ===== verification/Throttling.thy ===== *)
theory Throttling
  imports Engine_Run
begin

text \<open>
  What the throttle of \<open>engine.rs\<close> promises over a run of the engine. \<open>Engine::handle_bloop\<close> looks at the client's last
  bloops in the history, from which old ones are pruned; the promise is about all bloops the engine has
  accepted, as its events report them. The invariant \<open>throttle_inv\<close> relates the two: the history is the newer part
  of the log, and what was pruned is too old to matter for the throttle.
\<close>

section \<open>Spaced bloops\<close>

text \<open>In a log, newest first: any \<open>n + 1\<close> bloops in a row by one player take more than \<open>d\<close>.\<close>

definition spaced :: "nat \<Rightarrow> duration \<Rightarrow> processed_bloop list \<Rightarrow> bool" where
  "spaced n d log \<longleftrightarrow>
     (\<forall>k. k + n < length log \<and> (\<forall>j \<le> n. pb_player_id (log ! (k + j)) = pb_player_id (log ! k)) \<longrightarrow>
        pb_recorded_at (log ! k) - pb_recorded_at (log ! (k + n)) > int d)"

lemma spaced_Nil [simp]: "spaced n d []"
  by (simp add: spaced_def)

lemma spaced_ConsI:
  assumes "spaced n d log"
    and "n < length (b # log) \<Longrightarrow> \<forall>j \<le> n. pb_player_id ((b # log) ! j) = pb_player_id b \<Longrightarrow>
      pb_recorded_at b - pb_recorded_at ((b # log) ! n) > int d"
  shows "spaced n d (b # log)"
  unfolding spaced_def
proof (intro allI impI)
  fix k
  assume k: "k + n < length (b # log) \<and>
    (\<forall>j\<le>n. pb_player_id ((b # log) ! (k + j)) = pb_player_id ((b # log) ! k))"
  show "int d < pb_recorded_at ((b # log) ! k) - pb_recorded_at ((b # log) ! (k + n))"
  proof (cases k)
    case 0
    with k assms(2) show ?thesis by simp
  next
    case (Suc m)
    with k assms(1) show ?thesis by (simp add: spaced_def)
  qed
qed

text \<open>The same in the order of time.\<close>

lemma spaced_rev:
  assumes "spaced n d log" "k + n < length log"
    and "\<forall>j \<le> n. pb_player_id (rev log ! (k + j)) = pb_player_id (rev log ! k)"
  shows "pb_recorded_at (rev log ! (k + n)) - pb_recorded_at (rev log ! k) > int d"
proof -
  let ?m = "length log - Suc (k + n)"
  have at: "rev log ! (k + i) = log ! (?m + (n - i))" if "i \<le> n" for i
    using that assms(2) by (simp add: rev_nth)
  have "pb_player_id (log ! (?m + j)) = pb_player_id (log ! ?m)" if "j \<le> n" for j
    using assms(3) [rule_format, of "n - j"] assms(3) [rule_format, of n] at [of "n - j"] at [of n] that by simp
  moreover have "?m + n < length log" using assms(2) by simp
  ultimately have "pb_recorded_at (log ! ?m) - pb_recorded_at (log ! (?m + n)) > int d"
    using assms(1) unfolding spaced_def by blast
  then show ?thesis using at [of n] at [of 0] by simp
qed

section \<open>One bloop that is not throttled\<close>

abbreviation pb_newest_first :: "processed_bloop list \<Rightarrow> bool" where
  "pb_newest_first \<equiv> sorted_wrt (\<lambda>x y. pb_recorded_at x \<ge> pb_recorded_at y)"

text \<open>The history is the part of the log since some instant that is too early to be of interest.\<close>

lemma unthrottled_is_spaced:
  assumes log: "log = map processed_bloop_from hist @ dropped" "pb_newest_first log"
    and dropped: "\<And>x. x \<in> set dropped \<Longrightarrow> pb_recorded_at x < now_th - int (threshold th)"
    and pass: "\<not> is_throttled th now_th hist (player_id b)"
    and time: "now_th \<le> recorded_at b"
    and sp: "spaced (max_bloops th) (threshold th) log"
  shows "spaced (max_bloops th) (threshold th) (processed_bloop_from b # log)"
proof (rule spaced_ConsI [OF sp], rule ccontr)
  let ?n = "max_bloops th" and ?since = "now_th - int (threshold th)"
  assume len: "?n < length (processed_bloop_from b # log)"
    and same: "\<forall>j\<le>?n. pb_player_id ((processed_bloop_from b # log) ! j) = pb_player_id (processed_bloop_from b)"
    and near: "\<not> int (threshold th) <
      pb_recorded_at (processed_bloop_from b) - pb_recorded_at ((processed_bloop_from b # log) ! ?n)"
  have recent: "?since \<le> pb_recorded_at (log ! i)" if "i < ?n" for i
  proof -
    from that obtain m where m: "?n = Suc m" "i \<le> m" by (cases ?n) auto
    have "pb_recorded_at (log ! m) \<le> pb_recorded_at (log ! i)"
      using log(2) len m by (cases "i = m") (auto simp: sorted_wrt_iff_nth_less)
    moreover have "?since \<le> pb_recorded_at (log ! m)"
      using near time m by (simp add: processed_bloop_from_def)
    ultimately show ?thesis by linarith
  qed
  have inside: "?n \<le> length hist"
  proof (rule ccontr)
    assume "\<not> ?n \<le> length hist"
    then have "length hist < ?n" by simp
    moreover from this have "log ! length hist \<in> set dropped"
      using len log(1) by (cases dropped) (auto simp: nth_append)
    ultimately show False using recent [of "length hist"] dropped [of "log ! length hist"] by linarith
  qed
  have at: "log ! i = processed_bloop_from (hist ! i)" if "i < ?n" for i
    using that inside log(1) by (simp add: nth_append)
  have since: "recorded_at x \<ge> ?since \<and> player_id x = player_id b" if "x \<in> set (take ?n hist)" for x
  proof -
    from that obtain i where i: "i < ?n" "x = hist ! i" by (auto simp: in_set_conv_nth)
    then show ?thesis
      using recent [of i] at [of i] same [rule_format, of "Suc i"] by (simp add: processed_bloop_from_def)
  qed
  have "take ?n (filter (bloops_since ?since) hist) = take ?n hist"
  proof -
    have "filter (bloops_since ?since) (take ?n hist) = take ?n hist"
      using since by (auto simp: filter_id_conv bloops_since_def)
    then have "filter (bloops_since ?since) hist = take ?n hist @ filter (bloops_since ?since) (drop ?n hist)"
      by (metis append_take_drop_id filter_append)
    then show ?thesis using inside by simp
  qed
  with since inside have "is_throttled th now_th hist (player_id b)"
    by (simp add: is_throttled_def list_all_iff)
  with pass show False ..
qed

section \<open>The invariant\<close>

text \<open>The collection a client's next bloop is added to.\<close>

definition client_collection :: "bloop_provider \<Rightarrow> client_id \<Rightarrow> bloop_collection" where
  "client_collection p cid = (case per_client p cid of None \<Rightarrow> collection_new (max_age p) | Some c \<Rightarrow> c)"

definition throttle_inv ::
  "throttle \<Rightarrow> client_id \<Rightarrow> datetime \<Rightarrow> processed_bloop list \<Rightarrow> ('m, 'p, 's, 'n, 't) engine \<Rightarrow> bool" where
  "throttle_inv th cid t log e \<longleftrightarrow>
     throttle e = Some th \<and> threshold th \<le> max_age (bloop_provider e) \<and>
     bloops (empty_collection (bloop_provider e)) = [] \<and>
     collection_max_age (client_collection (bloop_provider e) cid) = max_age (bloop_provider e) \<and>
     (\<exists>dropped. log = map processed_bloop_from (bloops (client_collection (bloop_provider e) cid)) @ dropped \<and>
        (\<forall>x \<in> set dropped. pb_recorded_at x < t - int (max_age (bloop_provider e)))) \<and>
     pb_newest_first log \<and> (\<forall>x \<in> set log. pb_recorded_at x \<le> t) \<and>
     spaced (max_bloops th) (threshold th) log"

lemma for_client_collection:
  assumes "bloops (empty_collection p) = []"
  shows "bloops (for_client p cid) = bloops (client_collection p cid)"
  using assms by (simp add: for_client_def client_collection_def split: option.split)

lemma client_collection_add:
  "client_collection (provider_add ng nc b p) cid =
     (if cid = client_id b then collection_add nc b (client_collection p cid) else client_collection p cid)"
  by (auto simp: client_collection_def provider_add_def Let_def split: option.split)

lemma newest_first_split:
  "newest_first bs \<Longrightarrow> bs = filter (bloops_since s) bs @ filter (\<lambda>x. \<not> bloops_since s x) bs"
proof (induction bs)
  case (Cons b bs)
  show ?case
  proof (cases "bloops_since s b")
    case True
    with Cons show ?thesis by simp
  next
    case False
    with Cons.prems have "filter (bloops_since s) bs = []"
      by (fastforce simp: filter_empty_conv bloops_since_def)
    with False Cons show ?thesis by simp
  qed
qed simp

text \<open>Adding an accepted bloop to the history and the log.\<close>

lemma throttle_inv_add:
  assumes inv: "throttle_inv th cid t log e"
    and e': "throttle e' = throttle e" "bloop_provider e' = provider_add ng nc b (bloop_provider e)"
    and b: "client_id b = cid" "now_th \<le> recorded_at b" "recorded_at b \<le> nc" "t \<le> now_th"
    and pass: "\<not> is_throttled th now_th (bloops (for_client (bloop_provider e) cid)) (player_id b)"
  shows "throttle_inv th cid nc (processed_bloop_from b # log) e'"
proof -
  let ?p = "bloop_provider e" and ?c = "client_collection (bloop_provider e) cid"
  let ?s = "nc - int (max_age (bloop_provider e))"
  from inv obtain dropped where log: "log = map processed_bloop_from (bloops ?c) @ dropped"
    and old: "\<forall>x \<in> set dropped. pb_recorded_at x < t - int (max_age ?p)"
    unfolding throttle_inv_def by blast
  have facts: "threshold th \<le> max_age ?p" "bloops (empty_collection ?p) = []" "collection_max_age ?c = max_age ?p"
    "pb_newest_first log" "\<forall>x \<in> set log. pb_recorded_at x \<le> t" "spaced (max_bloops th) (threshold th) log"
    using inv by (simp_all add: throttle_inv_def)
  have hist: "newest_first (bloops ?c)"
    using facts(4) unfolding log by (simp add: sorted_wrt_append sorted_wrt_map processed_bloop_from_def)
  have new: "bloops (client_collection (bloop_provider e') cid) = b # filter (bloops_since ?s) (bloops ?c)"
    using b(1) hist by (simp add: e'(2) client_collection_add bloops_collection_add facts(3))
  have sp: "spaced (max_bloops th) (threshold th) (processed_bloop_from b # log)"
  proof (rule unthrottled_is_spaced [OF log facts(4) _ _ b(2) facts(6)])
    show "\<not> is_throttled th now_th (bloops ?c) (player_id b)"
      using pass by (simp add: for_client_collection [OF facts(2)])
    show "pb_recorded_at x < now_th - int (threshold th)" if "x \<in> set dropped" for x
      using old [rule_format, OF that] facts(1) b(4) by linarith
  qed
  let ?dropped = "map processed_bloop_from (filter (\<lambda>x. \<not> bloops_since ?s x) (bloops ?c)) @ dropped"
  have "processed_bloop_from b # log =
      map processed_bloop_from (bloops (client_collection (bloop_provider e') cid)) @ ?dropped"
    unfolding new log by (subst newest_first_split [OF hist, of ?s]) simp
  moreover have "\<forall>x \<in> set ?dropped. pb_recorded_at x < ?s"
    using old b by (fastforce simp: processed_bloop_from_def bloops_since_def)
  moreover have "pb_newest_first (processed_bloop_from b # log)" "\<forall>x \<in> set (processed_bloop_from b # log). pb_recorded_at x \<le> nc"
    using facts(4,5) b by (auto simp: processed_bloop_from_def)
  ultimately show ?thesis
    using sp facts(1-3) inv b(1)
    unfolding throttle_inv_def by (auto simp: e' client_collection_add)
qed

text \<open>Nothing else concerns the client's history, and time may pass.\<close>

lemma throttle_inv_frame:
  assumes "throttle_inv th cid t log e" "t \<le> t'" "throttle e' = throttle e"
    and "max_age (bloop_provider e') = max_age (bloop_provider e)"
    and "empty_collection (bloop_provider e') = empty_collection (bloop_provider e)"
    and "client_collection (bloop_provider e') cid = client_collection (bloop_provider e) cid"
  shows "throttle_inv th cid t' log e'"
  using assms(1,2) unfolding throttle_inv_def assms(3-6) by fastforce

section \<open>Runs\<close>

text \<open>The bloops of a client among the events, in the order of time, and clocks that do not run backwards.\<close>

fun accepted_at :: "client_id \<Rightarrow> event list \<Rightarrow> processed_bloop list" where
  "accepted_at cid [] = []"
| "accepted_at cid (BloopProcessed b # evs) =
     (if pb_client_id b = cid then b # accepted_at cid evs else accepted_at cid evs)"
| "accepted_at cid (_ # evs) = accepted_at cid evs"

lemma accepted_at_append [simp]: "accepted_at cid (evs @ evs') = accepted_at cid evs @ accepted_at cid evs'"
  by (induction cid evs rule: accepted_at.induct) simp_all

fun clocks_in_order :: "datetime \<Rightarrow> 'n request_input list \<Rightarrow> bool" where
  "clocks_in_order t [] \<longleftrightarrow> True"
| "clocks_in_order t (inp # inps) \<longleftrightarrow>
     (let clk = input_clock inp
      in t \<le> now_throttle clk \<and> now_throttle clk \<le> now_bloop clk \<and> now_bloop clk \<le> now_client clk \<and>
         clocks_in_order (now_client clk) inps)"

lemma throttle_inv_bloop:
  fixes md5 fs nfc c
  assumes "player_traits ops" "engine_wf ops e" "throttle_inv th cid t log e"
    and clk: "t \<le> now_throttle clk" "now_throttle clk \<le> now_bloop clk" "now_bloop clk \<le> now_client clk"
  defines "e' \<equiv> snd (handle_bloop md5 fs ops clk nfc c e)"
  shows "\<exists>evs. event_tx e' = event_tx e @ evs \<and>
    throttle_inv th cid (now_client clk) (rev (accepted_at cid evs) @ log) e'"
proof (cases "\<exists>a. admitted ops clk nfc c e a")
  case True
  then obtain a where adm: "admitted ops clk nfc c e a" ..
  let ?b = "the_bloop ops clk a c e"
  have run: "e' = snd (accept_bloop md5 fs ops clk a c e)"
    by (simp add: e'_def handle_bloop_admitted [OF adm])
  define evs where "evs = [AchievementsAwarded (award_batch_from (final_tracker ops ?b (counted ops a e))),
    BloopProcessed (processed_bloop_from ?b)]"
  have e': "event_tx e' = event_tx e @ evs" "throttle e' = throttle e"
    "bloop_provider e' = provider_add (now_global clk) (now_client clk) ?b (bloop_provider e)"
    by (simp_all add: run evs_def accept_bloop_eq Let_def frame_simps)
  have th: "throttle e = Some th" using assms(3) by (simp add: throttle_inv_def)
  have "throttle_inv th cid (now_client clk) (rev (accepted_at cid evs) @ log) e'"
  proof (cases "c = cid")
    case True
    have "\<not> is_throttled th (now_throttle clk) (bloops (for_client (bloop_provider e) cid)) (player_id ?b)"
      using adm th True admittedD(2) [OF assms(1,2) adm] by (simp add: admitted_def)
    from throttle_inv_add [OF assms(3) e'(2,3) _ _ _ clk(1) this] clk True show ?thesis
      by (simp add: evs_def processed_bloop_from_def)
  next
    case False
    then have none: "accepted_at cid evs = []" by (simp add: evs_def processed_bloop_from_def)
    have "client_collection (bloop_provider e') cid = client_collection (bloop_provider e) cid"
      using False by (simp add: e'(3) client_collection_add)
    then show ?thesis
      using throttle_inv_frame [OF assms(3) _ e'(2)] clk by (simp add: none e'(3))
  qed
  with e'(1) show ?thesis by blast
next
  case False
  then obtain r reg where "handle_bloop md5 fs ops clk nfc c e = (Some r, e\<lparr>trigger_registry := reg\<rparr>)"
    using handle_bloop_not_admitted [of ops clk nfc c e md5 fs] by blast
  then have "event_tx e' = event_tx e @ []" "throttle_inv th cid (now_client clk) (rev (accepted_at cid []) @ log) e'"
    using throttle_inv_frame [OF assms(3), of "now_client clk" e'] clk by (simp_all add: e'_def)
  then show ?thesis by blast
qed

lemma throttle_inv_request:
  fixes md5
  assumes "player_traits ops" "engine_wf ops e" "throttle_inv th cid t log e" "clocks_in_order t (inp # inps)"
  defines "e' \<equiv> snd (handle_request md5 ops inp e)"
  shows "\<exists>evs. event_tx e' = event_tx e @ evs \<and>
    throttle_inv th cid (now_client (input_clock inp)) (rev (accepted_at cid evs) @ log) e'"
proof (cases "request inp")
  case (BloopRequest c nfc)
  then show ?thesis
    using throttle_inv_bloop [OF assms(1-3)] assms(4) by (simp add: e'_def Let_def)
next
  case (RetrieveAudio i)
  have "throttle_inv th cid (now_client (input_clock inp)) log e'"
    by (rule throttle_inv_frame [OF assms(3)])
      (use assms(4) RetrieveAudio in \<open>simp_all add: e'_def handle_retrieve_audio_engine Let_def split: option.split\<close>)
  moreover have "event_tx e' = event_tx e"
    using RetrieveAudio by (simp add: e'_def handle_retrieve_audio_engine split: option.split)
  ultimately show ?thesis by (intro exI [of _ "[]"]) simp
next
  case (PreloadCheck h)
  have "throttle_inv th cid (now_client (input_clock inp)) log e'"
    by (rule throttle_inv_frame [OF assms(3)])
      (use assms(4) PreloadCheck in \<open>simp_all add: e'_def handle_preload_check_engine Let_def\<close>)
  moreover have "event_tx e' = event_tx e"
    using PreloadCheck by (simp add: e'_def handle_preload_check_engine)
  ultimately show ?thesis by (intro exI [of _ "[]"]) simp
qed

lemma throttle_inv_run:
  assumes "player_traits ops" "engine_wf ops e" "throttle_inv th cid t log e" "clocks_in_order t inps"
  shows "\<exists>evs t'. event_tx (fst (snd (process_requests md5 ops inps e))) = event_tx e @ evs \<and>
    throttle_inv th cid t' (rev (accepted_at cid evs) @ log) (fst (snd (process_requests md5 ops inps e)))"
  using assms(2-4)
proof (induction inps arbitrary: e t log)
  case Nil
  then show ?case by auto
next
  case (Cons inp inps)
  obtain r e1 where step: "handle_request md5 ops inp e = (r, e1)"
    by (cases "handle_request md5 ops inp e")
  from throttle_inv_request [OF assms(1) Cons.prems, of md5, unfolded step snd_conv] obtain evs where
    1: "event_tx e1 = event_tx e @ evs"
    "throttle_inv th cid (now_client (input_clock inp)) (rev (accepted_at cid evs) @ log) e1"
    by blast
  show ?case
  proof (cases r)
    case None
    with 1 show ?thesis by (auto simp: step simp del: handle_request.simps)
  next
    case (Some msg)
    have "engine_wf ops e1"
      using handle_request_safe [OF assms(1) Cons.prems(1), of md5 inp, unfolded step snd_conv] by blast
    moreover have "clocks_in_order (now_client (input_clock inp)) inps" using Cons.prems(3) by (simp add: Let_def)
    ultimately obtain evs' t' where
      2: "event_tx (fst (snd (process_requests md5 ops inps e1))) = event_tx e1 @ evs'"
      "throttle_inv th cid t' (rev (accepted_at cid evs') @ rev (accepted_at cid evs) @ log)
         (fst (snd (process_requests md5 ops inps e1)))"
      using Cons.IH [OF _ 1(2)] by blast
    have "fst (snd (process_requests md5 ops (inp # inps) e)) = fst (snd (process_requests md5 ops inps e1))"
      by (simp add: step Some del: handle_request.simps split: prod.split)
    with 1(1) 2 show ?thesis by (intro exI [of _ "evs @ evs'"] exI [of _ t']) simp
  qed
qed

section \<open>Properties\<close>

text \<open>C9: The throttle keeps its promise over the whole life of an engine. Of an engine that starts with an empty
  history, with a throttle of \<open>n\<close> bloops per interval that is not longer than the retention of the
  history, and under clocks that do not run backwards: among all bloops ever accepted at a client, as
  the events report them, any \<open>n + 1\<close> in a row by the same player span more than the interval, whatever the
  requests are and although the history the throttle looks at is pruned.\<close>

theorem throttle_limits_streaks:
  assumes "player_traits ops" "engine_wf ops e" "throttle e = Some th"
    and "bloop_provider e = provider_new age" "threshold th \<le> age" "clocks_in_order t inps"
  shows "\<exists>evs. event_tx (fst (snd (process_requests md5 ops inps e))) = event_tx e @ evs \<and>
    (let bs = accepted_at cid evs; n = max_bloops th
     in \<forall>k. k + n < length bs \<and> (\<forall>j \<le> n. pb_player_id (bs ! (k + j)) = pb_player_id (bs ! k)) \<longrightarrow>
          pb_recorded_at (bs ! (k + n)) - pb_recorded_at (bs ! k) > int (threshold th))"
proof -
  have "throttle_inv th cid t [] e"
    using assms(3-5) by (simp add: throttle_inv_def client_collection_def provider_new_def)
  from throttle_inv_run [OF assms(1,2) this assms(6), of md5] obtain evs t' where
    evs: "event_tx (fst (snd (process_requests md5 ops inps e))) = event_tx e @ evs"
    and "throttle_inv th cid t' (rev (accepted_at cid evs)) (fst (snd (process_requests md5 ops inps e)))"
    by auto
  then have "spaced (max_bloops th) (threshold th) (rev (accepted_at cid evs))" by (simp add: throttle_inv_def)
  from spaced_rev [OF this] evs show ?thesis by (auto simp: Let_def)
qed

text \<open>Three scans of one player: the second is too early.\<close>

definition throttled_demo :: "(unit, nat mock_player, unit, nat, nat) engine" where
  "throttled_demo =
     (demo_engine [demo_award_self])
       \<lparr>throttle := Some (throttle_new 1 (from_secs 10)), bloop_provider := provider_new (from_secs 3600)\<rparr>"

theorem throttle_limits_streaks_witness:
  "\<exists>evs. event_tx (fst (snd (process_requests demo_md5 mock_player_ops
       [demo_request 0 (BloopRequest ''c'' 10), demo_request (int (from_secs 5)) (BloopRequest ''c'' 10),
        demo_request (int (from_secs 20)) (BloopRequest ''c'' 10)] throttled_demo))) = event_tx throttled_demo @ evs \<and>
     (\<forall>k. k + 1 < length (accepted_at ''c'' evs) \<and>
        (\<forall>j \<le> 1. pb_player_id (accepted_at ''c'' evs ! (k + j)) = pb_player_id (accepted_at ''c'' evs ! k)) \<longrightarrow>
        pb_recorded_at (accepted_at ''c'' evs ! (k + 1)) - pb_recorded_at (accepted_at ''c'' evs ! k) > int (from_secs 10))"
proof -
  have "engine_wf mock_player_ops throttled_demo"
    using demo_engine_wf by (simp add: throttled_demo_def engine_wf_def)
  from throttle_limits_streaks [where ?md5.0 = demo_md5 and th = "throttle_new 1 (from_secs 10)" and cid = "''c''" and
      age = "from_secs 3600" and t = 0 and
      inps = "[demo_request 0 (BloopRequest ''c'' 10), demo_request (int (from_secs 5)) (BloopRequest ''c'' 10),
        demo_request (int (from_secs 20)) (BloopRequest ''c'' 10)]", OF mock.player_traits_axioms this]
  show ?thesis
    by (simp add: throttled_demo_def throttle_new_def demo_request_def demo_clock_def Let_def del: process_requests.simps)
qed

text \<open>The interval has to be within the retention. With a retention of one second and a throttle of two bloops in ten
  seconds, the second bloop prunes the first from the history, and a third one after four seconds passes.\<close>

lemma short_retention_defeats_throttle:
  assumes "client_id b0 = cid" "recorded_at b0 = 0" "client_id b1 = cid" "recorded_at b1 = int (from_secs 2)"
  defines "p \<equiv> provider_add 0 0 b0 (provider_new (from_secs 1))"
  shows "\<not> is_throttled (throttle_new 2 (from_secs 10)) (int (from_secs 4))
    (bloops (for_client (provider_add (int (from_secs 2)) (int (from_secs 2)) b1 p) cid)) pid"
  using assms(1-4)
  by (simp add: p_def for_client_def provider_add_def provider_new_def collection_add_def collection_new_def
      prune_back.simps is_throttled_def throttle_new_def bloops_since_def)

end
