(* ===== verification/Test_Utils.thy ===== *)
theory Test_Utils
  imports Achievement
begin

text \<open>
  The fixtures of \<open>src/src/test_utils.rs\<close>: the test clock, the builder of \<open>MockPlayer\<close> (the player itself is in
  the theory \<open>Player\<close>) and the builder of an achievement context. The random UUID of a built player and the cell it
  is stored in are arguments.
\<close>

section \<open>The clock\<close>

text \<open>\<open>Utc::now\<close> is the time since the first call, which fixes the base instant. Instants are numbers of
  nanoseconds; a duration since a later instant is zero.\<close>

definition test_utc_now :: "nat \<Rightarrow> nat option \<Rightarrow> datetime \<times> nat option" where
  "test_utc_now instant base_instant =
     (let base = (case base_instant of None \<Rightarrow> instant | Some b \<Rightarrow> b)
      in (0 + int (instant - base), Some base))"

text \<open>Readings at later instants are not earlier, and the first one is the epoch.\<close>

lemma test_utc_now_first: "fst (test_utc_now i None) = 0"
  by (simp add: test_utc_now_def)

lemma test_utc_now_mono:
  assumes "i \<le> j"
  shows "fst (test_utc_now i base) \<le> fst (test_utc_now j (snd (test_utc_now i base)))"
  using assms by (simp add: test_utc_now_def Let_def split: option.split)

section \<open>Mock players\<close>

record 'n mock_player_builder =
  mpb_nfc_uid :: 'n
  mpb_bloops_count :: usize
  mpb_registration_number :: nat
  mpb_name :: string

definition mock_player_builder_new :: "'n \<Rightarrow> 'n mock_player_builder" where
  "mock_player_builder_new default_nfc_uid =
     \<lparr>mpb_nfc_uid = default_nfc_uid, mpb_bloops_count = 0, mpb_registration_number = 0, mpb_name = ''test''\<rparr>"

definition mock_builder_nfc_uid :: "'n \<Rightarrow> 'n mock_player_builder \<Rightarrow> 'n mock_player_builder" where
  "mock_builder_nfc_uid x b = b\<lparr>mpb_nfc_uid := x\<rparr>"

definition mock_builder_bloops_count :: "usize \<Rightarrow> 'n mock_player_builder \<Rightarrow> 'n mock_player_builder" where
  "mock_builder_bloops_count x b = b\<lparr>mpb_bloops_count := x\<rparr>"

definition mock_builder_registration_number :: "nat \<Rightarrow> 'n mock_player_builder \<Rightarrow> 'n mock_player_builder" where
  "mock_builder_registration_number x b = b\<lparr>mpb_registration_number := x\<rparr>"

definition mock_builder_name :: "string \<Rightarrow> 'n mock_player_builder \<Rightarrow> 'n mock_player_builder" where
  "mock_builder_name x b = b\<lparr>mpb_name := x\<rparr>"

definition mock_build :: "uuid \<Rightarrow> 'n mock_player_builder \<Rightarrow> 'n mock_player store \<Rightarrow> (addr \<times> uuid) \<times> 'n mock_player store" where
  "mock_build i b st =
     (let (a, st) = alloc st \<lparr>mock_id = i, mock_nfc_uid = mpb_nfc_uid b, mock_name = mpb_name b,
            bloops_count = mpb_bloops_count b, mock_awarded = Map.empty,
            registration_number = mpb_registration_number b\<rparr>
      in ((a, i), st))"

lemma mock_build_cell:
  assumes "mock_build i b st = ((a, j), st')"
  shows "j = i \<and> \<not> valid_addr st a \<and> valid_addr st' a \<and>
    player_uuid mock_player_ops (st' ! a) = i \<and> nfc_uid mock_player_ops (st' ! a) = mpb_nfc_uid b \<and>
    total_bloops mock_player_ops (st' ! a) = mpb_bloops_count b \<and>
    awarded_achievements mock_player_ops (st' ! a) = Map.empty"
  using assms by (auto simp: mock_build_def alloc_def valid_addr_def mock_player_ops_def)

section \<open>Contexts\<close>

record ('s, 'n, 't) test_ctx_builder =
  tcb_current_bloop :: bloop
  tcb_state :: 's
  tcb_bloop_provider :: bloop_provider
  tcb_trigger_registry :: "('n, 't) trigger_registry"

definition test_ctx_builder_new :: "bloop \<Rightarrow> (unit, 'n, 't) test_ctx_builder" where
  "test_ctx_builder_new b =
     \<lparr>tcb_current_bloop = b, tcb_state = (), tcb_bloop_provider = provider_new (from_secs 1800),
      tcb_trigger_registry = trigger_registry_new Map.empty\<rparr>"

definition test_ctx_bloops :: "bloop list \<Rightarrow> ('s, 'n, 't) test_ctx_builder \<Rightarrow> ('s, 'n, 't) test_ctx_builder" where
  "test_ctx_bloops bs b = b\<lparr>tcb_bloop_provider := provider_with_bloops (from_secs 1800) bs\<rparr>"

definition test_ctx_state :: "'s \<Rightarrow> ('s0, 'n, 't) test_ctx_builder \<Rightarrow> ('s, 'n, 't) test_ctx_builder" where
  "test_ctx_state s b =
     \<lparr>tcb_current_bloop = tcb_current_bloop b, tcb_state = s, tcb_bloop_provider = tcb_bloop_provider b,
      tcb_trigger_registry = tcb_trigger_registry b\<rparr>"

definition test_ctx_trigger_registry ::
  "('n, 't) trigger_registry \<Rightarrow> ('s, 'n0, 't0) test_ctx_builder \<Rightarrow> ('s, 'n, 't) test_ctx_builder" where
  "test_ctx_trigger_registry r b =
     \<lparr>tcb_current_bloop = tcb_current_bloop b, tcb_state = tcb_state b, tcb_bloop_provider = tcb_bloop_provider b,
      tcb_trigger_registry = r\<rparr>"

text \<open>The context borrows the builder's parts; the players are those of the store.\<close>

definition test_ctx_build :: "('s, 'n, 't) test_ctx_builder \<Rightarrow> 'p store \<Rightarrow> ('p, 's, 'n, 't) achievement_context" where
  "test_ctx_build b st =
     context_new (tcb_current_bloop b) (tcb_bloop_provider b) (tcb_state b) (tcb_trigger_registry b) st"

end
