(* ===== verification/Tests_Core.thy ===== *)
theory Tests_Core
  imports Test_Utils Bloop_Sink Evaluators
begin

text \<open>
  The unit tests of \<open>player.rs\<close>, \<open>bloop.rs\<close>, \<open>trigger.rs\<close> and \<open>achievement.rs\<close>. A test is a predicate that runs
  the model the way the test runs the code and holds if all its assertions do. What a test draws
  at random or reads from the clock is an argument, so passing is proved for all UUIDs (those of \<open>Uuid::new_v4\<close>
  being different) and all instants, or for the instants at which the code passes it.
\<close>

section \<open>Players\<close>

definition adding_and_reading_player_by_nfc_uid_works :: "'n \<Rightarrow> uuid \<Rightarrow> bool" where
  "adding_and_reading_player_by_nfc_uid_works default_uid i =
     (let ((a, i), st) = mock_build i (mock_builder_bloops_count 5 (mock_player_builder_new default_uid)) [];
          registry = registry_new mock_player_ops [st ! a] []
      in (case read_by_nfc_uid registry default_uid of
            None \<Rightarrow> False
          | Some p \<Rightarrow> total_bloops mock_player_ops p = 5) \<and>
         contains_id registry i)"

definition mutating_player_updates_nfc_uid_and_bloops_correctly :: "'n \<Rightarrow> uuid \<Rightarrow> bool" where
  "mutating_player_updates_nfc_uid_and_bloops_correctly default_uid i =
     (let ((a, i), st) = mock_build i (mock_builder_bloops_count 0 (mock_player_builder_new default_uid)) [];
          registry = registry_new mock_player_ops [st ! a] [];
          registry = mutate_by_id mock_player_ops i (\<lambda>p. p\<lparr>bloops_count := 42\<rparr>) registry
      in case read_by_id registry i of
           None \<Rightarrow> False
         | Some p \<Rightarrow> total_bloops mock_player_ops p = 42)"

definition removing_player_removes_from_all_indexes :: "'n \<Rightarrow> uuid \<Rightarrow> bool" where
  "removing_player_removes_from_all_indexes default_uid i =
     (let ((a, i), st) = mock_build i (mock_builder_bloops_count 1 (mock_player_builder_new default_uid)) [];
          registry = registry_new mock_player_ops [st ! a] [];
          registry = registry_remove mock_player_ops i registry
      in read_by_id registry i = None \<and> read_by_nfc_uid registry default_uid = None)"

definition adding_player_overwrites_existing_player_with_same_id_or_nfc_uid :: "'n \<Rightarrow> uuid \<Rightarrow> uuid \<Rightarrow> bool" where
  "adding_player_overwrites_existing_player_with_same_id_or_nfc_uid default_uid i j =
     (let ((a1, i), st) = mock_build i (mock_builder_bloops_count 5 (mock_player_builder_new default_uid)) [];
          ((a2, j), st) = mock_build j (mock_builder_bloops_count 10 (mock_player_builder_new default_uid)) st;
          player2 = (st ! a2)\<lparr>mock_id := i, registration_number := 99\<rparr>;
          registry = registry_new mock_player_ops [st ! a1] [];
          registry = registry_add mock_player_ops player2 registry
      in case read_by_id registry i of
           None \<Rightarrow> False
         | Some p \<Rightarrow> total_bloops mock_player_ops p = 10 \<and> registration_number p = 99)"

lemmas player_test_simps = mock_build_def alloc_def mock_builder_bloops_count_def mock_builder_nfc_uid_def
  mock_builder_registration_number_def mock_builder_name_def mock_player_builder_new_def
  registry_new_def empty_registry_def registry_defs mock_player_ops_def

lemma player_tests_pass:
  "adding_and_reading_player_by_nfc_uid_works u i"
  "mutating_player_updates_nfc_uid_and_bloops_correctly u i"
  "removing_player_removes_from_all_indexes u i"
  "adding_player_overwrites_existing_player_with_same_id_or_nfc_uid u i j"
  by (simp_all add: adding_and_reading_player_by_nfc_uid_works_def
      mutating_player_updates_nfc_uid_and_bloops_correctly_def removing_player_removes_from_all_indexes_def
      adding_player_overwrites_existing_player_with_same_id_or_nfc_uid_def player_test_simps Let_def)

section \<open>Bloops\<close>

definition create_mock_bloop :: "uuid \<Rightarrow> datetime \<Rightarrow> nat mock_player store \<Rightarrow> bloop \<times> nat mock_player store" where
  "create_mock_bloop i at st =
     (let ((a, _), st) = mock_build i (mock_player_builder_new 0) st
      in (bloop_new mock_player_ops st a ''client-1'' at, st))"

text \<open>Additions read the clock: \<open>t1\<close> and \<open>t2\<close> are the readings of the two calls of \<open>add\<close>.\<close>

definition bloop_collection_adds_bloops_and_preserves_order ::
  "uuid \<Rightarrow> uuid \<Rightarrow> datetime \<Rightarrow> datetime \<Rightarrow> datetime \<Rightarrow> bool" where
  "bloop_collection_adds_bloops_and_preserves_order i j now t1 t2 =
     (let (bloop1, st) = create_mock_bloop i now [];
          (bloop2, st) = create_mock_bloop j (now + int (from_secs 1)) st;
          collection = collection_new (from_secs 60);
          collection = collection_add t1 bloop2 collection;
          collection = collection_add t2 bloop1 collection;
          bs = bloops collection
      in length bs = 2 \<and> recorded_at (bs ! 0) = recorded_at bloop1 \<and> recorded_at (bs ! 1) = recorded_at bloop2)"

definition bloop_collection_prunes_bloops_older_than_max_age ::
  "uuid \<Rightarrow> uuid \<Rightarrow> datetime \<Rightarrow> datetime \<Rightarrow> datetime \<Rightarrow> bool" where
  "bloop_collection_prunes_bloops_older_than_max_age i j now t1 t2 =
     (let collection = collection_new (from_secs 5);
          (old_bloop, st) = create_mock_bloop i (now - int (from_secs 10)) [];
          (recent_bloop, st) = create_mock_bloop j (now - int (from_secs 2)) st;
          collection = collection_add t1 old_bloop collection;
          collection = collection_add t2 recent_bloop collection;
          bs = bloops collection
      in length bs = 1 \<and> recorded_at (bs ! 0) = recorded_at recent_bloop)"

definition bloop_provider_adds_bloops_to_global_and_per_client_collections ::
  "uuid \<Rightarrow> datetime \<Rightarrow> datetime \<Rightarrow> datetime \<Rightarrow> bool" where
  "bloop_provider_adds_bloops_to_global_and_per_client_collections i now t1 t2 =
     (let provider = provider_new (from_secs 60);
          (b, st) = create_mock_bloop i now [];
          cid = client_id b;
          provider = provider_add t1 t2 b provider;
          global_bloops = bloops (global provider);
          client_bloops = bloops (for_client provider cid)
      in length global_bloops = 1 \<and> recorded_at (global_bloops ! 0) = recorded_at b \<and>
         length client_bloops = 1 \<and> recorded_at (client_bloops ! 0) = recorded_at b)"

definition bloop_provider_correctly_initializes_from_existing_bloops ::
  "uuid \<Rightarrow> uuid \<Rightarrow> datetime \<Rightarrow> bool" where
  "bloop_provider_correctly_initializes_from_existing_bloops i j now =
     (let ((player1, _), st) = mock_build i (mock_player_builder_new (0::nat)) [];
          ((player2, _), st) = mock_build j (mock_player_builder_new 0) st;
          bloop1 = bloop_new mock_player_ops st player1 ''client-1'' now;
          bloop2 = bloop_new mock_player_ops st player1 ''client-1'' (now + int (from_secs 1));
          bloop3 = bloop_new mock_player_ops st player2 ''client-2'' now;
          provider = provider_with_bloops (from_secs 60) [bloop1, bloop2, bloop3];
          client1_bloops = bloops (for_client provider ''client-1'');
          client2_bloops = bloops (for_client provider ''client-2'')
      in length (bloops (global provider)) = 3 \<and> length client1_bloops = 2 \<and>
         list_ex (\<lambda>b. recorded_at b = now) client1_bloops \<and>
         list_ex (\<lambda>b. recorded_at b = now + int (from_secs 1)) client1_bloops \<and>
         length client2_bloops = 1 \<and> recorded_at (client2_bloops ! 0) = now)"

definition bloops_since_filter_correctly_filters_based_on_timestamp :: "uuid \<Rightarrow> uuid \<Rightarrow> datetime \<Rightarrow> bool" where
  "bloops_since_filter_correctly_filters_based_on_timestamp i j now =
     (let (bloop1, st) = create_mock_bloop i now [];
          (bloop2, st) = create_mock_bloop j (now + int (from_secs 10)) st;
          filtered = filter (bloops_since (now + int (from_secs 5))) [bloop1, bloop2]
      in length filtered = 1 \<and> recorded_at (filtered ! 0) = recorded_at bloop2)"

definition bloops_for_player_filter_correctly_filters_based_on_player_id :: "uuid \<Rightarrow> uuid \<Rightarrow> datetime \<Rightarrow> bool" where
  "bloops_for_player_filter_correctly_filters_based_on_player_id i j now =
     (let (bloop1, st) = create_mock_bloop i now [];
          ((player2, player2_id), st) = mock_build j (mock_player_builder_new 0) st;
          bloop2 = bloop_new mock_player_ops st player2 ''client-1'' now;
          filtered = filter (bloops_for_player player2_id) [bloop1, bloop2]
      in length filtered = 1 \<and> player_id (filtered ! 0) = player2_id)"

lemmas bloop_test_simps = create_mock_bloop_def bloop_new_def collection_new_def collection_add_def
  prune_back_rev bloops_since_def bloops_for_player_def provider_new_def provider_add_def for_client_def

lemma bloop_collection_tests_pass:
  assumes "now \<le> t1" "t1 \<le> t2" "t2 < now + int (from_secs 3)"
  shows "bloop_collection_adds_bloops_and_preserves_order i j now t1 t2"
    "bloop_collection_prunes_bloops_older_than_max_age i j now t1 t2"
    "bloop_provider_adds_bloops_to_global_and_per_client_collections i now t1 t2"
  using assms
  by (simp_all add: bloop_collection_adds_bloops_and_preserves_order_def
      bloop_collection_prunes_bloops_older_than_max_age_def
      bloop_provider_adds_bloops_to_global_and_per_client_collections_def
      bloop_test_simps player_test_simps Let_def)

lemma bloop_provider_initialization_test_passes:
  "bloop_provider_correctly_initializes_from_existing_bloops i j now"
  by (simp add: bloop_provider_correctly_initializes_from_existing_bloops_def provider_with_bloops_def
      collection_with_bloops_def bloop_test_simps player_test_simps Let_def)

lemma bloop_filter_tests_pass:
  "bloops_since_filter_correctly_filters_based_on_timestamp i j now"
  "i \<noteq> j \<Longrightarrow> bloops_for_player_filter_correctly_filters_based_on_player_id i j now"
  by (simp_all add: bloops_since_filter_correctly_filters_based_on_timestamp_def
      bloops_for_player_filter_correctly_filters_based_on_player_id_def bloop_test_simps player_test_simps Let_def)

section \<open>The sink\<close>

definition dummy_repo_new :: dummy_repo where
  "dummy_repo_new = \<lparr>sent_batches = [], fail_persist = False\<rparr>"

definition set_fail :: "bool \<Rightarrow> dummy_repo \<Rightarrow> dummy_repo" where
  "set_fail fail r = r\<lparr>fail_persist := fail\<rparr>"

definition create_processed_bloop :: "uuid \<Rightarrow> datetime \<Rightarrow> processed_bloop" where
  "create_processed_bloop i now = \<lparr>pb_player_id = i, pb_client_id = ''client-1'', pb_recorded_at = now\<rparr>"

definition flush_persists_and_clears_buffer :: "uuid \<Rightarrow> datetime \<Rightarrow> bool" where
  "flush_persists_and_clears_buffer i now =
     (let builder = sink_builder_event_rx () (sink_builder_max_batch_duration (from_secs 5)
            (sink_builder_max_batch_size 10 (sink_builder_repository dummy_repo_new sink_builder_new)))
      in case sink_build builder of
           Inl e \<Rightarrow> False
         | Inr sink \<Rightarrow>
             (let sink = sink\<lparr>buffer := buffer sink @ [create_processed_bloop i now]\<rparr>;
                  sink = flush dummy_persist_batch sink
              in map length (sent_batches (repository sink)) = [1] \<and> buffer sink = []))"

definition flush_retries_on_failure :: "uuid \<Rightarrow> datetime \<Rightarrow> bool" where
  "flush_retries_on_failure i now =
     (let builder = sink_builder_event_rx () (sink_builder_max_batch_duration (from_secs 5)
            (sink_builder_max_batch_size 10
              (sink_builder_repository (set_fail True dummy_repo_new) sink_builder_new)))
      in case sink_build builder of
           Inl e \<Rightarrow> False
         | Inr sink \<Rightarrow>
             (let sink = sink\<lparr>buffer := buffer sink @ [create_processed_bloop i now]\<rparr>;
                  failed = flush dummy_persist_batch sink;
                  sink = failed\<lparr>repository := set_fail False (repository failed)\<rparr>;
                  sink = flush dummy_persist_batch sink
              in length (buffer failed) = 1 \<and> map length (sent_batches (repository sink)) = [1] \<and> buffer sink = []))"

definition process_events_flushes_on_batch_size :: "uuid \<Rightarrow> uuid \<Rightarrow> datetime \<Rightarrow> datetime \<Rightarrow> bool" where
  "process_events_flushes_on_batch_size i j t1 t2 =
     (let builder = sink_builder_event_rx () (sink_builder_max_batch_duration (from_secs 10)
            (sink_builder_max_batch_size 2 (sink_builder_repository dummy_repo_new sink_builder_new)))
      in case sink_build builder of
           Inl e \<Rightarrow> False
         | Inr sink \<Rightarrow>
             (let (sink, waiting) = process_events dummy_persist_batch
                    [Recv (Inr (BloopProcessed (create_processed_bloop i t1))),
                     Recv (Inr (BloopProcessed (create_processed_bloop j t2))), Recv (Inl Closed)] sink
              in map length (sent_batches (repository sink)) = [2] \<and> \<not> waiting))"

definition handle_recv_returns_false_on_closed :: bool where
  "handle_recv_returns_false_on_closed =
     (let builder = sink_builder_event_rx () (sink_builder_max_batch_duration (from_secs 10)
            (sink_builder_max_batch_size 10 (sink_builder_repository dummy_repo_new sink_builder_new)))
      in case sink_build builder of
           Inl e \<Rightarrow> False
         | Inr sink \<Rightarrow> \<not> snd (handle_recv dummy_persist_batch (Inl Closed) sink))"

lemmas sink_test_simps = sink_build_def sink_builder_event_rx_def sink_builder_max_batch_duration_def
  sink_builder_max_batch_size_def sink_builder_repository_def sink_builder_new_def dummy_repo_new_def
  set_fail_def dummy_persist_batch_def flush_def process_events_def

lemma sink_tests_pass:
  "flush_persists_and_clears_buffer i now"
  "flush_retries_on_failure i now"
  "process_events_flushes_on_batch_size i j t1 t2"
  "handle_recv_returns_false_on_closed"
  by (simp_all add: flush_persists_and_clears_buffer_def flush_retries_on_failure_def
      process_events_flushes_on_batch_size_def handle_recv_returns_false_on_closed_def sink_test_simps Let_def)

section \<open>Triggers\<close>

definition test_triggers :: "bool \<Rightarrow> trigger_occurrence \<Rightarrow> 'n \<Rightarrow> ('n, u8) trigger_registry" where
  "test_triggers is_global occ uid =
     trigger_registry_new [uid \<mapsto> \<lparr>spec_global = is_global, occurrence = occ, spec_trigger = 42\<rparr>]"

definition activate_and_check_once_trigger :: "'n \<Rightarrow> datetime \<Rightarrow> datetime \<Rightarrow> bool" where
  "activate_and_check_once_trigger uid t now =
     (let registry = test_triggers False Once uid;
          (activated, registry) = try_activate_trigger t uid ''client1'' registry;
          (first, registry) = check_active_trigger 42 ''client1'' now registry;
          (second, registry) = check_active_trigger 42 ''client1'' now registry
      in activated \<and> first \<and> \<not> second)"

definition activate_and_check_times_trigger :: "'n \<Rightarrow> datetime \<Rightarrow> datetime \<Rightarrow> bool" where
  "activate_and_check_times_trigger uid t now =
     (let registry = test_triggers False (Times 2) uid;
          (activated, registry) = try_activate_trigger t uid ''client2'' registry;
          (first, registry) = check_active_trigger 42 ''client2'' now registry;
          (second, registry) = check_active_trigger 42 ''client2'' now registry;
          (third, registry) = check_active_trigger 42 ''client2'' now registry
      in activated \<and> first \<and> second \<and> \<not> third)"

definition activate_and_check_duration_trigger :: "'n \<Rightarrow> datetime \<Rightarrow> datetime \<Rightarrow> bool" where
  "activate_and_check_duration_trigger uid t now =
     (let registry = test_triggers False (Duration (from_secs 50)) uid;
          (activated, registry) = try_activate_trigger t uid ''client3'' registry;
          (first, registry) = check_active_trigger 42 ''client3'' now registry;
          (second, registry) = check_active_trigger 42 ''client3'' (now + int (from_secs 30)) registry;
          (third, registry) = check_active_trigger 42 ''client3'' (now + int (from_secs 70)) registry
      in activated \<and> first \<and> second \<and> \<not> third)"

definition global_trigger_works_from_any_client :: "'n \<Rightarrow> datetime \<Rightarrow> datetime \<Rightarrow> bool" where
  "global_trigger_works_from_any_client uid t now =
     (let registry = test_triggers True Once uid;
          (activated, registry) = try_activate_trigger t uid ''any_client'' registry;
          (first, registry) = check_active_trigger 42 ''client1'' now registry;
          (second, registry) = check_active_trigger 42 ''client2'' now registry
      in activated \<and> first \<and> \<not> second)"

lemmas trigger_test_simps = test_triggers_def trigger_registry_new_def try_activate_trigger_def
  active_trigger_new_def check_active_trigger_def active_trigger_check_def

lemma trigger_tests_pass:
  "activate_and_check_once_trigger u t now"
  "activate_and_check_times_trigger u t now"
  "t \<le> now \<Longrightarrow> now < t + int (from_secs 20) \<Longrightarrow> activate_and_check_duration_trigger u t now"
  "global_trigger_works_from_any_client u t now"
  by (simp_all add: activate_and_check_once_trigger_def activate_and_check_times_trigger_def
      activate_and_check_duration_trigger_def global_trigger_works_from_any_client_def trigger_test_simps Let_def)

section \<open>Achievements\<close>

definition missing_id_fails_to_build :: bool where
  "missing_id_fails_to_build =
     (case achievement_build (achievement_builder_new :: (unit, unit, unit, unit, unit) achievement_builder) of
        Inl e \<Rightarrow> e = MissingField ''id''
      | Inr _ \<Rightarrow> False)"

definition missing_evaluator_fails_to_build :: "uuid \<Rightarrow> bool" where
  "missing_evaluator_fails_to_build i =
     (case achievement_build (achievement_builder_id i
             (achievement_builder_new :: (unit, unit, unit, unit, unit) achievement_builder)) of
        Inl e \<Rightarrow> e = MissingField ''evaluator''
      | Inr _ \<Rightarrow> False)"

text \<open>The achievement of a test: built with an ID and a dummy evaluator, and unwrapped.\<close>

definition dummy_achievement ::
  "uuid \<Rightarrow> eval_result \<Rightarrow> builder_error + (unit, nat mock_player, unit, nat, unit) achievement" where
  "dummy_achievement i r =
     achievement_build (achievement_builder_evaluator (\<lambda>x. x) (dummy_evaluator r)
       (achievement_builder_id i (achievement_builder_new :: (unit, unit, unit, unit, unit) achievement_builder)))"

definition builds_successfully_with_all_required_fields :: "uuid \<Rightarrow> bool" where
  "builds_successfully_with_all_required_fields i =
     (case dummy_achievement i AwardSelf of Inl e \<Rightarrow> False | Inr ach \<Rightarrow> achievement_id ach = i)"

text \<open>A context for a bloop of a fresh mock player with the ID \<open>i\<close>.\<close>

definition test_ctx ::
  "uuid \<Rightarrow> client_id \<Rightarrow> datetime \<Rightarrow> (nat mock_player, unit, nat, unit) achievement_context" where
  "test_ctx i cid now =
     (let ((player, player_id), st) = mock_build i (mock_player_builder_new 0) [];
          b = bloop_new mock_player_ops st player cid now
      in test_ctx_build (test_ctx_builder_new b) st)"

definition evaluate_awards_self_when_evaluator_returns_award_self :: "uuid \<Rightarrow> uuid \<Rightarrow> datetime \<Rightarrow> bool" where
  "evaluate_awards_self_when_evaluator_returns_award_self pid i now =
     (case dummy_achievement i AwardSelf of
        Inl e \<Rightarrow> False
      | Inr ach \<Rightarrow>
          (let ctx = achievement_evaluate ach (test_ctx pid ''client'' now)
           in case for_player (take_awarded_tracker ctx) pid of
                None \<Rightarrow> False
              | Some ids \<Rightarrow> i \<in> set ids))"

definition evaluate_awards_multiple_players_when_evaluator_returns_award_multiple ::
  "uuid \<Rightarrow> uuid \<Rightarrow> uuid \<Rightarrow> uuid \<Rightarrow> datetime \<Rightarrow> bool" where
  "evaluate_awards_multiple_players_when_evaluator_returns_award_multiple pid i j k now =
     (case dummy_achievement i (AwardMultiple [j, k]) of
        Inl e \<Rightarrow> False
      | Inr ach \<Rightarrow>
          (let ctx = achievement_evaluate ach (test_ctx pid ''client'' now)
           in sum_list (map (length \<circ> snd) (awarded (take_awarded_tracker ctx))) = 2))"

definition award_achievement_records_award_correctly :: "uuid \<Rightarrow> uuid \<Rightarrow> datetime \<Rightarrow> bool" where
  "award_achievement_records_award_correctly pid i now =
     (let ctx = test_ctx pid ''client'' now;
          ctx = award_achievement i (player_id (current_bloop ctx)) ctx
      in case for_player (take_awarded_tracker ctx) pid of None \<Rightarrow> False | Some ids \<Rightarrow> i \<in> set ids)"

datatype dummy_trigger = Active | Inactive

definition has_trigger_returns_true_when_trigger_active :: "uuid \<Rightarrow> datetime \<Rightarrow> datetime \<Rightarrow> bool" where
  "has_trigger_returns_true_when_trigger_active i now t =
     (let ((player, _), st) = mock_build i (mock_player_builder_new (0::nat)) [];
          b = bloop_new mock_player_ops st player ''client'' now;
          registry = trigger_registry_new [(0::nat) \<mapsto> \<lparr>spec_global = False, occurrence = Once, spec_trigger = Active\<rparr>];
          (_, registry) = try_activate_trigger t 0 ''client'' registry;
          ctx = test_ctx_build (test_ctx_trigger_registry registry
            (test_ctx_builder_new b :: (unit, nat, unit) test_ctx_builder)) st;
          (active, ctx) = has_trigger Active ctx;
          (inactive, ctx) = has_trigger Inactive ctx
      in active \<and> \<not> inactive)"

lemmas achievement_test_simps = achievement_build_def achievement_builder_new_def achievement_builder_id_def
  achievement_builder_evaluator_def into_dyn_evaluator_def dummy_achievement_def dummy_evaluator_def
  test_ctx_def test_ctx_build_def test_ctx_builder_new_def test_ctx_trigger_registry_def context_new_def
  achievement_evaluate_def award_achievement_def take_awarded_tracker_def has_trigger_def tracker_new_def
  tracker_add_def for_player_def entry_update_def bloop_new_def

lemma achievement_builder_tests_pass:
  "missing_id_fails_to_build" "missing_evaluator_fails_to_build i" "builds_successfully_with_all_required_fields i"
  by (simp_all add: missing_id_fails_to_build_def missing_evaluator_fails_to_build_def
      builds_successfully_with_all_required_fields_def achievement_test_simps)

lemma achievement_award_tests_pass:
  "evaluate_awards_self_when_evaluator_returns_award_self pid i now"
  "j \<noteq> k \<Longrightarrow> evaluate_awards_multiple_players_when_evaluator_returns_award_multiple pid i j k now"
  "award_achievement_records_award_correctly pid i now"
  by (simp_all add: evaluate_awards_self_when_evaluator_returns_award_self_def
      evaluate_awards_multiple_players_when_evaluator_returns_award_multiple_def
      award_achievement_records_award_correctly_def achievement_test_simps player_test_simps Let_def)

lemma has_trigger_test_passes: "has_trigger_returns_true_when_trigger_active i now t"
  by (simp add: has_trigger_returns_true_when_trigger_active_def trigger_test_simps
      achievement_test_simps player_test_simps Let_def)

end
