(* ===== verification/Registration_Number.thy ===== *)
theory Registration_Number
  imports Evaluators
begin

text \<open>
  The predicates on registration numbers (\<open>src/src/evaluator/registration_number.rs\<close>). A \<open>usize\<close> is a
  number below \<open>2 ^ 64\<close>; every operation that can leave that range is written as a checked one, with \<open>None\<close>
  for the overflow (a panic with overflow checks on). The \<open>cached\<close> attribute memoises the functions and
  does not change their results. The integer square root is that of the num-integer crate, an
  argument whose documented behaviour is \<open>floor_sqrt\<close>.
\<close>

abbreviation usize_bound :: nat where
  "usize_bound \<equiv> 2 ^ 64"

definition checked :: "nat \<Rightarrow> nat option" where
  "checked n = (if n < usize_bound then Some n else None)"

section \<open>Primes\<close>

function prime_loop :: "nat \<Rightarrow> nat \<Rightarrow> bool option" where
  "prime_loop number i =
     (case checked (i * i) of
        None \<Rightarrow> None
      | Some square \<Rightarrow>
          if square \<le> number then
            if number mod i = 0 \<or> number mod (i + 2) = 0 then Some False
            else prime_loop number (i + 6)
          else Some True)"
  by pat_completeness auto
termination
proof (relation "measure (\<lambda>(number, i). number + 1 - i)")
  fix number i square :: nat
  assume sq: "checked (i * i) = Some square" "square \<le> number"
  then have "i * i \<le> number" by (simp add: checked_def split: if_splits)
  moreover have "i \<le> i * i" by (cases i) simp_all
  ultimately have "i \<le> number" by linarith
  then show "((number, i + 6), number, i) \<in> measure (\<lambda>(number, i). number + 1 - i)" by simp
qed simp

declare prime_loop.simps [simp del]

definition is_prime :: "nat \<Rightarrow> bool option" where
  "is_prime number =
     (if number = 2 \<or> number = 3 then Some True
      else if number \<le> 1 \<or> number mod 2 = 0 \<or> number mod 3 = 0 then Some False
      else prime_loop number 5)"

section \<open>Squares and Fibonacci numbers\<close>

definition is_perfect_square :: "(nat \<Rightarrow> nat) \<Rightarrow> nat \<Rightarrow> bool" where
  "is_perfect_square isqrt number \<longleftrightarrow> (isqrt number) ^ 2 = number"

definition is_fibonacci :: "(nat \<Rightarrow> nat) \<Rightarrow> nat \<Rightarrow> bool option" where
  "is_fibonacci isqrt number =
     Option.bind (checked (5 * number)) (\<lambda>x.
     Option.bind (checked (x * number)) (\<lambda>y.
     Option.bind (checked (y + 4)) (\<lambda>z.
       if is_perfect_square isqrt z then Some True
       else if y < 4 then None
       else Some (is_perfect_square isqrt (y - 4)))))"

section \<open>Digit sums\<close>

function digit_sum_loop :: "nat \<Rightarrow> nat \<Rightarrow> nat" where
  "digit_sum_loop acc value =
     (if value > 0 then digit_sum_loop (acc + value mod 10) (value div 10) else acc)"
  by pat_completeness auto
termination
  by (relation "measure snd") auto

declare digit_sum_loop.simps [simp del]

definition digit_sum :: "nat \<Rightarrow> nat" where
  "digit_sum number = digit_sum_loop 0 number"

section \<open>Evaluators\<close>

definition build_predicate_evaluator ::
  "('p \<Rightarrow> nat) \<Rightarrow> (nat \<Rightarrow> bool) \<Rightarrow> nat \<Rightarrow> duration \<Rightarrow> ('p, 's, 'n, 't, unit) streak_evaluator" where
  "build_predicate_evaluator number P n window =
     streak_build (streak_max_window window (streak_min_required n streak_builder_new))
       (\<lambda>p. P (number p))"

definition build_projection_match_evaluator ::
  "('p \<Rightarrow> nat) \<Rightarrow> (nat \<Rightarrow> 'v) \<Rightarrow> nat \<Rightarrow> duration \<Rightarrow> ('p, 's, 'n, 't, 'v) streak_evaluator" where
  "build_projection_match_evaluator number projector n window =
     streak_build_with_derived_ctx (streak_max_window window (streak_min_required n streak_builder_new))
       (\<lambda>ctx. Owned (projector (number (ctx_players ctx ! player (current_bloop ctx)))))
       (\<lambda>p reference. projector (number p) = reference)"

section \<open>Primality\<close>

definition prime_number :: "nat \<Rightarrow> bool" where
  "prime_number p \<longleftrightarrow> 1 < p \<and> (\<forall>d. d dvd p \<longrightarrow> d = 1 \<or> d = p)"

lemma composite_small_divisor:
  assumes "\<not> prime_number n" "1 < n"
  obtains d where "1 < d" "d dvd n" "d * d \<le> n"
proof -
  from assms obtain a where a: "a dvd n" "a \<noteq> 1" "a \<noteq> n" by (auto simp: prime_number_def)
  then obtain b where b: "n = a * b" by (auto simp: dvd_def)
  from a b assms(2) have "1 < a" "1 < b" by (cases a; cases b; auto)+
  show ?thesis
  proof (cases "a \<le> b")
    case True
    with b \<open>1 < a\<close> a(1) that [of a] show ?thesis by simp
  next
    case False
    with b \<open>1 < b\<close> that [of b] show ?thesis by simp
  qed
qed

text \<open>The candidates are the numbers next to the multiples of six.\<close>

definition wheel_free :: "nat \<Rightarrow> nat \<Rightarrow> bool" where
  "wheel_free n i \<longleftrightarrow> (\<forall>d. 1 < d \<and> d < i \<longrightarrow> \<not> d dvd n)"

lemma wheel_step:
  assumes "wheel_free n i" "i mod 6 = 5" "n mod 2 \<noteq> 0" "n mod 3 \<noteq> 0" "\<not> i dvd n" "\<not> (i + 2) dvd n"
  shows "wheel_free n (i + 6)"
  unfolding wheel_free_def
proof (intro allI impI notI)
  fix d assume d: "1 < d \<and> d < i + 6" "d dvd n"
  with assms(1) have "i \<le> d" by (auto simp: wheel_free_def not_less)
  with d(1) obtain j where j: "d = i + j" "j < 6" by (auto simp: le_iff_add)
  have odd: "\<not> k dvd d" if "n mod k \<noteq> 0" for k
  proof
    assume "k dvd d"
    then have "k dvd n" using d(2) by (rule dvd_trans)
    with that show False by (simp add: dvd_eq_mod_eq_0)
  qed
  have "2 dvd i + 1" "2 dvd i + 3" "2 dvd i + 5" "3 dvd i + 4" using assms(2) by presburger+
  moreover have "j = 0 \<or> j = 1 \<or> j = 2 \<or> j = 3 \<or> j = 4 \<or> j = 5" using j(2) by auto
  ultimately have "d = i \<or> d = i + 2" using odd [OF assms(3)] odd [OF assms(4)] j(1) by auto
  with assms(5,6) d(2) show False by auto
qed

lemma prime_loop_correct:
  assumes "wheel_free n i" "i mod 6 = 5" "n mod 2 \<noteq> 0" "n mod 3 \<noteq> 0" "1 < n"
    and "prime_loop n i = Some r"
  shows "r \<longleftrightarrow> prime_number n"
  using assms
proof (induction n i rule: prime_loop.induct)
  case (1 n i)
  from "1.prems"(6) obtain square where sq: "checked (i * i) = Some square"
    by (subst (asm) prime_loop.simps) (auto split: option.splits)
  then have square: "square = i * i" by (simp add: checked_def split: if_splits)
  have i: "5 \<le> i" using "1.prems"(2) by presburger
  have run: "prime_loop n i = (if i * i \<le> n then
      if n mod i = 0 \<or> n mod (i + 2) = 0 then Some False else prime_loop n (i + 6) else Some True)"
    by (subst prime_loop.simps) (simp add: sq square)
  show ?case
  proof (cases "i * i \<le> n")
    case True
    have "5 * i \<le> i * i" using i by simp
    with True i have "i < n" "i + 2 < n" by linarith+
    show ?thesis
    proof (cases "i dvd n \<or> i + 2 dvd n")
      case dvd: True
      then have "\<not> prime_number n" using i \<open>i < n\<close> \<open>i + 2 < n\<close> by (auto simp: prime_number_def)
      moreover have "r = False" using run True dvd "1.prems"(6) by (auto simp: dvd_eq_mod_eq_0)
      ultimately show ?thesis by simp
    next
      case False
      have "wheel_free n (i + 6)" by (rule wheel_step) (use "1.prems" False in auto)
      moreover have "(i + 6) mod 6 = 5" using "1.prems"(2) by simp
      moreover have "prime_loop n (i + 6) = Some r"
        using run True False "1.prems"(6) by (auto simp: dvd_eq_mod_eq_0)
      ultimately show ?thesis
        using "1.IH" [OF sq] True False "1.prems" by (auto simp: square dvd_eq_mod_eq_0)
    qed
  next
    case False
    have "prime_number n"
    proof (rule ccontr)
      assume "\<not> prime_number n"
      then obtain d where d: "1 < d" "d dvd n" "d * d \<le> n"
        using composite_small_divisor "1.prems"(5) by blast
      with False have "d < i" by (meson le_trans mult_le_mono not_le)
      with d "1.prems"(1) show False by (auto simp: wheel_free_def)
    qed
    moreover have "r = True" using run False "1.prems"(6) by simp
    ultimately show ?thesis by simp
  qed
qed

lemma wheel_free_5: "n mod 2 \<noteq> 0 \<Longrightarrow> n mod 3 \<noteq> 0 \<Longrightarrow> wheel_free n 5"
  unfolding wheel_free_def
proof (intro allI impI notI)
  fix d assume "n mod 2 \<noteq> 0" "n mod 3 \<noteq> 0" "1 < d \<and> d < 5" "d dvd n"
  moreover from this have "d = 2 \<or> d = 3 \<or> d = 4" by auto
  moreover have "4 dvd n \<Longrightarrow> 2 dvd n" by (rule dvd_trans [of 2 4]) simp_all
  ultimately show False by (auto simp: dvd_eq_mod_eq_0)
qed

lemma prime_loop_defined:
  assumes "n < 4294967291 * 4294967291" "i \<le> 4294967291" "i mod 6 = 5"
  shows "prime_loop n i \<noteq> None"
  using assms
proof (induction n i rule: prime_loop.induct)
  case (1 n i)
  have "i * i \<le> 4294967291 * 4294967291" using "1.prems"(2) by (rule mult_le_mono [OF _ "1.prems"(2)])
  then have sq: "checked (i * i) = Some (i * i)" by (simp add: checked_def)
  show ?case
  proof (cases "i * i \<le> n")
    case True
    with "1.prems" have "i * i < 4294967291 * 4294967291" by simp
    then have "i < 4294967291" by (meson mult_le_mono not_le)
    with "1.prems"(3) have "i + 6 \<le> 4294967291" "(i + 6) mod 6 = 5" by presburger+
    with "1.IH" [OF sq True _ "1.prems"(1)] show ?thesis
      by (subst prime_loop.simps) (auto simp: sq True)
  qed (subst prime_loop.simps, simp add: sq)
qed

lemma small_primes: "prime_number 2" "prime_number 3"
proof -
  have "d = 1 \<or> d = p" if "d dvd p" "p = 2 \<or> p = 3" for d p :: nat
  proof -
    have "d \<le> p" using that by (auto intro: dvd_imp_le)
    with that(2) have "d = 0 \<or> d = 1 \<or> d = 2 \<or> d = 3" by auto
    with that show ?thesis by auto
  qed
  then show "prime_number 2" "prime_number 3" by (auto simp: prime_number_def)
qed

lemma is_prime_iff:
  assumes "is_prime n = Some r"
  shows "r \<longleftrightarrow> prime_number n"
proof (cases "n = 2 \<or> n = 3 \<or> n \<le> 1")
  case True
  then show ?thesis
    using assms small_primes by (auto simp: is_prime_def prime_number_def split: if_splits)
next
  case False
  show ?thesis
  proof (cases "n mod 2 = 0 \<or> n mod 3 = 0")
    case True
    with False have "\<not> prime_number n" by (auto simp: prime_number_def dvd_eq_mod_eq_0)
    with True False assms show ?thesis by (auto simp: is_prime_def split: if_splits)
  next
    case nd: False
    with False assms have "prime_loop n 5 = Some r" by (auto simp: is_prime_def split: if_splits)
    with nd False show ?thesis by (intro prime_loop_correct [OF wheel_free_5]) auto
  qed
qed

section \<open>Fibonacci numbers\<close>

fun fib :: "nat \<Rightarrow> nat" where
  "fib 0 = 0"
| "fib (Suc 0) = 1"
| "fib (Suc (Suc k)) = fib k + fib (Suc k)"

text \<open>The Lucas number that belongs to a Fibonacci number.\<close>

fun lucas :: "nat \<Rightarrow> nat" where
  "lucas 0 = 2"
| "lucas (Suc 0) = 1"
| "lucas (Suc (Suc k)) = lucas k + lucas (Suc k)"

lemma lucas_fib: "lucas k + fib k = 2 * fib (Suc k)" "lucas (Suc k) + fib (Suc k) = 2 * fib (Suc (Suc k))"
  by (induction k) auto

lemma fib_lucas_step:
  "2 * fib (Suc k) = lucas k + fib k" "2 * lucas (Suc k) = 5 * fib k + lucas k"
proof -
  show 1: "2 * fib (Suc k) = lucas k + fib k" using lucas_fib(1) [of k] by simp
  show "2 * lucas (Suc k) = 5 * fib k + lucas k" using lucas_fib(2) [of k] 1 by simp
qed

lemma lucas_square: "int (lucas k) ^ 2 - 5 * int (fib k) ^ 2 = 4 * (-1) ^ k"
proof (induction k)
  case (Suc k)
  have f: "2 * int (fib (Suc k)) = int (lucas k) + int (fib k)"
    using fib_lucas_step(1) [of k] by linarith
  have l: "2 * int (lucas (Suc k)) = 5 * int (fib k) + int (lucas k)"
    using fib_lucas_step(2) [of k] by linarith
  have "4 * (int (lucas (Suc k)) ^ 2 - 5 * int (fib (Suc k)) ^ 2) =
      (2 * int (lucas (Suc k))) ^ 2 - 5 * (2 * int (fib (Suc k))) ^ 2"
    by (simp add: power2_eq_square)
  also have "\<dots> = - 4 * (int (lucas k) ^ 2 - 5 * int (fib k) ^ 2)"
    unfolding f l by (simp add: power2_eq_square algebra_simps)
  finally show ?case using Suc by simp
qed simp

text \<open>The descent: a solution of \<open>x ^ 2 - 5 * n ^ 2 = 4\<close> or \<open>- 4\<close> comes from a smaller one.\<close>

lemma pell_fib:
  fixes x n :: nat
  assumes "int x ^ 2 - 5 * int n ^ 2 = 4 \<or> int x ^ 2 - 5 * int n ^ 2 = - 4"
  shows "\<exists>k. n = fib k \<and> x = lucas k"
  using assms
proof (induction n arbitrary: x rule: less_induct)
  case (less n)
  show ?case
  proof (cases "n \<le> 1")
    case True
    have "x < 4"
    proof (rule ccontr)
      assume "\<not> x < 4"
      then have "4 * 4 \<le> x * x" by (intro mult_le_mono) simp_all
      then have "16 \<le> int x ^ 2" by (simp add: power2_eq_square flip: of_nat_mult) 
      moreover have "int n ^ 2 \<le> 1" using True by (cases n) simp_all
      ultimately show False using less.prems by linarith
    qed
    then have "x = 0 \<or> x = 1 \<or> x = 2 \<or> x = 3" by auto
    moreover have "n = 0 \<or> n = 1" using True by auto
    ultimately consider "n = 0 \<and> x = 2" | "n = 1 \<and> x = 1" | "n = 1 \<and> x = 3"
      using less.prems by auto
    then show ?thesis
    proof cases
      case 1 then show ?thesis by (intro exI [of _ 0]) simp
    next
      case 2 then show ?thesis by (intro exI [of _ 1]) simp
    next
      case 3 then show ?thesis by (intro exI [of _ 2]) (simp add: numeral_2_eq_2)
    qed
  next
    case False
    then have n: "2 \<le> int n" by simp
    then have nn: "4 \<le> int n ^ 2" using power_mono [of 2 "int n" 2] by simp
    have "int n ^ 2 \<le> int x ^ 2" using less.prems nn by linarith
    then have "int n \<le> int x" by (rule power2_le_imp_le) simp
    moreover have "int x < 3 * int n"
      by (rule power2_less_imp_less) (use less.prems nn in \<open>auto simp: power_mult_distrib\<close>)
    ultimately have bounds: "n \<le> x" "x < 3 * n" by linarith+
    have "even d" if "d = 4 \<or> d = - 4" for d :: int using that by auto
    from this [OF less.prems] have "even (int x ^ 2 - 5 * int n ^ 2)" .
    then have parity: "even (x + n)" "even (5 * n + x)" by auto
    define n' where "n' = (x - n) div 2"
    define x' where "x' = (5 * n - x) div 2"
    have n': "2 * int n' = int x - int n"
    proof -
      have "even (x - n)" using parity bounds by simp
      then have "2 * n' = x - n" by (simp add: n'_def)
      with bounds show ?thesis by linarith
    qed
    have x': "2 * int x' = 5 * int n - int x"
    proof -
      have "even (5 * n - x)" using parity bounds by simp
      then have "2 * x' = 5 * n - x" by (simp add: x'_def)
      with bounds show ?thesis by linarith
    qed
    have "4 * (int x' ^ 2 - 5 * int n' ^ 2) = (2 * int x') ^ 2 - 5 * (2 * int n') ^ 2"
      by (simp add: power2_eq_square)
    also have "\<dots> = - 4 * (int x ^ 2 - 5 * int n ^ 2)"
      unfolding n' x' by (simp add: power2_eq_square algebra_simps)
    finally have four: "4 * (int x' ^ 2 - 5 * int n' ^ 2) = - 4 * (int x ^ 2 - 5 * int n ^ 2)" .
    have "a = - b" if "4 * a = - 4 * b" for a b :: int using that by simp
    from this [OF four] have "int x' ^ 2 - 5 * int n' ^ 2 = - (int x ^ 2 - 5 * int n ^ 2)" .
    then have "int x' ^ 2 - 5 * int n' ^ 2 = 4 \<or> int x' ^ 2 - 5 * int n' ^ 2 = - 4"
      using less.prems by (metis minus_minus)
    moreover have "n' < n" using n' bounds by linarith
    ultimately obtain k where k: "n' = fib k" "x' = lucas k" using less.IH by blast
    have "2 * int n = int x' + int n'" "2 * int x = 5 * int n' + int x'" using n' x' by linarith+
    with k fib_lucas_step [of k] have "n = fib (Suc k)" "x = lucas (Suc k)" by linarith+
    then show ?thesis by blast
  qed
qed

lemma fibonacci_square:
  "(\<exists>k. n = fib k) \<longleftrightarrow> (\<exists>x. x ^ 2 = 5 * n ^ 2 + 4) \<or> (\<exists>x. x ^ 2 + 4 = 5 * n ^ 2)"
proof
  assume "\<exists>k. n = fib k"
  then obtain k where k: "n = fib k" ..
  show "(\<exists>x. x ^ 2 = 5 * n ^ 2 + 4) \<or> (\<exists>x. x ^ 2 + 4 = 5 * n ^ 2)"
  proof (cases "even k")
    case True
    then have "int (lucas k ^ 2) = int (5 * n ^ 2 + 4)" using lucas_square [of k] k by simp
    then show ?thesis using of_nat_eq_iff by blast
  next
    case False
    then have "int (lucas k ^ 2 + 4) = int (5 * n ^ 2)" using lucas_square [of k] k by simp
    then show ?thesis using of_nat_eq_iff by blast
  qed
next
  assume "(\<exists>x. x ^ 2 = 5 * n ^ 2 + 4) \<or> (\<exists>x. x ^ 2 + 4 = 5 * n ^ 2)"
  then obtain x where "x ^ 2 = 5 * n ^ 2 + 4 \<or> x ^ 2 + 4 = 5 * n ^ 2" by blast
  then have "int (x ^ 2) = int (5 * n ^ 2 + 4) \<or> int (x ^ 2 + 4) = int (5 * n ^ 2)" by metis
  then have "int x ^ 2 - 5 * int n ^ 2 = 4 \<or> int x ^ 2 - 5 * int n ^ 2 = - 4" by auto
  then show "\<exists>k. n = fib k" using pell_fib by blast
qed

section \<open>Integer square roots\<close>

text \<open>The documented behaviour of \<open>Roots::sqrt\<close>: the truncated principal square root.\<close>

definition floor_sqrt :: "(nat \<Rightarrow> nat) \<Rightarrow> bool" where
  "floor_sqrt isqrt \<longleftrightarrow> (\<forall>n < usize_bound. (isqrt n) ^ 2 \<le> n \<and> n < (isqrt n + 1) ^ 2)"

lemma is_perfect_square_iff:
  assumes "floor_sqrt isqrt" "n < usize_bound"
  shows "is_perfect_square isqrt n \<longleftrightarrow> (\<exists>x. x ^ 2 = n)"
proof
  assume "\<exists>x. x ^ 2 = n"
  then obtain x where x: "x ^ 2 = n" ..
  from assms have "(isqrt n) ^ 2 \<le> x ^ 2" "x ^ 2 < (isqrt n + 1) ^ 2"
    by (auto simp: floor_sqrt_def x)
  then have "isqrt n \<le> x" "x < isqrt n + 1"
    by (auto intro: power2_le_imp_le power2_less_imp_less)
  then have "isqrt n = x" by linarith
  then show "is_perfect_square isqrt n" using x by (simp add: is_perfect_square_def)
qed (auto simp: is_perfect_square_def)

lemma is_fibonacci_defined:
  assumes "floor_sqrt isqrt" "5 * n ^ 2 + 4 < usize_bound"
  shows "is_fibonacci isqrt n =
    Some ((\<exists>x. x ^ 2 = 5 * n ^ 2 + 4) \<or> (\<exists>x. x ^ 2 + 4 = 5 * n ^ 2))"
proof -
  have sq: "5 * n * n = 5 * n ^ 2" by (simp add: power2_eq_square)
  have "5 * n \<le> 5 * n * n" by (cases n) simp_all
  with assms(2) sq have "5 * n < usize_bound" "5 * n ^ 2 < usize_bound" by linarith+
  then have run: "is_fibonacci isqrt n =
      (if is_perfect_square isqrt (5 * n ^ 2 + 4) then Some True
       else if 5 * n ^ 2 < 4 then None else Some (is_perfect_square isqrt (5 * n ^ 2 - 4)))"
    using assms(2) by (simp add: is_fibonacci_def checked_def sq)
  show ?thesis
  proof (cases "5 * n ^ 2 < 4")
    case True
    have "n = 0"
    proof (rule ccontr)
      assume "n \<noteq> 0"
      then have "1 \<le> n ^ 2" by simp
      with True show False by linarith
    qed
    then have "is_perfect_square isqrt (5 * n ^ 2 + 4)"
      using is_perfect_square_iff [OF assms(1), of 4] by (auto intro: exI [of _ 2])
    moreover have "\<exists>x. x ^ 2 = 5 * n ^ 2 + 4" using \<open>n = 0\<close> by (auto intro: exI [of _ 2])
    ultimately show ?thesis using run by simp
  next
    case False
    then have "x ^ 2 = 5 * n ^ 2 - 4 \<longleftrightarrow> x ^ 2 + 4 = 5 * n ^ 2" for x by linarith
    with run False is_perfect_square_iff [OF assms(1), of "5 * n ^ 2 + 4"]
      is_perfect_square_iff [OF assms(1), of "5 * n ^ 2 - 4"] assms(2)
    show ?thesis by simp
  qed
qed

text \<open>A square root to evaluate.\<close>

primrec demo_isqrt :: "nat \<Rightarrow> nat" where
  "demo_isqrt 0 = 0"
| "demo_isqrt (Suc n) = (let r = demo_isqrt n in if (r + 1) ^ 2 = Suc n then r + 1 else r)"

lemma demo_floor_sqrt: "floor_sqrt demo_isqrt"
proof -
  have "(demo_isqrt n) ^ 2 \<le> n \<and> n < (demo_isqrt n + 1) ^ 2" for n
  proof (induction n)
    case (Suc n)
    show ?case
    proof (cases "(demo_isqrt n + 1) ^ 2 = Suc n")
      case True
      then show ?thesis by (simp add: Let_def power2_eq_square)
    next
      case False
      with Suc show ?thesis by (simp add: Let_def)
    qed
  qed simp
  then show ?thesis by (simp add: floor_sqrt_def)
qed

section \<open>Digit sums modulo nine\<close>

lemma digit_sum_loop_bound: "digit_sum_loop acc n \<le> acc + n \<and> digit_sum_loop acc n mod 9 = (acc + n) mod 9"
proof (induction acc n rule: digit_sum_loop.induct)
  case (1 acc n)
  show ?case
  proof (cases "n > 0")
    case True
    have n: "n div 10 * 10 + n mod 10 = n" by (rule div_mult_mod_eq)
    then have "acc + n = acc + n mod 10 + n div 10 + 9 * (n div 10)" by linarith
    then have "(acc + n) mod 9 = (acc + n mod 10 + n div 10) mod 9" by (simp only: mod_mult_self2)
    moreover have "n mod 10 + n div 10 \<le> n" using n by linarith
    moreover have "digit_sum_loop acc n = digit_sum_loop (acc + n mod 10) (n div 10)"
      using True by (subst digit_sum_loop.simps) simp
    ultimately show ?thesis using 1 [OF True] by simp
  qed (simp add: digit_sum_loop.simps)
qed

section \<open>Properties\<close>

text \<open>C37: \<open>is_prime\<close> decides primality: below the square of 4294967291 it returns, and whenever it returns, the
  answer is right. (Above, the loop's \<open>i * i\<close> can overflow.)\<close>

theorem is_prime_correct:
  "(is_prime n = Some r \<longrightarrow> r = prime_number n) \<and>
   (n < 4294967291 * 4294967291 \<longrightarrow> is_prime n = Some (prime_number n))"
proof -
  have "is_prime n \<noteq> None" if "n < 4294967291 * 4294967291"
    using prime_loop_defined [OF that, of 5] by (simp add: is_prime_def del: not_None_eq)
  then show ?thesis using is_prime_iff [of n] by (cases "is_prime n") auto
qed

theorem is_prime_correct_witness: "is_prime 101 = Some (prime_number 101)"
  using is_prime_correct [of 101 True] by simp

text \<open>C38: \<open>is_fibonacci\<close> decides whether a number is a Fibonacci number, for every number whose square times
  five plus four fits a \<open>usize\<close> (beyond, the multiplication overflows), given that the square root is
  the truncated one; in particular the subtraction never underflows.\<close>

theorem is_fibonacci_correct:
  assumes "floor_sqrt isqrt"
  shows "is_fibonacci isqrt n =
    (if 5 * n ^ 2 + 4 < usize_bound then Some (\<exists>k. n = fib k) else None)"
proof (cases "5 * n ^ 2 + 4 < usize_bound")
  case True
  then show ?thesis using is_fibonacci_defined [OF assms True] fibonacci_square [of n] by simp
next
  case False
  have "5 * n * n = 5 * n ^ 2" by (simp add: power2_eq_square)
  with False show ?thesis
    by (auto simp: is_fibonacci_def checked_def)
qed

theorem is_fibonacci_correct_witness: "is_fibonacci demo_isqrt 13 = Some (\<exists>k. 13 = fib k)"
  using is_fibonacci_correct [OF demo_floor_sqrt, of 13] by simp

end
