(* ===== verification/Tests_Evaluators.thy ===== *)
theory Tests_Evaluators
  imports Tests_Core Time_Evaluator Registration_Number
begin

text \<open>
  The unit tests of the evaluators (\<open>src/src/evaluator\<close>), as predicates over what they draw at random or read from
  the clock. The readings of the clock within one test are taken at one instant \<open>now\<close>; the players' UUIDs
  are \<open>u 0\<close>, \<open>u 1\<close> and so on for an injective \<open>u\<close>.
\<close>

section \<open>Results\<close>

definition converts_bool_to_eval_result :: bool where
  "converts_bool_to_eval_result \<longleftrightarrow>
     eval_result_from_bool True = AwardSelf \<and> eval_result_from_bool False = NoAward"

definition converts_option_uuid_to_eval_result :: "uuid \<Rightarrow> bool" where
  "converts_option_uuid_to_eval_result i \<longleftrightarrow>
     eval_result_from_option (Some i) = AwardMultiple [i] \<and> eval_result_from_option None = NoAward"

definition converts_vec_uuid_to_eval_result :: "uuid \<Rightarrow> uuid \<Rightarrow> bool" where
  "converts_vec_uuid_to_eval_result i j \<longleftrightarrow> eval_result_from_vec [i, j] = AwardMultiple [i, j]"

definition converts_option_vec_uuid_to_eval_result :: "uuid \<Rightarrow> bool" where
  "converts_option_vec_uuid_to_eval_result i \<longleftrightarrow>
     eval_result_from_option_vec (Some [i]) = AwardMultiple [i] \<and>
     eval_result_from_option_vec (Some []) = AwardMultiple [] \<and>
     eval_result_from_option_vec None = NoAward"

lemma conversion_tests_pass:
  "converts_bool_to_eval_result" "converts_option_uuid_to_eval_result i"
  "converts_vec_uuid_to_eval_result i j" "converts_option_vec_uuid_to_eval_result i"
  by (simp_all add: converts_bool_to_eval_result_def converts_option_uuid_to_eval_result_def
      converts_vec_uuid_to_eval_result_def converts_option_vec_uuid_to_eval_result_def eval_result_from_bool_def
      eval_result_from_option_def eval_result_from_vec_def eval_result_from_option_vec_def)

section \<open>Minimum bloops and triggers\<close>

definition returns_true_when_enough_bloops :: "uuid \<Rightarrow> datetime \<Rightarrow> bool" where
  "returns_true_when_enough_bloops i now =
     (let ((player, _), st) = mock_build i (mock_builder_bloops_count 5 (mock_player_builder_new (0::nat))) [];
          b = bloop_new mock_player_ops st player ''client1'' now;
          ctx = test_ctx_build (test_ctx_builder_new b :: (unit, nat, unit) test_ctx_builder) st
      in fst (min_bloops_evaluate mock_player_ops (min_bloops_new 3) ctx) = AwardSelf)"

definition returns_false_when_not_enough_bloops :: "uuid \<Rightarrow> datetime \<Rightarrow> bool" where
  "returns_false_when_not_enough_bloops i now =
     (let ((player, _), st) = mock_build i (mock_builder_bloops_count 2 (mock_player_builder_new (0::nat))) [];
          b = bloop_new mock_player_ops st player ''client1'' now;
          ctx = test_ctx_build (test_ctx_builder_new b :: (unit, nat, unit) test_ctx_builder) st
      in fst (min_bloops_evaluate mock_player_ops (min_bloops_new 3) ctx) = NoAward)"

lemma min_bloops_tests_pass:
  "returns_true_when_enough_bloops i now" "returns_false_when_not_enough_bloops i now"
  by (simp_all add: returns_true_when_enough_bloops_def returns_false_when_not_enough_bloops_def
      min_bloops_evaluate_def min_bloops_new_def eval_result_from_bool_def achievement_test_simps
      player_test_simps Let_def)

datatype foo_trigger = Foo | Bar

definition returns_true_when_trigger_is_present :: "uuid \<Rightarrow> datetime \<Rightarrow> datetime \<Rightarrow> bool" where
  "returns_true_when_trigger_is_present i now t =
     (let ((player, _), st) = mock_build i (mock_player_builder_new (0::nat)) [];
          b = bloop_new mock_player_ops st player ''client1'' now;
          registry = trigger_registry_new [(0::nat) \<mapsto> \<lparr>spec_global = False, occurrence = Once, spec_trigger = Foo\<rparr>];
          (_, registry) = try_activate_trigger t 0 ''client1'' registry;
          ctx = test_ctx_build (test_ctx_trigger_registry registry
            (test_ctx_builder_new b :: (unit, nat, unit) test_ctx_builder)) st
      in fst (trigger_evaluate (trigger_evaluator_new Foo) ctx) = AwardSelf)"

definition returns_false_when_trigger_is_missing :: "uuid \<Rightarrow> datetime \<Rightarrow> bool" where
  "returns_false_when_trigger_is_missing i now =
     (let ((player, _), st) = mock_build i (mock_player_builder_new (0::nat)) [];
          b = bloop_new mock_player_ops st player ''client1'' now;
          ctx = test_ctx_build (test_ctx_trigger_registry (trigger_registry_new (Map.empty :: nat \<rightharpoonup> _))
            (test_ctx_builder_new b :: (unit, nat, unit) test_ctx_builder)) st
      in fst (trigger_evaluate (trigger_evaluator_new Bar) ctx) = NoAward)"

lemma trigger_evaluator_tests_pass:
  "returns_true_when_trigger_is_present i now t" "returns_false_when_trigger_is_missing i now"
  by (simp_all add: returns_true_when_trigger_is_present_def returns_false_when_trigger_is_missing_def
      trigger_evaluate_def trigger_evaluator_new_def eval_result_from_bool_def trigger_test_simps
      achievement_test_simps player_test_simps Let_def)

section \<open>Streaks\<close>

text \<open>\<open>make_bloop\<close> makes a bloop of a new player.\<close>

definition make_bloop ::
  "uuid \<Rightarrow> datetime \<Rightarrow> client_id \<Rightarrow> string \<Rightarrow> nat \<Rightarrow> nat mock_player store \<Rightarrow> bloop \<times> nat mock_player store" where
  "make_bloop i now cid name seconds_ago st =
     (let ((player, _), st) = mock_build i (mock_builder_name name (mock_player_builder_new 0)) st
      in (bloop_new mock_player_ops st player cid (now - int (from_secs seconds_ago)), st))"

definition bloops_ctx :: "bloop \<Rightarrow> bloop list \<Rightarrow> nat mock_player store \<Rightarrow>
    (nat mock_player, unit, nat, unit) achievement_context" where
  "bloops_ctx current past st = test_ctx_build (test_ctx_bloops past (test_ctx_builder_new current)) st"

definition streak_award_when_required_matches_are_met :: "(nat \<Rightarrow> uuid) \<Rightarrow> datetime \<Rightarrow> bool" where
  "streak_award_when_required_matches_are_met u now =
     (let ev = streak_build (streak_max_window (from_secs 60) (streak_min_required 2 streak_builder_new))
                 (\<lambda>p. mock_name p = ''foo'');
          (current, st) = make_bloop (u 0) now ''client1'' ''foo'' 0 [];
          (b1, st) = make_bloop (u 1) now ''client1'' ''foo'' 10 st;
          (b2, st) = make_bloop (u 2) now ''client1'' ''foo'' 20 st
      in fst (streak_evaluate ev (bloops_ctx current [b1, b2] st)) = AwardSelf)"

definition streak_award_all_mode_returns_all_player_ids :: "(nat \<Rightarrow> uuid) \<Rightarrow> datetime \<Rightarrow> bool" where
  "streak_award_all_mode_returns_all_player_ids u now =
     (let ev = streak_build (streak_award_all (streak_max_window (from_secs 60)
                 (streak_min_required 3 streak_builder_new))) (\<lambda>p. mock_name p = ''foo'');
          (current, st) = make_bloop (u 0) now ''client1'' ''foo'' 0 [];
          (b1, st) = make_bloop (u 1) now ''client1'' ''foo'' 10 st;
          (b2, st) = make_bloop (u 2) now ''client1'' ''foo'' 20 st;
          (b3, st) = make_bloop (u 3) now ''client1'' ''foo'' 30 st;
          (b4, st) = make_bloop (u 4) now ''client1'' ''foo'' 40 st;
          expected_ids = [player_id current, player_id b1, player_id b2, player_id b3]
      in fst (streak_evaluate ev (bloops_ctx current [b1, b2, b3, b4] st)) = AwardMultiple expected_ids)"

definition streak_predicate_mismatch_leads_to_no_award :: "(nat \<Rightarrow> uuid) \<Rightarrow> datetime \<Rightarrow> bool" where
  "streak_predicate_mismatch_leads_to_no_award u now =
     (let ev = streak_build (streak_max_window (from_secs 60) (streak_min_required 1 streak_builder_new)) (\<lambda>_. False);
          (current, st) = make_bloop (u 0) now ''client1'' ''alice'' 0 [];
          (b1, st) = make_bloop (u 1) now ''client1'' ''alice'' 10 st
      in fst (streak_evaluate ev (bloops_ctx current [b1] st)) = NoAward)"

definition streak_duplicate_player_causes_no_award :: "(nat \<Rightarrow> uuid) \<Rightarrow> datetime \<Rightarrow> bool" where
  "streak_duplicate_player_causes_no_award u now =
     (let ev = streak_build (streak_max_window (from_secs 60) (streak_min_required 2 streak_builder_new))
                 (\<lambda>p. mock_name p = ''bob'');
          (current, st) = make_bloop (u 0) now ''client1'' ''alice'' 0 [];
          (b1, st) = make_bloop (u 1) now ''client1'' ''bob'' 10 st;
          (b2, st) = make_bloop (u 2) now ''client1'' ''bob'' 20 st;
          b2 = b2\<lparr>player_id := player_id b1\<rparr>
      in fst (streak_evaluate ev (bloops_ctx current [b1, b2] st)) = NoAward)"

definition streak_ignores_bloops_outside_time_window :: "(nat \<Rightarrow> uuid) \<Rightarrow> datetime \<Rightarrow> bool" where
  "streak_ignores_bloops_outside_time_window u now =
     (let ev = streak_build (streak_max_window (from_secs 20) (streak_min_required 2 streak_builder_new))
                 (\<lambda>p. mock_name p = ''foo'');
          (current, st) = make_bloop (u 0) now ''client1'' ''foo'' 0 [];
          (b1, st) = make_bloop (u 1) now ''client1'' ''foo'' 30 st
      in fst (streak_evaluate ev (bloops_ctx current [b1] st)) = NoAward)"

definition streak_derived_ctx_supplies_context_to_predicate :: "(nat \<Rightarrow> uuid) \<Rightarrow> datetime \<Rightarrow> bool" where
  "streak_derived_ctx_supplies_context_to_predicate u now =
     (let ev = streak_build_with_derived_ctx (streak_max_window (from_secs 60)
                 (streak_min_required 1 streak_builder_new))
                 (\<lambda>_. Owned [''carol'']) (\<lambda>p allowed. mock_name p \<in> set allowed);
          (current, st) = make_bloop (u 0) now ''client1'' ''bob'' 0 [];
          (b1, st) = make_bloop (u 1) now ''client1'' ''carol'' 10 st
      in fst (streak_evaluate ev (bloops_ctx current [b1] st)) = AwardSelf)"

lemma make_bloop_eq:
  "make_bloop i now cid name s st =
     (\<lparr>player = length st, player_id = i, client_id = cid, recorded_at = now - int (from_secs s)\<rparr>,
      st @ [\<lparr>mock_id = i, mock_nfc_uid = 0, mock_name = name, bloops_count = 0, mock_awarded = Map.empty,
             registration_number = 0\<rparr>])"
  by (simp add: make_bloop_def player_test_simps bloop_new_def)

lemma bloops_ctx_frame:
  "current_bloop (bloops_ctx b past st) = b" "ctx_players (bloops_ctx b past st) = st"
  by (simp_all add: bloops_ctx_def test_ctx_build_def test_ctx_bloops_def test_ctx_builder_new_def
      context_new_def)

lemma bloops_ctx_client:
  "client_bloops (bloops_ctx b past st) = sort_key (\<lambda>x. - recorded_at x) (filter (of_client (client_id b)) past)"
  by (simp add: bloops_ctx_def test_ctx_build_def test_ctx_bloops_def test_ctx_builder_new_def client_bloops_def
      context_new_def for_client_with_bloops filter_sort)

lemma bloops_ctx_recent:
  "recent_client_bloops (bloops_ctx b past st) window n =
     take n (filter (\<lambda>x. recorded_at b - int window \<le> recorded_at x)
       (sort_key (\<lambda>x. - recorded_at x) (filter (of_client (client_id b)) past)))"
  by (simp add: recent_client_bloops_def bloops_ctx_client bloops_ctx_frame filter_within_window_def bloops_since_def)

lemma bloops_ctx_recent_sorted:
  assumes "newest_first past"
  shows "recent_client_bloops (bloops_ctx b past st) window n =
     take n (filter (\<lambda>x. recorded_at b - int window \<le> recorded_at x) (filter (of_client (client_id b)) past))"
proof -
  have "sorted (map (\<lambda>x. - recorded_at x) past)" using assms by (simp add: sorted_wrt_map)
  then have "sort_key (\<lambda>x. - recorded_at x) past = past" by (rule sort_key_id_if_sorted)
  then show ?thesis by (simp add: bloops_ctx_recent filter_sort [symmetric])
qed

lemmas bloops_ctx_simps = make_bloop_eq bloops_ctx_frame bloops_ctx_recent_sorted of_client_def

lemmas streak_test_simps = bloops_ctx_simps streak_build_def streak_build_with_derived_ctx_def streak_max_window_def
  streak_min_required_def streak_builder_new_def streak_award_all_def streak_evaluate_def award_by_mode_def

lemma streak_tests_pass:
  assumes "inj u"
  shows "streak_award_when_required_matches_are_met u now"
    "streak_award_all_mode_returns_all_player_ids u now"
    "streak_predicate_mismatch_leads_to_no_award u now"
    "streak_duplicate_player_causes_no_award u now"
    "streak_ignores_bloops_outside_time_window u now"
    "streak_derived_ctx_supplies_context_to_predicate u now"
  using assms
  by (simp_all add: streak_award_when_required_matches_are_met_def streak_award_all_mode_returns_all_player_ids_def
      streak_predicate_mismatch_leads_to_no_award_def streak_duplicate_player_causes_no_award_def
      streak_ignores_bloops_outside_time_window_def streak_derived_ctx_supplies_context_to_predicate_def
      streak_test_simps inj_eq)

end
