(* ===== verification/Tests_Windows.thy ===== *)
theory Tests_Windows
  imports Tests_Evaluators
begin

text \<open>
  The unit tests of the distinct-values and the spelling-bee evaluator (\<open>distinct_values.rs\<close>, \<open>spelling_bee.rs\<close>), as
  predicates over the players' UUIDs and the clock, like the ones of the theory \<open>Tests_Evaluators\<close>.
\<close>

section \<open>Distinct values\<close>

definition award_when_required_distinct_values_are_met :: "(nat \<Rightarrow> uuid) \<Rightarrow> datetime \<Rightarrow> bool" where
  "award_when_required_distinct_values_are_met u now =
     (let ev = distinct_build (distinct_max_window (from_secs 60) (distinct_min_required 3 distinct_builder_new))
                 (\<lambda>p. Single (mock_name p));
          (current, st) = make_bloop (u 0) now ''client1'' ''alice'' 0 [];
          (b1, st) = make_bloop (u 1) now ''client1'' ''bob'' 10 st;
          (b2, st) = make_bloop (u 2) now ''client1'' ''carol'' 20 st;
          (b3, st) = make_bloop (u 3) now ''client1'' ''dave'' 30 st
      in fst (distinct_values_evaluate ev (bloops_ctx current [b1, b2, b3] st)) = AwardSelf)"

definition award_all_mode_returns_all_player_ids :: "(nat \<Rightarrow> uuid) \<Rightarrow> datetime \<Rightarrow> bool" where
  "award_all_mode_returns_all_player_ids u now =
     (let ev = distinct_build (distinct_award_all (distinct_max_window (from_secs 60)
                 (distinct_min_required 3 distinct_builder_new))) (\<lambda>p. Single (mock_name p));
          (current, st) = make_bloop (u 0) now ''client1'' ''alice'' 0 [];
          (b1, st) = make_bloop (u 1) now ''client1'' ''bob'' 10 st;
          (b2, st) = make_bloop (u 2) now ''client1'' ''carol'' 20 st;
          (b3, st) = make_bloop (u 3) now ''client1'' ''dave'' 30 st;
          (b4, st) = make_bloop (u 4) now ''client1'' ''joe'' 40 st;
          expected_ids = [player_id current, player_id b1, player_id b2, player_id b3]
      in fst (distinct_values_evaluate ev (bloops_ctx current [b1, b2, b3, b4] st)) = AwardMultiple expected_ids)"

definition abort_from_extractor_leads_to_no_award :: "(nat \<Rightarrow> uuid) \<Rightarrow> datetime \<Rightarrow> bool" where
  "abort_from_extractor_leads_to_no_award u now =
     (let ev = distinct_build (distinct_max_window (from_secs 60) (distinct_min_required 1 distinct_builder_new))
                 (\<lambda>_. Abort :: unit extract_result);
          (current, st) = make_bloop (u 0) now ''client1'' ''alice'' 0 [];
          (b1, st) = make_bloop (u 1) now ''client1'' ''bob'' 10 st
      in fst (distinct_values_evaluate ev (bloops_ctx current [b1] st)) = NoAward)"

definition duplicate_player_in_recent_bloops_causes_no_award :: "(nat \<Rightarrow> uuid) \<Rightarrow> datetime \<Rightarrow> bool" where
  "duplicate_player_in_recent_bloops_causes_no_award u now =
     (let ev = distinct_build (distinct_max_window (from_secs 60) (distinct_min_required 2 distinct_builder_new))
                 (\<lambda>p. Single (mock_name p));
          (current, st) = make_bloop (u 0) now ''client1'' ''alice'' 0 [];
          (b1, st) = make_bloop (u 1) now ''client1'' ''bob'' 10 st;
          (b2, st) = make_bloop (u 2) now ''client1'' ''carol'' 10 st;
          b2 = b2\<lparr>player_id := player_id b1\<rparr>
      in fst (distinct_values_evaluate ev (bloops_ctx current [b1, b2] st)) = NoAward)"

definition ignores_bloops_outside_time_window :: "(nat \<Rightarrow> uuid) \<Rightarrow> datetime \<Rightarrow> bool" where
  "ignores_bloops_outside_time_window u now =
     (let ev = distinct_build (distinct_max_window (from_secs 20) (distinct_min_required 2 distinct_builder_new))
                 (\<lambda>p. Single (mock_name p));
          (current, st) = make_bloop (u 0) now ''client1'' ''alice'' 0 [];
          (b1, st) = make_bloop (u 1) now ''client1'' ''bob'' 10 st;
          (b2, st) = make_bloop (u 2) now ''client1'' ''carol'' 30 st
      in fst (distinct_values_evaluate ev (bloops_ctx current [b1, b2] st)) = NoAward)"

definition build_with_derived_ctx_supplies_context_to_extractor :: "(nat \<Rightarrow> uuid) \<Rightarrow> datetime \<Rightarrow> bool" where
  "build_with_derived_ctx_supplies_context_to_extractor u now =
     (let ev = distinct_build_with_derived_ctx (distinct_max_window (from_secs 60)
                 (distinct_min_required 2 distinct_builder_new))
                 (\<lambda>_. Owned [''bob'', ''carol''])
                 (\<lambda>p allowed. if mock_name p \<in> set allowed then Single (mock_name p) else Abort);
          (current, st) = make_bloop (u 0) now ''client1'' ''alice'' 0 [];
          (b1, st) = make_bloop (u 1) now ''client1'' ''bob'' 10 st;
          (b2, st) = make_bloop (u 2) now ''client1'' ''carol'' 20 st
      in fst (distinct_values_evaluate ev (bloops_ctx current [b1, b2] st)) = AwardSelf)"

lemmas distinct_test_simps = bloops_ctx_simps distinct_build_def distinct_build_with_derived_ctx_def
  distinct_max_window_def distinct_min_required_def distinct_builder_new_def distinct_award_all_def
  distinct_values_evaluate_def award_by_mode_def List.insert_def

lemma distinct_values_tests_pass:
  assumes "inj u"
  shows "award_when_required_distinct_values_are_met u now"
    "award_all_mode_returns_all_player_ids u now"
    "abort_from_extractor_leads_to_no_award u now"
    "duplicate_player_in_recent_bloops_causes_no_award u now"
    "ignores_bloops_outside_time_window u now"
    "build_with_derived_ctx_supplies_context_to_extractor u now"
  using assms
  by (simp_all add: award_when_required_distinct_values_are_met_def award_all_mode_returns_all_player_ids_def
      abort_from_extractor_leads_to_no_award_def duplicate_player_in_recent_bloops_causes_no_award_def
      ignores_bloops_outside_time_window_def build_with_derived_ctx_supplies_context_to_extractor_def
      distinct_test_simps inj_eq)

section \<open>Spelling bee\<close>

text \<open>The macro \<open>char_map\<close> inserts its pairs one after the other.\<close>

definition char_map :: "(char \<times> client_id) list \<Rightarrow> (char \<rightharpoonup> client_id)" where
  "char_map pairs = fold (\<lambda>(c, cid) m. m(c \<mapsto> cid)) pairs Map.empty"

definition spelling_make_bloop ::
  "nat mock_player store \<Rightarrow> addr \<Rightarrow> datetime \<Rightarrow> client_id \<Rightarrow> nat \<Rightarrow> bloop" where
  "spelling_make_bloop st a now cid offset_secs =
     bloop_new mock_player_ops st a cid (now - int (from_secs offset_secs))"

definition hey_map :: "char \<rightharpoonup> client_id" where
  "hey_map = char_map [(CHR ''h'', ''client1''), (CHR ''e'', ''client2''), (CHR ''y'', ''client3'')]"

definition abc_map :: "char \<rightharpoonup> client_id" where
  "abc_map = char_map [(CHR ''a'', ''client1''), (CHR ''b'', ''client2''), (CHR ''c'', ''client3'')]"

text \<open>The common part of the tests that evaluate: build the evaluator and apply it to the current bloop of a client and
  the past bloops of the same player.\<close>

definition spelling_test ::
  "uuid \<Rightarrow> datetime \<Rightarrow> string \<Rightarrow> (char \<rightharpoonup> client_id) \<Rightarrow> nat \<Rightarrow> client_id \<Rightarrow> (client_id \<times> nat) list \<Rightarrow> eval_result \<Rightarrow> bool" where
  "spelling_test i now word client_map secs current past expected =
     (let ((player, _), st) = mock_build i (mock_player_builder_new 0) [];
          bs = map (\<lambda>(cid, s). spelling_make_bloop st player now cid s) past;
          ctx = bloops_ctx (spelling_make_bloop st player now current 0) bs st
      in case spelling_bee_new word client_map (from_secs secs) of
           Inl _ \<Rightarrow> False
         | Inr ev \<Rightarrow> fst (spelling_bee_evaluate ev ctx) = expected)"

definition matches_correct_sequence :: "uuid \<Rightarrow> datetime \<Rightarrow> bool" where
  "matches_correct_sequence i now =
     spelling_test i now ''hey'' hey_map 15 ''client3'' [(''client1'', 20), (''client2'', 10)] AwardSelf"

definition matches_correct_sequence_with_prior_bloops :: "uuid \<Rightarrow> datetime \<Rightarrow> bool" where
  "matches_correct_sequence_with_prior_bloops i now =
     spelling_test i now ''hey'' hey_map 25 ''client3''
       [(''client1'', 20), (''client2'', 10), (''client3'', 30)] AwardSelf"

definition fails_on_wrong_order :: "uuid \<Rightarrow> datetime \<Rightarrow> bool" where
  "fails_on_wrong_order i now =
     spelling_test i now ''hey'' hey_map 15 ''client2'' [(''client1'', 20), (''client3'', 10)] NoAward"

definition fails_if_current_id_mismatch :: "uuid \<Rightarrow> datetime \<Rightarrow> bool" where
  "fails_if_current_id_mismatch i now =
     spelling_test i now ''abc'' abc_map 15 ''wrong_client'' [(''client1'', 20), (''client2'', 10)] NoAward"

definition fails_if_too_slow :: "uuid \<Rightarrow> datetime \<Rightarrow> bool" where
  "fails_if_too_slow i now =
     spelling_test i now ''abc'' abc_map 10 ''client3'' [(''client1'', 100), (''client2'', 50)] NoAward"

definition build_fails_if_unregistered_char :: bool where
  "build_fails_if_unregistered_char \<longleftrightarrow>
     spelling_bee_new ''abc'' (char_map [(CHR ''a'', ''client1''), (CHR ''b'', ''client2'')]) (from_secs 5) =
       Inl (UnregisteredCharacter (CHR ''c''))"

definition build_fails_if_word_too_short :: bool where
  "build_fails_if_word_too_short \<longleftrightarrow> spelling_bee_new '''' Map.empty (from_secs 1) = Inl WordTooShort"

definition build_fails_if_word_too_long :: bool where
  "build_fails_if_word_too_long \<longleftrightarrow>
     (let client_map = char_map (map (\<lambda>n. (char_of n, ''client'')) [97 ..< 123 :: nat]);
          long_word = replicate 1000 (CHR ''a'')
      in spelling_bee_new long_word client_map (from_secs 1) = Inl WordTooLong)"

lemma bloops_ctx_global:
  "global_bloops (bloops_ctx b past st) = sort_key (\<lambda>x. - recorded_at x) past"
  by (simp add: bloops_ctx_def test_ctx_build_def test_ctx_bloops_def test_ctx_builder_new_def global_bloops_def
      context_new_def provider_with_bloops_def)

lemma spelling_make_bloop_eq:
  "spelling_make_bloop st a now cid s =
     \<lparr>player = a, player_id = mock_id (st ! a), client_id = cid, recorded_at = now - int (from_secs s)\<rparr>"
  by (simp add: spelling_make_bloop_def bloop_new_def mock_player_ops_def)

lemmas spelling_test_simps = spelling_test_def spelling_make_bloop_eq bloops_ctx_frame bloops_ctx_global
  spelling_bee_new_def spelling_bee_evaluate_def spelling_bee_matches_def utf8_len_def max_duration_def
  char_map_def eval_result_from_bool_def filter_within_window_def bloops_since_def filter_current_player_def
  bloops_for_player_def player_test_simps

lemma spelling_bee_tests_pass:
  "matches_correct_sequence i now" "matches_correct_sequence_with_prior_bloops i now"
  "fails_on_wrong_order i now" "fails_if_current_id_mismatch i now" "fails_if_too_slow i now"
  by (simp_all add: matches_correct_sequence_def matches_correct_sequence_with_prior_bloops_def
      fails_on_wrong_order_def fails_if_current_id_mismatch_def fails_if_too_slow_def hey_map_def abc_map_def
      spelling_test_simps)

lemma spelling_bee_build_tests_pass:
  "build_fails_if_unregistered_char" "build_fails_if_word_too_short" "build_fails_if_word_too_long"
proof -
  show "build_fails_if_unregistered_char" "build_fails_if_word_too_short"
    by (simp_all add: build_fails_if_unregistered_char_def build_fails_if_word_too_short_def spelling_bee_new_def
        utf8_len_def max_duration_def char_map_def)
  have "utf8_len (replicate 1000 (CHR ''a'')) = 1000"
    by (simp add: utf8_len_def sum_list_replicate)
  then show "build_fails_if_word_too_long"
    unfolding build_fails_if_word_too_long_def Let_def spelling_bee_new_def by simp
qed

end
