(* ===== verification/Tests_Numbers.thy ===== *)
theory Tests_Numbers
  imports Tests_Evaluators
begin

text \<open>
  The unit tests of the registration numbers and of the time evaluator (\<open>registration_number.rs\<close>, \<open>time.rs\<close>). The
  integer square root and the time zone are arguments; the tests pass for every square root with its documented
  behaviour and for every zone that follows the rules of Berlin in 2024.
\<close>

section \<open>Registration numbers\<close>

definition returns_true_for_perfect_squares :: "(nat \<Rightarrow> nat) \<Rightarrow> bool" where
  "returns_true_for_perfect_squares isqrt \<longleftrightarrow>
     list_all (\<lambda>n. is_perfect_square isqrt n)
       [0, 1, 4, 9, 16, 25, 36, 49, 64, 81, 100, 121, 144, 1024, 4096, 10000]"

definition returns_false_for_non_squares :: "(nat \<Rightarrow> nat) \<Rightarrow> bool" where
  "returns_false_for_non_squares isqrt \<longleftrightarrow>
     list_all (\<lambda>n. \<not> is_perfect_square isqrt n)
       [2, 3, 5, 6, 8, 10, 26, 50, 63, 65, 99, 101, 123, 10001, 12345]"

definition returns_true_for_primes :: bool where
  "returns_true_for_primes \<longleftrightarrow>
     list_all (\<lambda>n. is_prime n = Some True)
       [2, 3, 5, 7, 11, 13, 17, 19, 23, 29, 31, 37, 41, 43, 47, 101, 997]"

definition returns_false_for_non_primes :: bool where
  "returns_false_for_non_primes \<longleftrightarrow>
     list_all (\<lambda>n. is_prime n = Some False)
       [0, 1, 4, 6, 8, 9, 10, 12, 15, 21, 25, 27, 100, 1024, 4096, 10000]"

definition returns_true_for_fibonacci_numbers :: "(nat \<Rightarrow> nat) \<Rightarrow> bool" where
  "returns_true_for_fibonacci_numbers isqrt \<longleftrightarrow>
     list_all (\<lambda>n. is_fibonacci isqrt n = Some True)
       [0, 1, 2, 3, 5, 8, 13, 21, 34, 55, 89, 144, 233, 377, 610, 987, 1597]"

definition returns_false_for_non_fibonacci_numbers :: "(nat \<Rightarrow> nat) \<Rightarrow> bool" where
  "returns_false_for_non_fibonacci_numbers isqrt \<longleftrightarrow>
     list_all (\<lambda>n. is_fibonacci isqrt n = Some False)
       [4, 6, 7, 9, 10, 11, 12, 14, 15, 22, 100, 200, 1000, 1234, 2024]"

text \<open>A number is decided by its square root, which is found by search.\<close>

lemma is_perfect_square_root:
  assumes "floor_sqrt isqrt" "n < usize_bound" "r ^ 2 \<le> n" "n < (r + 1) ^ 2"
  shows "is_perfect_square isqrt n \<longleftrightarrow> r ^ 2 = n"
proof -
  have "(\<exists>x. x ^ 2 = n) \<longleftrightarrow> r ^ 2 = n"
  proof
    assume "\<exists>x. x ^ 2 = n"
    then obtain x where x: "x ^ 2 = n" ..
    with assms(3,4) have "r \<le> x" "x < r + 1"
      by (auto intro: power2_le_imp_le power2_less_imp_less)
    with x show "r ^ 2 = n" by (metis Suc_eq_plus1 le_antisym less_Suc_eq_le)
  qed auto
  with is_perfect_square_iff [OF assms(1,2)] show ?thesis by simp
qed

function root_search :: "nat \<Rightarrow> nat \<Rightarrow> nat" where
  "root_search n r = (if (r + 1) * (r + 1) \<le> n then root_search n (r + 1) else r)"
  by pat_completeness auto
termination
proof (relation "measure (\<lambda>(n, r). n - r)")
  fix n r :: nat
  assume "(r + 1) * (r + 1) \<le> n"
  moreover have "r + 1 \<le> (r + 1) * (r + 1)" by simp
  ultimately have "r < n" by linarith
  then show "((n, r + 1), n, r) \<in> measure (\<lambda>(n, r). n - r)" by simp
qed simp

declare root_search.simps [simp del]

lemma root_search_bounds: "r * r \<le> n \<Longrightarrow> (root_search n r) ^ 2 \<le> n \<and> n < (root_search n r + 1) ^ 2"
proof (induction n r rule: root_search.induct)
  case (1 n r)
  then show ?case
    by (cases "(r + 1) * (r + 1) \<le> n") (simp_all add: root_search.simps [of n r] power2_eq_square)
qed

lemma is_perfect_square_search:
  assumes "floor_sqrt isqrt" "n < usize_bound"
  shows "is_perfect_square isqrt n \<longleftrightarrow> root_search n 0 * root_search n 0 = n"
  using is_perfect_square_root [OF assms, of "root_search n 0"] root_search_bounds [of 0 n]
  by (simp add: power2_eq_square)

lemma square_tests_pass:
  assumes "floor_sqrt isqrt"
  shows "returns_true_for_perfect_squares isqrt" "returns_false_for_non_squares isqrt"
  by (simp_all add: returns_true_for_perfect_squares_def returns_false_for_non_squares_def
      is_perfect_square_search [OF assms] root_search.simps del: One_nat_def)

lemma prime_tests_pass: "returns_true_for_primes" "returns_false_for_non_primes"
  by (simp_all add: returns_true_for_primes_def returns_false_for_non_primes_def is_prime_def
      prime_loop.simps checked_def)

text \<open>A Fibonacci number is one of the sequence; a number strictly between two neighbours of it is none.\<close>

lemma is_fibonacci_iff_fib:
  assumes "floor_sqrt isqrt" "5 * n ^ 2 + 4 < usize_bound"
  shows "is_fibonacci isqrt n = Some (\<exists>k. n = fib k)"
  unfolding is_fibonacci_defined [OF assms] fibonacci_square ..

lemma is_fibonacci_fib:
  assumes "floor_sqrt isqrt" "5 * (fib k) ^ 2 + 4 < usize_bound"
  shows "is_fibonacci isqrt (fib k) = Some True"
  using is_fibonacci_iff_fib [OF assms] by auto

lemma fib_le_Suc: "fib k \<le> fib (Suc k)"
  by (cases k) simp_all

lemma is_fibonacci_between:
  assumes "floor_sqrt isqrt" "5 * n ^ 2 + 4 < usize_bound" "fib j < n" "n < fib (Suc j)"
  shows "is_fibonacci isqrt n = Some False"
proof -
  have mono: "fib a \<le> fib b" if "a \<le> b" for a b
    using that by (induction b rule: dec_induct) (auto intro: le_trans [OF _ fib_le_Suc])
  have "n \<noteq> fib k" for k
    using mono [of k j] mono [of "Suc j" k] assms(3,4) by (cases "k \<le> j") auto
  then show ?thesis using is_fibonacci_iff_fib [OF assms(1,2)] by simp
qed

lemma fib_values:
  "map fib [0 ..< 19] =
     [0, 1, 1, 2, 3, 5, 8, 13, 21, 34, 55, 89, 144, 233, 377, 610, 987, 1597, 2584]"
  by code_simp

lemma fib_value:
  assumes "k < 19"
  shows "fib k = [0, 1, 1, 2, 3, 5, 8, 13, 21, 34, 55, 89, 144, 233, 377, 610, 987, 1597, 2584] ! k"
proof -
  have "fib k = map fib [0 ..< 19] ! k" using assms by simp
  then show ?thesis by (simp only: fib_values)
qed

lemma fibonacci_tests_pass:
  assumes "floor_sqrt isqrt"
  shows "returns_true_for_fibonacci_numbers isqrt" "returns_false_for_non_fibonacci_numbers isqrt"
proof -
  note yes = is_fibonacci_fib [OF assms] and no = is_fibonacci_between [OF assms]
  show "returns_true_for_fibonacci_numbers isqrt"
    using yes [of 0] yes [of 1] yes [of 3] yes [of 4] yes [of 5] yes [of 6] yes [of 7] yes [of 8] yes [of 9]
      yes [of 10] yes [of 11] yes [of 12] yes [of 13] yes [of 14] yes [of 15] yes [of 16] yes [of 17]
    by (simp add: returns_true_for_fibonacci_numbers_def fib_value del: fib.simps)
  show "returns_false_for_non_fibonacci_numbers isqrt"
    using no [of 4 4] no [of 6 5] no [of 7 5] no [of 9 6] no [of 10 6] no [of 11 6] no [of 12 6] no [of 14 7]
      no [of 15 7] no [of 22 8] no [of 100 11] no [of 200 12] no [of 1000 16] no [of 1234 16] no [of 2024 17]
    by (simp add: returns_false_for_non_fibonacci_numbers_def fib_value del: fib.simps)
qed

section \<open>Times\<close>

text \<open>The number of the day of a date since the epoch in the Gregorian calendar (from 1970 on), and an instant of UTC.\<close>

definition leap_year :: "int \<Rightarrow> bool" where
  "leap_year y \<longleftrightarrow> y mod 4 = 0 \<and> (y mod 100 \<noteq> 0 \<or> y mod 400 = 0)"

definition gregorian_day :: "int \<Rightarrow> nat \<Rightarrow> nat \<Rightarrow> int" where
  "gregorian_day y m d =
     (let leap_years = (\<lambda>n. n div 4 - n div 100 + n div 400)
      in 365 * (y - 1970) + (leap_years (y - 1) - leap_years 1969) +
         [0, 31, 59, 90, 120, 151, 181, 212, 243, 273, 304, 334] ! (m - 1) +
         (if m > 2 \<and> leap_year y then 1 else 0) + int d - 1)"

definition day_time :: "int \<Rightarrow> nat \<times> nat \<times> nat \<Rightarrow> int" where
  "day_time d t = (case t of (h, m, s) \<Rightarrow>
     d * day_ns + int h * hour_ns + int m * minute_ns + int s * 1000000000)"

text \<open>What chrono-tz documents for Berlin in 2024: UTC+1, and UTC+2 between the last Sundays of March and of October
  at 1:00 UTC. A local time is resolved to the instants which have it.\<close>

definition berlin_summer :: "datetime \<Rightarrow> bool" where
  "berlin_summer t \<longleftrightarrow>
     day_time (gregorian_day 2024 3 31) (1, 0, 0) \<le> t \<and> t < day_time (gregorian_day 2024 10 27) (1, 0, 0)"

definition berlin_offset :: "datetime \<Rightarrow> int" where
  "berlin_offset t = (if berlin_summer t then 2 * hour_ns else hour_ns)"

definition berlin_instants :: "int \<Rightarrow> local_result" where
  "berlin_instants local =
     (if berlin_summer (local - 2 * hour_ns) then
        (if berlin_summer (local - hour_ns) then LocalSingle (local - 2 * hour_ns)
         else LocalAmbiguous (local - 2 * hour_ns) (local - hour_ns))
      else if berlin_summer (local - hour_ns) then LocalNone
      else LocalSingle (local - hour_ns))"

definition berlin_2024 :: "timezone \<Rightarrow> bool" where
  "berlin_2024 tz \<longleftrightarrow>
     (\<forall>t h m s. gregorian_day 2024 1 1 * day_ns \<le> t \<and> t < gregorian_day 2025 1 1 * day_ns \<longrightarrow>
        hour_of tz t = hour_of (fixed_offset (berlin_offset t)) t \<and>
        minute_of tz t = minute_of (fixed_offset (berlin_offset t)) t \<and>
        with_time tz t (h, m, s) = berlin_instants (day_time ((t + berlin_offset t) div day_ns) (h, m, s)))"

definition demo_berlin :: timezone where
  "demo_berlin =
     \<lparr>hour_of = (\<lambda>t. hour_of (fixed_offset (berlin_offset t)) t),
      minute_of = (\<lambda>t. minute_of (fixed_offset (berlin_offset t)) t),
      date_of = (\<lambda>t. (t + berlin_offset t) div day_ns),
      with_time = (\<lambda>t hms. berlin_instants (day_time ((t + berlin_offset t) div day_ns) hms))\<rparr>"

lemma demo_berlin_2024: "berlin_2024 demo_berlin"
  by (simp add: berlin_2024_def demo_berlin_def)

text \<open>\<open>with_ymd_and_hms\<close> of a zone: the local time on the local day of noon.\<close>

definition with_ymd_and_hms :: "timezone \<Rightarrow> int \<Rightarrow> nat \<times> nat \<times> nat \<Rightarrow> local_result" where
  "with_ymd_and_hms tz d t = with_time tz (day_time d (12, 0, 0)) t"

definition make_ctx_builder_for_time ::
  "uuid \<Rightarrow> datetime \<Rightarrow> (unit, nat, unit) test_ctx_builder \<times> nat mock_player store" where
  "make_ctx_builder_for_time i dt =
     (let ((player, _), st) = mock_build i (mock_player_builder_new 0) [];
          b = bloop_new mock_player_ops st player ''client1'' dt
      in (test_ctx_builder_new b, st))"

text \<open>The common part of the tests: evaluate at an instant.\<close>

definition time_test ::
  "timezone \<Rightarrow> uuid \<Rightarrow> datetime \<Rightarrow> nat option \<Rightarrow> nat option \<Rightarrow> duration option \<Rightarrow> eval_result \<Rightarrow> bool" where
  "time_test tz i time h m lw expected =
     (let (builder, st) = make_ctx_builder_for_time i time
      in case time_evaluator_new h m lw of
           Inl _ \<Rightarrow> False
         | Inr ev \<Rightarrow> fst (time_evaluate tz ev (test_ctx_build builder st)) = expected)"

definition local_time_test ::
  "timezone \<Rightarrow> uuid \<Rightarrow> nat \<times> nat \<times> nat \<Rightarrow> nat option \<Rightarrow> nat option \<Rightarrow> duration option \<Rightarrow> eval_result \<Rightarrow> bool" where
  "local_time_test tz i t h m lw expected =
     (case with_ymd_and_hms tz (gregorian_day 2024 10 1) t of
        LocalSingle time \<Rightarrow> time_test tz i time h m lw expected
      | LocalAmbiguous _ _ \<Rightarrow> False
      | LocalNone \<Rightarrow> False)"

definition matches_exact_hour_minute :: "timezone \<Rightarrow> uuid \<Rightarrow> bool" where
  "matches_exact_hour_minute tz i = local_time_test tz i (14, 30, 0) (Some 14) (Some 30) None AwardSelf"

definition within_leeway :: "timezone \<Rightarrow> uuid \<Rightarrow> bool" where
  "within_leeway tz i =
     local_time_test tz i (14, 30, 30) (Some 14) (Some 30) (Some (from_secs 60)) AwardSelf"

definition outside_leeway_fails :: "timezone \<Rightarrow> uuid \<Rightarrow> bool" where
  "outside_leeway_fails tz i =
     local_time_test tz i (14, 32, 0) (Some 14) (Some 30) (Some (from_secs 60)) NoAward"

definition with_only_hour :: "timezone \<Rightarrow> uuid \<Rightarrow> bool" where
  "with_only_hour tz i = local_time_test tz i (9, 15, 0) (Some 9) None None AwardSelf"

definition with_only_minute :: "timezone \<Rightarrow> uuid \<Rightarrow> bool" where
  "with_only_minute tz i = local_time_test tz i (22, 45, 0) None (Some 45) None AwardSelf"

definition dst_gap_returns_false :: "timezone \<Rightarrow> uuid \<Rightarrow> bool" where
  "dst_gap_returns_false tz i =
     time_test tz i (day_time (gregorian_day 2024 3 31) (1, 30, 0)) (Some 2) (Some 30) None NoAward"

definition handles_ambiguous_earliest_time :: "timezone \<Rightarrow> uuid \<Rightarrow> bool" where
  "handles_ambiguous_earliest_time tz i =
     time_test tz i (day_time (gregorian_day 2024 10 27) (0, 30, 0)) (Some 2) (Some 30) None AwardSelf"

definition handles_ambiguous_latest_time :: "timezone \<Rightarrow> uuid \<Rightarrow> bool" where
  "handles_ambiguous_latest_time tz i =
     time_test tz i (day_time (gregorian_day 2024 10 27) (1, 30, 0)) (Some 2) (Some 30) None AwardSelf"

text \<open>The dates of the tests.\<close>

lemma gregorian_days:
  "gregorian_day 2024 1 1 = 19723" "gregorian_day 2025 1 1 = 20089"
  "gregorian_day 2024 3 31 = 19813" "gregorian_day 2024 10 1 = 19997" "gregorian_day 2024 10 27 = 20023"
  by (simp_all add: gregorian_day_def leap_year_def)

lemma time_test_eq:
  "time_test tz i time h m lw expected \<longleftrightarrow>
     (case time_evaluator_new h m lw of
        Inl _ \<Rightarrow> False
      | Inr ev \<Rightarrow> eval_result_from_bool (time_matches tz ev time = Some True) = expected)"
  by (simp add: time_test_def make_ctx_builder_for_time_def test_ctx_build_def test_ctx_builder_new_def
      time_evaluate_def context_new_def bloop_new_def player_test_simps split: sum.split)

lemma berlin_at:
  assumes "berlin_2024 tz" "19723 * day_ns \<le> t" "t < 20089 * day_ns"
  shows "hour_of tz t = hour_of (fixed_offset (berlin_offset t)) t"
    "minute_of tz t = minute_of (fixed_offset (berlin_offset t)) t"
    "with_time tz t (h, m, s) = berlin_instants (day_time ((t + berlin_offset t) div day_ns) (h, m, s))"
  using assms unfolding berlin_2024_def gregorian_days by blast+

lemmas time_test_simps = time_test_eq local_time_test_def with_ymd_and_hms_def gregorian_days [unfolded One_nat_def] day_time_def
  berlin_instants_def berlin_offset_def berlin_summer_def fixed_offset_def time_evaluator_new_def
  time_matches_def from_hms_opt_def eval_result_from_bool_def

lemma time_tests_pass:
  assumes "berlin_2024 tz"
  shows "matches_exact_hour_minute tz i" "within_leeway tz i" "outside_leeway_fails tz i"
    "with_only_hour tz i" "with_only_minute tz i" "dst_gap_returns_false tz i"
    "handles_ambiguous_earliest_time tz i" "handles_ambiguous_latest_time tz i"
  by (simp_all add: matches_exact_hour_minute_def within_leeway_def outside_leeway_fails_def
      with_only_hour_def with_only_minute_def dst_gap_returns_false_def handles_ambiguous_earliest_time_def
      handles_ambiguous_latest_time_def time_test_simps berlin_at [OF assms])

end
