(* ===== verification/Tests_Engine.thy ===== *)
theory Tests_Engine
  imports Tests_Core Engine_Correct
begin

text \<open>
  The unit tests of \<open>engine.rs\<close>. The hash function, the file system, the clock and the default
  tag are arguments.
\<close>

section \<open>Engine\<close>

type_synonym 'n test_engine = "(unit, 'n mock_player, unit, 'n, unit) engine"

text \<open>\<open>build().unwrap()\<close> is the engine of the builder, or \<open>None\<close> for a panic.\<close>

definition unwrap_engine :: "builder_error + 'n test_engine \<Rightarrow> 'n test_engine option" where
  "unwrap_engine r = (case r of Inl _ \<Rightarrow> None | Inr e \<Rightarrow> Some e)"

definition build_test_engine ::
  "(u8 list \<Rightarrow> data_hash) \<Rightarrow> (path \<Rightarrow> u8 list option) \<Rightarrow> 'n test_engine option" where
  "build_test_engine md5 fs =
     (let players = registry_new mock_player_ops [] [];
          triggers = trigger_registry_new Map.empty
      in unwrap_engine (engine_build md5 fs ()
           (engine_builder_event_tx [] (engine_builder_network_rx () (engine_builder_trigger_registry triggers
             (engine_builder_player_registry players (engine_builder_audio_base_path ''./audio''
               (engine_builder_bloop_retention (from_secs 3600) engine_builder_new))))))))"

definition handle_bloop_rejects_unknown_nfc_uid ::
  "(u8 list \<Rightarrow> data_hash) \<Rightarrow> (path \<Rightarrow> u8 list option) \<Rightarrow> clock \<Rightarrow> 'n \<Rightarrow> bool" where
  "handle_bloop_rejects_unknown_nfc_uid md5 fs clk unknown_nfc_uid =
     (case build_test_engine md5 fs of
        None \<Rightarrow> False
      | Some e \<Rightarrow> fst (handle_bloop md5 fs mock_player_ops clk unknown_nfc_uid ''test-client'' e) =
          Some (ErrorMessage UnknownNfcUid))"

text \<open>The player of a built one is moved out of its cell into the registry.\<close>

definition add_test_player :: "uuid \<Rightarrow> 'n \<Rightarrow> 'n test_engine \<Rightarrow> 'n test_engine" where
  "add_test_player i nfc e =
     (let ((a, _), st) = mock_build i (mock_builder_nfc_uid nfc (mock_player_builder_new nfc)) []
      in e\<lparr>player_registry := registry_add mock_player_ops (st ! a) (player_registry e)\<rparr>)"

definition handle_bloop_accepts_known_player ::
  "(u8 list \<Rightarrow> data_hash) \<Rightarrow> (path \<Rightarrow> u8 list option) \<Rightarrow> clock \<Rightarrow> uuid \<Rightarrow> 'n \<Rightarrow> bool" where
  "handle_bloop_accepts_known_player md5 fs clk i nfc =
     (case build_test_engine md5 fs of
        None \<Rightarrow> False
      | Some e \<Rightarrow> fst (handle_bloop md5 fs mock_player_ops clk nfc ''test-client'' (add_test_player i nfc e)) =
          Some (BloopAccepted []))"

definition handle_bloop_activates_trigger_and_responds ::
  "(u8 list \<Rightarrow> data_hash) \<Rightarrow> (path \<Rightarrow> u8 list option) \<Rightarrow> clock \<Rightarrow> datetime \<Rightarrow> 'n \<Rightarrow> bool" where
  "handle_bloop_activates_trigger_and_responds md5 fs clk now nfc =
     (let triggers = trigger_registry_new [nfc \<mapsto> \<lparr>spec_global = False, occurrence = Once, spec_trigger = ()\<rparr>];
          players = registry_new mock_player_ops [] []
      in case unwrap_engine (engine_build md5 fs ()
           (engine_builder_event_tx [] (engine_builder_network_rx () (engine_builder_trigger_registry triggers
             (engine_builder_player_registry players (engine_builder_audio_base_path ''./audio''
               (engine_builder_bloop_retention (from_secs 3600) engine_builder_new))))))) of
           None \<Rightarrow> False
         | Some e \<Rightarrow>
             (let (response, e) = handle_bloop md5 fs mock_player_ops clk nfc ''client'' e
              in response = Some (BloopAccepted []) \<and>
                 fst (check_active_trigger () ''client'' now (trigger_registry e))))"

definition handle_bloop_respects_throttling ::
  "(u8 list \<Rightarrow> data_hash) \<Rightarrow> (path \<Rightarrow> u8 list option) \<Rightarrow> clock \<Rightarrow> datetime \<Rightarrow> datetime \<Rightarrow> datetime \<Rightarrow>
   uuid \<Rightarrow> 'n \<Rightarrow> bool" where
  "handle_bloop_respects_throttling md5 fs clk now now_g now_c i nfc =
     (case build_test_engine md5 fs of
        None \<Rightarrow> False
      | Some e \<Rightarrow>
          (let e = add_test_player i nfc e;
               e = e\<lparr>throttle := Some (throttle_new 1 (from_secs 10))\<rparr>
           in case get_by_nfc_uid (player_registry e) nfc of
                None \<Rightarrow> False
              | Some a \<Rightarrow>
                  (let b = bloop_new mock_player_ops (fst (player_registry e)) a ''test-client'' now;
                       e = e\<lparr>bloop_provider := provider_add now_g now_c b (bloop_provider e)\<rparr>
                   in fst (handle_bloop md5 fs mock_player_ops clk nfc ''test-client'' e) =
                        Some (ErrorMessage NfcUidThrottled))))"

lemmas engine_build_simps = unwrap_engine_def engine_build_def engine_builder_event_tx_def
  engine_builder_network_rx_def engine_builder_trigger_registry_def engine_builder_player_registry_def
  engine_builder_audio_base_path_def engine_builder_bloop_retention_def engine_builder_new_def
  calculate_manifest_hash_def audio_entries_def

lemma build_test_engine_some:
  "build_test_engine md5 fs =
     Some \<lparr>bloop_provider = provider_with_bloops (from_secs 3600) [], achievements = [],
           audio_base_path = ''./audio'', audio_manifest_hash = md5 [],
           player_registry = registry_new mock_player_ops [] [], state = (),
           trigger_registry = trigger_registry_new Map.empty, hot_achievements = [], event_tx = [],
           throttle = None\<rparr>"
  by (simp add: build_test_engine_def engine_build_simps)

lemmas engine_test_simps = build_test_engine_some add_test_player_def handle_bloop_def trigger_test_simps
  player_test_simps

lemma engine_rejection_test_passes: "handle_bloop_rejects_unknown_nfc_uid md5 fs clk nfc"
  by (simp add: handle_bloop_rejects_unknown_nfc_uid_def engine_test_simps)

text \<open>Without achievements there are no awards.\<close>

lemma no_achievements_no_awards:
  assumes "achievements e = []" "hot_achievements e = []"
  shows "tracked (final_tracker ops b e) (player_id b) = []"
proof -
  have none: "evaluated ops b e = tracker_new b"
    using assms by (simp add: evaluated_def evaluation_context_def)
  have "awards (tracker_new b) pid = {}" for pid by (simp add: awards_def)
  then have "awards (final_tracker ops b e) (player_id b) = {}"
    unfolding final_tracker_def none using assms
    by (subst awards_remove_duplicates [OF tracker_wf_inject])
      (simp_all add: awards_inject none hot_after_def newly_hot_def tracked_def hot_ids_def
        split: option.split)
  then show ?thesis by (metis set_tracked set_empty)
qed

lemma accept_without_achievements:
  assumes "achievements e = []" "hot_achievements e = []"
  shows "fst (accept_bloop md5 fs ops clk a cid e) = Some (BloopAccepted [])"
  using assms by (simp add: accept_bloop_eq no_achievements_no_awards)

lemma engine_acceptance_test_passes: "handle_bloop_accepts_known_player md5 fs clk i nfc"
  by (simp add: handle_bloop_accepts_known_player_def engine_test_simps accept_without_achievements)

lemma engine_trigger_test_passes: "handle_bloop_activates_trigger_and_responds md5 fs clk now nfc"
  by (simp add: handle_bloop_activates_trigger_and_responds_def engine_test_simps engine_build_simps)

text \<open>The throttling test needs a clock that reads less than ten seconds later.\<close>

lemma engine_throttling_test_passes:
  assumes "now_throttle clk \<le> now + int (from_secs 10)"
    and "now_g \<le> now + int (from_secs 3600)" "now_c \<le> now + int (from_secs 3600)"
  shows "handle_bloop_respects_throttling md5 fs clk now now_g now_c i nfc"
  using assms
  by (simp add: handle_bloop_respects_throttling_def engine_test_simps is_throttled_def throttle_new_def
      for_client_provider_add bloop_new_def provider_with_bloops_def collection_add_def collection_new_def
      bloops_since_def prune_back.simps)

end
