(* ===== verification/Tests_Statistics.thy ===== *)
theory Tests_Statistics
  imports Tests_Numbers Statistics
begin

text \<open>
  The unit tests of \<open>statistics.rs\<close>. The parser of addresses, the encoder of snapshots and the zones other than UTC are
  arguments with the behaviour the tests rely on as hypotheses of the lemmas.
\<close>

section \<open>Counters\<close>

definition make_processed :: "client_id \<Rightarrow> uuid \<Rightarrow> datetime \<Rightarrow> processed_bloop" where
  "make_processed cid i t = \<lparr>pb_player_id = i, pb_client_id = cid, pb_recorded_at = t\<rparr>"

abbreviation UTC :: timezone where
  "UTC \<equiv> fixed_offset 0"

definition minute_index_calculation :: bool where
  "minute_index_calculation \<longleftrightarrow>
     minute_index (day_time 0 (13, 45, 0)) = 13 * 60 + 45 \<and> minute_index (day_time 0 (0, 0, 0)) = 0"

definition record_bloop_basic :: "uuid \<Rightarrow> bool" where
  "record_bloop_basic i =
     (let now = day_time (gregorian_day 2025 7 5) (12, 30, 0);
          st = client_record_bloop UTC (make_processed ''client1'' i now) client_stats_new;
          idx = minute_index now;
          hour = utc_hour now
      in stats_total_bloops st = 1 \<and> per_minute_bloops st ! idx = 1 \<and> per_minute_dates st ! idx = utc_date now \<and>
         bloops_per_hour st ! hour = 1 \<and> map_of (bloops_per_day st) (utc_date now) = Some 1)"

definition record_bloop_accumulation_and_wraparound :: "uuid \<Rightarrow> uuid \<Rightarrow> uuid \<Rightarrow> bool" where
  "record_bloop_accumulation_and_wraparound i j k =
     (let now = day_time (gregorian_day 2025 7 5) (0, 1, 0);
          st = client_record_bloop UTC (make_processed ''client1'' i now) client_stats_new;
          st = client_record_bloop UTC (make_processed ''client1'' j now) st;
          idx = minute_index now;
          yesterday = now - day_ns;
          idx_wrap = minute_index yesterday;
          st' = client_record_bloop UTC (make_processed ''client1'' k yesterday) st
      in per_minute_bloops st ! idx = 2 \<and> per_minute_dates st ! idx = utc_date now \<and>
         per_minute_dates st' ! idx_wrap = utc_date yesterday \<and> per_minute_bloops st' ! idx_wrap = 1)"

text \<open>Three bloops, the second one and the third one a minute and two minutes before the first.\<close>

definition three_minutes :: "uuid \<Rightarrow> uuid \<Rightarrow> uuid \<Rightarrow> datetime \<Rightarrow> client_stats" where
  "three_minutes i j k now =
     (let st = client_record_bloop UTC (make_processed ''c'' i now) client_stats_new;
          st = client_record_bloop UTC (make_processed ''c'' j (now - minute_ns)) st
      in client_record_bloop UTC (make_processed ''c'' k (now - 2 * minute_ns)) st)"

definition count_last_minutes_test :: "uuid \<Rightarrow> uuid \<Rightarrow> uuid \<Rightarrow> bool" where
  "count_last_minutes_test i j k =
     (let now = day_time (gregorian_day 2025 7 5) (10, 0, 0);
          st = three_minutes i j k now
      in count_last_minutes st now 3 = 3 \<and> count_last_minutes st now 1 = 1)"

definition count_last_minutes_across_midnight :: "uuid \<Rightarrow> uuid \<Rightarrow> uuid \<Rightarrow> bool" where
  "count_last_minutes_across_midnight i j k =
     (let now = day_time (gregorian_day 2025 7 6) (0, 1, 0)
      in count_last_minutes (three_minutes i j k now) now 3 = 3)"

definition stats_tracker_snapshot :: "uuid \<Rightarrow> bool" where
  "stats_tracker_snapshot i =
     (let now = day_time (gregorian_day 2025 7 5) (15, 0, 0);
          tr = tracker_record_bloop UTC (make_processed ''client-a'' i now) (stats_tracker_new []);
          snapshot = compute_snapshot now tr
      in case map_of (snapshot_clients snapshot) ''client-a'' of
           None \<Rightarrow> False
         | Some client \<Rightarrow>
             sum_total_bloops client = 1 \<and> bloops_last_hour client \<ge> 1 \<and> bloops_last_24_hours client \<ge> 1 \<and>
             list_ex (\<lambda>x. x \<ge> 1) (sum_bloops_per_hour client) \<and>
             map_of (sum_bloops_per_day client) (utc_date now) \<noteq> None \<and>
             sum_total_bloops (snapshot_global snapshot) = 1)"

definition record_bloop_uses_local_timezone_for_bloops_per_day :: "timezone \<Rightarrow> uuid \<Rightarrow> bool" where
  "record_bloop_uses_local_timezone_for_bloops_per_day tz i =
     (let t = day_time (gregorian_day 2025 7 5) (23, 30, 0);
          st = client_record_bloop tz (make_processed ''client1'' i t) client_stats_new;
          local_date = date_of tz t
      in local_date \<noteq> utc_date t \<and>
         map_of (bloops_per_day st) local_date = Some 1 \<and> map_of (bloops_per_day st) (utc_date t) = None)"

lemma july_days: "gregorian_day 2025 7 5 = 20274" "gregorian_day 2025 7 6 = 20275"
  by (simp_all add: gregorian_day_def leap_year_def)

text \<open>What a bloop does to the ring of minutes, field by field.\<close>

lemma record_ring:
  fixes b :: processed_bloop
  defines "t \<equiv> pb_recorded_at b"
  shows "per_minute_dates (client_record_bloop tz b st) = (per_minute_dates st)[minute_index t := utc_date t]"
    "per_minute_bloops (client_record_bloop tz b st) =
       (per_minute_bloops st)[minute_index t :=
          if per_minute_dates st ! minute_index t = utc_date t
          then saturating_add_u8 (per_minute_bloops st ! minute_index t) 1 else 1]"
    "stats_total_bloops (client_record_bloop tz b st) = stats_total_bloops st + 1"
    "bloops_per_hour (client_record_bloop tz b st) =
       (bloops_per_hour st)[hour_of tz t := bloops_per_hour st ! hour_of tz t + 1]"
    "bloops_per_day (client_record_bloop tz b st) = entry_update 0 (date_of tz t) (\<lambda>n. n + 1) (bloops_per_day st)"
proof -
  have id: "xs ! k = v \<Longrightarrow> xs[k := v] = xs" for xs :: "date list" and k v by auto
  show "per_minute_dates (client_record_bloop tz b st) = (per_minute_dates st)[minute_index t := utc_date t]"
    "per_minute_bloops (client_record_bloop tz b st) =
       (per_minute_bloops st)[minute_index t :=
          if per_minute_dates st ! minute_index t = utc_date t
          then saturating_add_u8 (per_minute_bloops st ! minute_index t) 1 else 1]"
    "stats_total_bloops (client_record_bloop tz b st) = stats_total_bloops st + 1"
    "bloops_per_hour (client_record_bloop tz b st) =
       (bloops_per_hour st)[hour_of tz t := bloops_per_hour st ! hour_of tz t + 1]"
    "bloops_per_day (client_record_bloop tz b st) = entry_update 0 (date_of tz t) (\<lambda>n. n + 1) (bloops_per_day st)"
    unfolding t_def client_record_bloop_def Let_def minute_index_def [symmetric] by (simp_all add: id)
qed

lemma new_ring:
  "per_minute_dates client_stats_new = replicate 1440 naive_date_min"
  "per_minute_bloops client_stats_new = replicate 1440 0"
  "stats_total_bloops client_stats_new = 0" "bloops_per_hour client_stats_new = replicate 24 0"
  "bloops_per_day client_stats_new = []"
  by (simp_all add: client_stats_new_def)

lemmas counter_test_simps = july_days day_time_def make_processed_def record_ring new_ring
  utc_date_def utc_hour_def utc_minute_def minute_index_def fixed_offset_def naive_date_min_def
  saturating_add_u8_def

lemma minute_index_test_passes: "minute_index_calculation"
  by (simp add: minute_index_calculation_def counter_test_simps)

lemma record_bloop_basic_passes: "record_bloop_basic i"
  by (simp add: record_bloop_basic_def counter_test_simps)

lemmas time_simps = july_days day_time_def utc_date_def utc_hour_def utc_minute_def minute_index_def

lemma wraparound_test_passes: "record_bloop_accumulation_and_wraparound i j k"
proof -
  let ?now = "day_time (gregorian_day 2025 7 5) (0, 1, 0)"
  have at: "minute_index ?now = 1" "utc_date ?now = 20274"
    "minute_index (?now - day_ns) = 1" "utc_date (?now - day_ns) = 20273"
    by (simp_all add: time_simps)
  show ?thesis
    unfolding record_bloop_accumulation_and_wraparound_def Let_def at record_ring make_processed_def
      processed_bloop.select_convs
    by (simp add: new_ring naive_date_min_def saturating_add_u8_def)
qed

text \<open>The number of the last three minutes, when the second and the third are in the given buckets.\<close>

lemma count_three:
  assumes "minute_index now = x" "(x + 1439) mod 1440 = y" "(x + 1438) mod 1440 = z" "x < 1440"
  shows "count_last_minutes st now 3 =
     (if per_minute_dates st ! x = utc_date now then ucast (per_minute_bloops st ! x) else 0) +
     (if per_minute_dates st ! y = utc_date (now - minute_ns) then ucast (per_minute_bloops st ! y) else 0) +
     (if per_minute_dates st ! z = utc_date (now - 2 * minute_ns) then ucast (per_minute_bloops st ! z) else 0)"
  unfolding count_last_minutes_def minute_index_def [symmetric] assms(1) Let_def
  using assms(2-4) by (simp add: upt_rec add.commute)

lemma count_one:
  assumes "minute_index now = x" "x < 1440"
  shows "count_last_minutes st now 1 =
     (if per_minute_dates st ! x = utc_date now then ucast (per_minute_bloops st ! x) else 0)"
  unfolding count_last_minutes_def minute_index_def [symmetric] assms(1) Let_def
  using assms(2) by (simp add: upt_rec)

lemma three_minutes_ring:
  assumes "minute_index now = x" "minute_index (now - minute_ns) = y" "minute_index (now - 2 * minute_ns) = z"
    and "x < 1440" "y < 1440" "z < 1440" "x \<noteq> y" "y \<noteq> z" "x \<noteq> z"
    and "naive_date_min < utc_date (now - 2 * minute_ns)" "naive_date_min < utc_date (now - minute_ns)"
    and "naive_date_min < utc_date now"
  shows "per_minute_dates (three_minutes i j k now) ! x = utc_date now"
    "per_minute_dates (three_minutes i j k now) ! y = utc_date (now - minute_ns)"
    "per_minute_dates (three_minutes i j k now) ! z = utc_date (now - 2 * minute_ns)"
    "per_minute_bloops (three_minutes i j k now) ! x = 1" "per_minute_bloops (three_minutes i j k now) ! y = 1"
    "per_minute_bloops (three_minutes i j k now) ! z = 1"
  using assms
  by (simp_all add: three_minutes_def Let_def make_processed_def record_ring new_ring nth_list_update)

lemma three_minutes_test_passes: "count_last_minutes_test i j k"
proof -
  let ?now = "day_time (gregorian_day 2025 7 5) (10, 0, 0)"
  have at: "minute_index ?now = 600" "minute_index (?now - minute_ns) = 599" "minute_index (?now - 2 * minute_ns) = 598"
    by (simp_all add: time_simps)
  note ring = three_minutes_ring [OF at, of i j k]
  show ?thesis
    using count_three [OF at(1), of 599 598 "three_minutes i j k ?now"] count_one [OF at(1), of "three_minutes i j k ?now"]
      ring by (simp add: count_last_minutes_test_def time_simps naive_date_min_def)
qed

lemma midnight_test_passes: "count_last_minutes_across_midnight i j k"
proof -
  let ?now = "day_time (gregorian_day 2025 7 6) (0, 1, 0)"
  have at: "minute_index ?now = 1" "minute_index (?now - minute_ns) = 0" "minute_index (?now - 2 * minute_ns) = 1439"
    by (simp_all add: time_simps)
  note ring = three_minutes_ring [OF at, of i j k]
  show ?thesis
    using count_three [OF at(1), of 0 1439 "three_minutes i j k ?now"] ring
    by (simp add: count_last_minutes_across_midnight_def time_simps naive_date_min_def)
qed

text \<open>A single bloop is counted in every window that ends with it.\<close>

lemma single_bloop_counted:
  assumes "0 < n" "n \<le> 1440"
  shows "1 \<le> count_last_minutes (client_record_bloop tz b client_stats_new) (pb_recorded_at b) n"
proof -
  have spec: "client_stats_spec [b] (client_record_bloop tz b client_stats_new)"
    using client_stats_spec_fold [of "[b]" tz] by simp
  let ?f = "\<lambda>i. min 255 (minute_count [b] (abs_minute (pb_recorded_at b) - int i))"
  have "?f 0 \<le> (\<Sum>i\<leftarrow>[0..<n]. ?f i)"
    using assms(1) by (intro member_le_sum_list) (auto simp: image_iff intro: bexI [of _ 0])
  moreover have "?f 0 = 1" by (simp add: minute_count_def bloop_minute_def)
  ultimately show ?thesis
    using unat_count_last_minutes [OF spec assms(2), of "pb_recorded_at b"] by (simp add: word_le_nat_alt)
qed

lemma compute_snapshot_single:
  "snapshot_clients (compute_snapshot now (stats_tracker_new [(cid, st)])) = [(cid, summary_of now st)]"
  "sum_total_bloops (snapshot_global (compute_snapshot now (stats_tracker_new [(cid, st)]))) = stats_total_bloops st"
  by (simp_all add: compute_snapshot_def stats_tracker_new_def Let_def summary_of_def add_summary_def)

lemma tracker_record_first:
  "tracker_record_bloop tz b (stats_tracker_new []) =
     stats_tracker_new [(pb_client_id b, client_record_bloop tz b client_stats_new)]"
  by (simp add: tracker_record_bloop_def stats_tracker_new_def entry_update_def)

lemma snapshot_test_passes: "stats_tracker_snapshot i"
proof -
  let ?now = "day_time (gregorian_day 2025 7 5) (15, 0, 0)"
  let ?b = "make_processed ''client-a'' i ?now"
  let ?st = "client_record_bloop UTC ?b client_stats_new"
  have b: "pb_recorded_at ?b = ?now" "pb_client_id ?b = ''client-a''" by (simp_all add: make_processed_def)
  have counts: "1 \<le> count_last_minutes ?st ?now 60" "1 \<le> count_last_minutes ?st ?now 1440"
    using single_bloop_counted [of 60 UTC ?b] single_bloop_counted [of 1440 UTC ?b] by (simp_all add: b)
  have "hour_of UTC ?now = 15" "date_of UTC ?now = utc_date ?now"
    by (simp_all add: fixed_offset_def time_simps)
  then have fields: "stats_total_bloops ?st = 1" "1 \<in> set (bloops_per_hour ?st)"
    "map_of (bloops_per_day ?st) (utc_date ?now) \<noteq> None"
    by (simp_all add: record_ring new_ring b set_update_memI)
  show ?thesis
    unfolding stats_tracker_snapshot_def Let_def tracker_record_first compute_snapshot_single b
    using counts fields by (auto simp: summary_of_def list_ex_iff)
qed

text \<open>In a zone three hours ahead, as Helsinki is in summer, half past eleven is on the next day.\<close>

lemma local_day_test_passes:
  assumes "date_of tz (day_time (gregorian_day 2025 7 5) (23, 30, 0)) =
      date_of (fixed_offset (3 * hour_ns)) (day_time (gregorian_day 2025 7 5) (23, 30, 0))"
  shows "record_bloop_uses_local_timezone_for_bloops_per_day tz i"
  using assms
  by (simp add: record_bloop_uses_local_timezone_for_bloops_per_day_def record_ring new_ring make_processed_def
      time_simps fixed_offset_def)

section \<open>The server\<close>

definition dummy_stats :: "(client_id \<times> client_stats) list" where
  "dummy_stats = [(''client1'', client_stats_new)]"

definition build_succeeds_with_all_fields :: "(string \<Rightarrow> 'a option) \<Rightarrow> timezone \<Rightarrow> bool" where
  "build_succeeds_with_all_fields parse_addr london =
     (case stats_build parse_addr (stats_builder_event_rx () (stats_builder_stats dummy_stats
             (stats_builder_tz london (stats_builder_address ''127.0.0.1:12345'' stats_builder_new)))) of
        Inl _ \<Rightarrow> False
      | Inr srv \<Rightarrow> parse_addr ''127.0.0.1:12345'' = Some (server_addr srv) \<and> server_tz srv = london)"

definition build_fails_if_addr_missing :: "(string \<Rightarrow> 'a option) \<Rightarrow> bool" where
  "build_fails_if_addr_missing parse_addr \<longleftrightarrow>
     stats_build parse_addr (stats_builder_event_rx () (stats_builder_stats dummy_stats stats_builder_new)) =
       Inl (StatsMissingField ''address'')"

definition build_fails_if_event_rx_missing :: "(string \<Rightarrow> 'a option) \<Rightarrow> bool" where
  "build_fails_if_event_rx_missing parse_addr \<longleftrightarrow>
     stats_build parse_addr (stats_builder_stats dummy_stats
         (stats_builder_address ''127.0.0.1:12345'' stats_builder_new)) =
       Inl (StatsMissingField ''event_rx'')"

definition build_defaults_tz_to_utc :: "(string \<Rightarrow> 'a option) \<Rightarrow> bool" where
  "build_defaults_tz_to_utc parse_addr =
     (case stats_build parse_addr (stats_builder_event_rx () (stats_builder_stats dummy_stats
             (stats_builder_address ''127.0.0.1:12345'' stats_builder_new))) of
        Inl _ \<Rightarrow> False
      | Inr srv \<Rightarrow> server_tz srv = UTC)"

text \<open>The server listens in a task of its own; the notification is awaited after it has taken the event.\<close>

definition server_handles_bloop_processed_event ::
  "(string \<Rightarrow> 'a option) \<Rightarrow> uuid \<Rightarrow> datetime \<Rightarrow> datetime \<Rightarrow> bool" where
  "server_handles_bloop_processed_event parse_addr i t now =
     (case stats_build parse_addr (stats_builder_event_rx () (stats_builder_stats []
             (stats_builder_tz UTC (stats_builder_address ''127.0.0.1:12345'' stats_builder_new)))) of
        Inl _ \<Rightarrow> False
      | Inr srv \<Rightarrow>
          (let (_, srv) = stats_listen (None :: unit option) [Recv (Inr (BloopProcessed (make_processed ''client'' i t)))] srv;
               snapshot = fst (tracker_snapshot now (server_stats srv))
           in case map_of (snapshot_clients snapshot) ''client'' of
                None \<Rightarrow> False
              | Some client \<Rightarrow> sum_total_bloops client = 1))"

definition server_serves_stats_over_http ::
  "(string \<Rightarrow> 'a option) \<Rightarrow> (stats_snapshot \<Rightarrow> 'j option) \<Rightarrow> string \<Rightarrow> uuid \<Rightarrow> datetime \<Rightarrow> datetime \<Rightarrow> bool" where
  "server_serves_stats_over_http parse_addr to_json local_addr i t now =
     (case stats_build parse_addr (stats_builder_event_rx () (stats_builder_address local_addr stats_builder_new)) of
        Inl _ \<Rightarrow> False
      | Inr srv \<Rightarrow>
          (let (_, srv) = stats_listen (None :: unit option) [Recv (Inr (BloopProcessed (make_processed ''client'' i t)))] srv
           in case fst (serve_request to_json now (server_stats srv)) of
                HttpOk _ \<Rightarrow> True
              | HttpError _ \<Rightarrow> False))"

lemmas stats_build_simps = stats_build_def stats_builder_event_rx_def stats_builder_stats_def stats_builder_tz_def
  stats_builder_address_def stats_builder_new_def

lemma stats_builder_tests_pass:
  assumes "parse_addr ''127.0.0.1:12345'' \<noteq> None"
  shows "build_succeeds_with_all_fields parse_addr london" "build_fails_if_addr_missing parse_addr"
    "build_fails_if_event_rx_missing parse_addr" "build_defaults_tz_to_utc parse_addr"
  using assms
  by (auto simp: build_succeeds_with_all_fields_def build_fails_if_addr_missing_def
      build_fails_if_event_rx_missing_def build_defaults_tz_to_utc_def stats_build_simps)

lemma server_event_test_passes:
  assumes "parse_addr ''127.0.0.1:12345'' \<noteq> None"
  shows "server_handles_bloop_processed_event parse_addr i t now"
proof -
  let ?b = "make_processed ''client'' i t"
  have b: "pb_client_id ?b = ''client''" by (simp add: make_processed_def)
  have none: "cached_snapshot (stats_tracker_new cs) = None" for cs by (simp add: stats_tracker_new_def)
  show ?thesis
    using assms
    by (auto simp: server_handles_bloop_processed_event_def stats_build_simps stats_listen_def stats_loop_def
        tracker_record_first tracker_snapshot_def none compute_snapshot_single b summary_of_def record_ring new_ring
        Let_def)
qed

lemma server_http_test_passes:
  assumes "parse_addr local_addr \<noteq> None" "\<And>s. to_json s \<noteq> None"
  shows "server_serves_stats_over_http parse_addr to_json local_addr i t now"
proof -
  have "\<exists>body. fst (serve_request to_json now tr) = HttpOk body" for tr
    using assms(2) [of "fst (tracker_snapshot now tr)"]
    by (auto simp: serve_request_def Let_def split: prod.split)
  then show ?thesis
    using assms(1)
    by (auto simp: server_serves_stats_over_http_def stats_build_simps split: prod.split http_response.split)
      (metis http_response.distinct(1))
qed

end
