(* ===== verification/Tests_Network.thy ===== *)
theory Tests_Network
  imports Network
begin

text \<open>
  The unit tests of \<open>network.rs\<close>. What the client sends are the bytes the tests send; how the protocol crate reads
  them, the password check of argon2 and the operations of the builder on files are arguments, and what
  the tests rely on are the hypotheses of the lemmas. What the server writes is compared as messages, before the
  crate encodes them. A pipe never fails to write.
\<close>

section \<open>The builder\<close>

type_synonym test_builder = "(client_id \<rightharpoonup> unit, unit, unit, unit) net_builder"

definition builder_fails_with_missing_fields ::
  "(string \<Rightarrow> 'a option) \<Rightarrow> (path \<Rightarrow> 'pe + 'certs) \<Rightarrow> (path \<Rightarrow> 'pe + 'key) \<Rightarrow> ('certs \<Rightarrow> 'key \<Rightarrow> 'te + 'tls) \<Rightarrow> bool" where
  "builder_fails_with_missing_fields parse_addr read_certs read_key tls_config =
     (case net_build parse_addr read_certs read_key tls_config
             (net_builder_new :: test_builder) of
        Inl (NetMissingField _) \<Rightarrow> True
      | _ \<Rightarrow> False)"

text \<open>The builder of the other tests.\<close>

definition full_builder :: "string \<Rightarrow> path \<Rightarrow> path \<Rightarrow> test_builder" where
  "full_builder address cert_path key_path =
     net_builder_event_tx () (net_builder_engine_tx () (net_builder_clients Map.empty
       (net_builder_key_path key_path (net_builder_cert_path cert_path
         (net_builder_address address net_builder_new)))))"

definition builder_fails_with_invalid_address ::
  "(string \<Rightarrow> 'a option) \<Rightarrow> (path \<Rightarrow> 'pe + 'certs) \<Rightarrow> (path \<Rightarrow> 'pe + 'key) \<Rightarrow> ('certs \<Rightarrow> 'key \<Rightarrow> 'te + 'tls) \<Rightarrow> bool" where
  "builder_fails_with_invalid_address parse_addr read_certs read_key tls_config =
     (case net_build parse_addr read_certs read_key tls_config (full_builder ''invalid-addr'' ''cert.pem'' ''key.pem'') of
        Inl AddrParse \<Rightarrow> True
      | _ \<Rightarrow> False)"

definition builder_fails_on_invalid_pem_files ::
  "(string \<Rightarrow> 'a option) \<Rightarrow> (path \<Rightarrow> 'pe + 'certs) \<Rightarrow> (path \<Rightarrow> 'pe + 'key) \<Rightarrow> ('certs \<Rightarrow> 'key \<Rightarrow> 'te + 'tls) \<Rightarrow>
   path \<Rightarrow> path \<Rightarrow> bool" where
  "builder_fails_on_invalid_pem_files parse_addr read_certs read_key tls_config cert_path key_path =
     (case net_build parse_addr read_certs read_key tls_config (full_builder ''127.0.0.1:12345'' cert_path key_path) of
        Inl (Pem _ _) \<Rightarrow> True
      | _ \<Rightarrow> False)"

definition builder_succeeds_with_valid_dummy_pem ::
  "(string \<Rightarrow> 'a option) \<Rightarrow> (path \<Rightarrow> 'pe + 'certs) \<Rightarrow> (path \<Rightarrow> 'pe + 'key) \<Rightarrow> ('certs \<Rightarrow> 'key \<Rightarrow> 'te + 'tls) \<Rightarrow>
   path \<Rightarrow> path \<Rightarrow> bool" where
  "builder_succeeds_with_valid_dummy_pem parse_addr read_certs read_key tls_config cert_path key_path =
     (case net_build parse_addr read_certs read_key tls_config (full_builder ''127.0.0.1:12345'' cert_path key_path) of
        Inr _ \<Rightarrow> True
      | Inl _ \<Rightarrow> False)"

lemmas net_build_simps = net_build_def full_builder_def net_builder_event_tx_def net_builder_engine_tx_def
  net_builder_clients_def net_builder_key_path_def net_builder_cert_path_def net_builder_address_def
  net_builder_new_def

lemma net_builder_tests_pass:
  "builder_fails_with_missing_fields parse_addr read_certs read_key tls_config"
  "parse_addr ''invalid-addr'' = None \<Longrightarrow>
     builder_fails_with_invalid_address parse_addr read_certs read_key tls_config"
  "parse_addr ''127.0.0.1:12345'' \<noteq> None \<Longrightarrow> read_certs cert = Inl e \<Longrightarrow>
     builder_fails_on_invalid_pem_files parse_addr read_certs read_key tls_config cert key"
  "parse_addr ''127.0.0.1:12345'' \<noteq> None \<Longrightarrow> read_certs cert = Inr c \<Longrightarrow> read_key key = Inr k \<Longrightarrow>
     tls_config c k = Inr tls \<Longrightarrow>
     builder_succeeds_with_valid_dummy_pem parse_addr read_certs read_key tls_config cert key"
  by (auto simp: builder_fails_with_missing_fields_def builder_fails_with_invalid_address_def
      builder_fails_on_invalid_pem_files_def builder_succeeds_with_valid_dummy_pem_def net_build_simps)

section \<open>Frames\<close>

definition to_le_bytes :: "u32 \<Rightarrow> u8 list" where
  "to_le_bytes w = map (\<lambda>k. ucast (drop_bit (8 * k) w)) [0..<4]"

definition as_bytes :: "string \<Rightarrow> u8 list" where
  "as_bytes s = map (\<lambda>c. of_nat (of_char c)) s"

definition build_handshake :: "u8 \<Rightarrow> u8 \<Rightarrow> u8 list" where
  "build_handshake min_version max_version =
     (let payload = [min_version, max_version]
      in [0x01] @ to_le_bytes (of_nat (length payload)) @ payload)"

fun octets :: "ip_addr \<Rightarrow> u8 list" where
  "octets (V4 a) = 4 # rev (map (\<lambda>k. ucast (drop_bit (8 * k) a)) [0..<4])"
| "octets (V6 a) = 6 # rev (map (\<lambda>k. ucast (drop_bit (8 * k) a)) [0..<16])"

definition build_authentication :: "client_id \<Rightarrow> string \<Rightarrow> ip_addr \<Rightarrow> u8 list" where
  "build_authentication cid password ip =
     (let payload = [of_nat (length cid)] @ as_bytes cid @ [of_nat (length password)] @ as_bytes password @ octets ip
      in [0x03] @ to_le_bytes (of_nat (length payload)) @ payload)"

text \<open>The bytes of the tests, and the address 127.0.0.1.\<close>

abbreviation localhost :: ip_addr where
  "localhost \<equiv> V4 0x7f000001"

lemma handshake_bytes: "build_handshake 3 3 = [0x01, 2, 0, 0, 0, 3, 3]"
  by code_simp

lemma authentication_bytes:
  "build_authentication ''client'' ''secret'' localhost =
     [0x03, 19, 0, 0, 0, 6, 99, 108, 105, 101, 110, 116, 6, 115, 101, 99, 114, 101, 116, 4, 127, 0, 0, 1]"
  by code_simp

section \<open>Authentication\<close>

type_synonym ('raw, 'n, 'req, 'res, 'h) test_env = "(u8 list, 'raw, 'n, 'req, 'res, unit, unit, 'h) net_env"

definition test_clients :: "'h \<Rightarrow> (client_id \<rightharpoonup> 'h)" where
  "test_clients secret_hash = [''client'' \<mapsto> secret_hash]"

text \<open>The handshake of version 3 and an authentication, and the result with what is written.\<close>

definition authenticate_with ::
  "('raw, 'n, 'req, 'res, 'h) test_env \<Rightarrow> (client_id \<rightharpoonup> 'h) \<Rightarrow> client_id \<Rightarrow> string \<Rightarrow>
   'raw auth_result \<times> 'res net_output list" where
  "authenticate_with env clients cid password =
     (let (result, _, out) = authenticate env clients default_max_payload_len
            [ReadFrame (build_handshake 3 3), ReadFrame (build_authentication cid password localhost)] []
      in (result, out))"

definition authentication_fails_with_wrong_client_id :: "('raw, 'n, 'req, 'res, 'h) test_env \<Rightarrow> bool" where
  "authentication_fails_with_wrong_client_id env \<longleftrightarrow>
     authenticate_with env Map.empty ''unknown-client'' ''password'' =
       (AuthErr InvalidCredentialsErr, [OutServerHandshake 3])"

definition authentication_succeeds_with_correct_credentials :: "('raw, 'n, 'req, 'res, 'h) test_env \<Rightarrow> 'h \<Rightarrow> bool" where
  "authentication_succeeds_with_correct_credentials env secret_hash =
     (case authenticate_with env (test_clients secret_hash) ''client'' ''secret'' of
        (AuthOk _ _ _, out) \<Rightarrow> out = [OutServerHandshake 3, OutAuthenticationAccepted]
      | _ \<Rightarrow> False)"

definition authentication_fails_with_wrong_password :: "('raw, 'n, 'req, 'res, 'h) test_env \<Rightarrow> 'h \<Rightarrow> bool" where
  "authentication_fails_with_wrong_password env secret_hash \<longleftrightarrow>
     authenticate_with env (test_clients secret_hash) ''client1'' ''wrong-secret'' =
       (AuthErr InvalidCredentialsErr, [OutServerHandshake 3])"

text \<open>The documented behaviour of the crate on the bytes of the tests, and of a pipe.\<close>

definition reads_as ::
  "('raw, 'n, 'req, 'res, 'h) test_env \<Rightarrow> u8 list \<Rightarrow> ('n, 'req) client_message \<Rightarrow> bool" where
  "reads_as env bytes message \<longleftrightarrow> read_message env default_max_payload_len bytes = Inr message"

definition auth_frames :: "(u8 list \<times> ('n, 'req) client_message) list" where
  "auth_frames =
     (build_handshake 3 3, ClientHandshake 3 3) #
     map (\<lambda>(cid, password). (build_authentication cid password localhost, Authentication cid password localhost))
       [(''unknown-client'', ''password''), (''client'', ''secret''), (''client1'', ''wrong-secret'')]"

definition reads_handshakes :: "('raw, 'n, 'req, 'res, 'h) test_env \<Rightarrow> bool" where
  "reads_handshakes env \<longleftrightarrow> list_all (\<lambda>(bytes, message). reads_as env bytes message) auth_frames"

definition writes_succeed :: "('raw, 'n, 'req, 'res, 'h) test_env \<Rightarrow> bool" where
  "writes_succeed env \<longleftrightarrow> (\<forall>n message. write_error env n message = None \<and> \<not> write_stalls env n message)"

lemma authenticate_with_eq:
  assumes "reads_handshakes env" "writes_succeed env"
    and "reads_as env (build_authentication cid password localhost) (Authentication cid password localhost)"
  shows "authenticate_with env clients cid password =
    (if \<exists>h. clients cid = Some h \<and> verify_password env password h
     then (AuthOk cid localhost 3, [OutServerHandshake 3, OutAuthenticationAccepted])
     else (AuthErr InvalidCredentialsErr, [OutServerHandshake 3]))"
  using assms
  by (simp add: authenticate_with_def authenticate_def auth_read_def reads_handshakes_def auth_frames_def reads_as_def
      writes_succeed_def write_output_def auth_write_def split: option.split)

lemma reads_authentication:
  assumes "reads_handshakes env"
  shows "reads_as env (build_authentication ''unknown-client'' ''password'' localhost)
      (Authentication ''unknown-client'' ''password'' localhost)"
    "reads_as env (build_authentication ''client'' ''secret'' localhost) (Authentication ''client'' ''secret'' localhost)"
    "reads_as env (build_authentication ''client1'' ''wrong-secret'' localhost)
      (Authentication ''client1'' ''wrong-secret'' localhost)"
    "reads_as env (build_handshake 3 3) (ClientHandshake 3 3)"
  using assms by (simp_all add: reads_handshakes_def auth_frames_def)

lemma authentication_tests_pass:
  assumes "reads_handshakes env" "writes_succeed env"
  shows "authentication_fails_with_wrong_client_id env"
    "verify_password env ''secret'' h \<Longrightarrow> authentication_succeeds_with_correct_credentials env h"
    "authentication_fails_with_wrong_password env h"
  using assms
  by (simp_all add: authentication_fails_with_wrong_client_id_def authentication_succeeds_with_correct_credentials_def
      authentication_fails_with_wrong_password_def authenticate_with_eq reads_authentication test_clients_def)

text \<open>The last of them passes whatever the password check answers, since the client it tries is not registered:
  it does not test the password.\<close>

lemma wrong_password_test_ignores_passwords:
  assumes "reads_handshakes env" "writes_succeed env"
  shows "authentication_fails_with_wrong_password (env\<lparr>verify_password := \<lambda>_ _. True\<rparr>) h"
proof -
  have "read_message (env\<lparr>verify_password := \<lambda>_ _. True\<rparr>) = read_message env"
    by (intro ext) (simp add: read_message_def cong: sum.case_cong)
  then have "reads_handshakes (env\<lparr>verify_password := \<lambda>_ _. True\<rparr>)" "writes_succeed (env\<lparr>verify_password := \<lambda>_ _. True\<rparr>)"
    using assms by (simp_all add: reads_handshakes_def reads_as_def writes_succeed_def)
  then show ?thesis by (rule authentication_tests_pass(3))
qed

section \<open>Sessions\<close>

definition achievement_id_7 :: uuid where
  "achievement_id_7 = 0x07070707070707070707070707070707"

definition audio_hash_9 :: data_hash where
  "audio_hash_9 = replicate 16 9"

fun fake_engine :: "'n engine_request \<Rightarrow> unit \<Rightarrow> server_message option \<times> unit" where
  "fake_engine (BloopRequest cid nfc) _ =
     (Some (BloopAccepted [\<lparr>record_id = achievement_id_7, audio_hash = Some audio_hash_9\<rparr>]), ())"
| "fake_engine (RetrieveAudio i) _ = (Some (AudioData [1, 2, 3]), ())"
| "fake_engine (PreloadCheck h) _ = (Some PreloadMatch, ())"

text \<open>The custom handler echoes the reversed text; its assertion on the client ends its task, which drops the
  sender of the answer.\<close>

definition echo_handler :: "client_id \<Rightarrow> string \<Rightarrow> unit \<Rightarrow> string custom_outcome option \<times> unit" where
  "echo_handler cid text _ =
     (if cid \<noteq> ''client'' then (None, ())
      else (Some (if text = ''fail'' then CustomError (CustomErrorCode 0x90) else CustomResponse (rev text)), ()))"

text \<open>The frames of the client after the authentication, with the messages they encode.\<close>

definition session_frames :: "'n \<Rightarrow> (u8 list \<times> ('n, string) client_message) list" where
  "session_frames nfc =
     [([0x05, 0, 0, 0, 0], Ping),
      ([0x08, 5, 0, 0, 0, 4, 1, 2, 3, 4], BloopMessage nfc),
      ([0x0a, 16, 0, 0, 0] @ uuid_bytes achievement_id_7, RetrieveAudioMessage achievement_id_7),
      ([0x0c, 1, 0, 0, 0, 0], PreloadCheckMessage None),
      ([0x80, 3, 0, 0, 0, 2] @ as_bytes ''hi'', Custom ''hi''),
      ([0x80, 5, 0, 0, 0, 4] @ as_bytes ''fail'', Custom ''fail''),
      ([0x07, 0, 0, 0, 0], Quit)]"

definition full_session_speaks_v3 :: "('raw, 'n, string, string, 'h) test_env \<Rightarrow> 'h \<Rightarrow> 'n \<Rightarrow> bool" where
  "full_session_speaks_v3 env secret_hash nfc =
     (let env = env\<lparr>engine_call := fake_engine, custom_call := Some echo_handler\<rparr>
      in case authenticate env (test_clients secret_hash) default_max_payload_len
             (map ReadFrame ([[0x01, 2, 0, 0, 0, 3, 3], build_authentication ''client'' ''secret'' localhost] @
                map fst (session_frames nfc))) [] of
           (AuthOk cid _ _, reads, out) \<Rightarrow>
             handle_connection env cid default_max_payload_len reads ((), ()) out =
               (Some (Inr ()), ((), ()),
                [OutServerHandshake 3, OutAuthenticationAccepted, OutPong,
                 OutMessage (BloopAccepted [\<lparr>record_id = achievement_id_7, audio_hash = Some audio_hash_9\<rparr>]),
                 OutMessage (AudioData [1, 2, 3]), OutMessage PreloadMatch, OutCustom ''ih'',
                 OutError (CustomErrorCode 0x90)])
         | _ \<Rightarrow> False)"

definition errors_map_to_the_owed_protocol_responses :: "'raw \<Rightarrow> bool" where
  "errors_map_to_the_owed_protocol_responses raw \<longleftrightarrow>
     error_response_of (UnexpectedMessageErr raw) = Some UnexpectedMessage \<and>
     error_response_of (MalformedMessageErr (UnknownOpcode 0xff) :: 'raw net_error) = Some MalformedMessage \<and>
     error_response_of (FrameErr PayloadTooLarge :: 'raw net_error) = Some MalformedMessage \<and>
     error_response_of (UnsupportedVersionErr 1 2 :: 'raw net_error) = Some UnsupportedVersionRange \<and>
     error_response_of (InvalidCredentialsErr :: 'raw net_error) = Some InvalidCredentials \<and>
     error_response_of (IoError :: 'raw net_error) = None \<and> error_response_of (OneshotErr :: 'raw net_error) = None"

definition unknown_opcode_is_answered_with_unexpected_message ::
  "('raw, 'n, 'req, 'res, 'h) test_env \<Rightarrow> bool" where
  "unknown_opcode_is_answered_with_unexpected_message env =
     (case handle_connection (env\<lparr>custom_call := None\<rparr>) ''client'' default_max_payload_len
             [ReadFrame [0xff, 0, 0, 0, 0]] ((), ()) [] of
        (Some (Inl (UnexpectedMessageErr _)), _, _) \<Rightarrow> True
      | _ \<Rightarrow> False)"

text \<open>The crate reads each frame as its message.\<close>

definition reads_session :: "('raw, 'n, string, string, 'h) test_env \<Rightarrow> 'n \<Rightarrow> bool" where
  "reads_session env nfc \<longleftrightarrow> list_all (\<lambda>(bytes, message). reads_as env bytes message) (session_frames nfc)"

lemma read_message_handlers:
  "read_message (env\<lparr>engine_call := e\<rparr>) = read_message env"
  "read_message (env\<lparr>custom_call := c\<rparr>) = read_message env"
  by (intro ext, simp add: read_message_def cong: sum.case_cong)+

lemma full_session_passes:
  assumes "reads_handshakes env" "reads_session env nfc" "writes_succeed env" "verify_password env ''secret'' h"
  shows "full_session_speaks_v3 env h nfc"
proof -
  have "reads_as env [0x01, 2, 0, 0, 0, 3, 3] (ClientHandshake 3 3)"
    unfolding handshake_bytes [symmetric] by (rule reads_authentication(4) [OF assms(1)])
  then show ?thesis
    using reads_authentication(2) [OF assms(1)] assms(2-4)
    by (simp add: full_session_speaks_v3_def authenticate_def auth_read_def reads_session_def session_frames_def
        reads_as_def read_message_handlers writes_succeed_def write_output_def auth_write_def test_clients_def engine_round_def
        echo_handler_def Let_def)
qed

lemma error_mapping_test_passes: "errors_map_to_the_owed_protocol_responses raw"
  by (simp add: errors_map_to_the_owed_protocol_responses_def)

lemma unknown_opcode_test_passes:
  assumes "read_frame env default_max_payload_len [0xff, 0, 0, 0, 0] = Inr raw" "decode env raw = Inl (UnknownOpcode 0xff)"
  shows "unknown_opcode_is_answered_with_unexpected_message env"
  using assms
  by (simp add: unknown_opcode_is_answered_with_unexpected_message_def read_message_def)

text \<open>A reader of the frames of the tests, for which the hypotheses hold.\<close>

definition demo_reader :: "(u8 list, nat, string, string, string) test_env" where
  "demo_reader =
     \<lparr>read_frame = (\<lambda>_ bytes. Inr bytes),
      decode = (\<lambda>raw. case map_of (auth_frames @ session_frames 0) raw of
                        None \<Rightarrow> Inl (UnknownOpcode (hd raw)) | Some message \<Rightarrow> Inr message),
      encode = (\<lambda>_. None), encode_request = (\<lambda>_. None), write_error = (\<lambda>_ _. None),
      write_stalls = (\<lambda>_ _. False), verify_password = (=), engine_call = fake_engine, custom_call = None\<rparr>"

lemma demo_reader_reads: "reads_handshakes demo_reader" "reads_session demo_reader 0"
  by code_simp+

lemma demo_reader_writes: "writes_succeed demo_reader" "verify_password demo_reader ''secret'' ''secret''"
  by (simp_all add: writes_succeed_def demo_reader_def)

end
