(* ===== verification/Tests_Health.thy ===== *)
theory Tests_Health
  imports Health_Monitor
begin

text \<open>
  The unit tests of \<open>health_monitor/mod.rs\<close>. They run on a paused clock: \<open>advance\<close> lets time pass, after which the ticks
  of the check interval that fell due are delivered in a burst, every 30 seconds from the start. The sender
  keeps the last report, and \<open>wait_for_report\<close> takes it.
\<close>

section \<open>The mock sender\<close>

type_synonym mock_sender = "(health_report \<times> bool) option"

definition mock_send :: "(mock_sender, unit) report_sender" where
  "mock_send report silent _ = (Inr (), Some (report, silent))"

definition wait_for_report :: "mock_sender health_monitor \<Rightarrow> (health_report \<times> bool) option \<times> mock_sender health_monitor" where
  "wait_for_report m = (hm_sender m, m\<lparr>hm_sender := None\<rparr>)"

text \<open>The monitor of a test listens in its task: \<open>listen\<close> starts with the report, and the branches the task takes are
  driven by the test.\<close>

definition spawn_listen :: "datetime \<Rightarrow> mock_sender health_builder \<Rightarrow> mock_sender health_monitor option" where
  "spawn_listen now b =
     (case health_build now b of Inl _ \<Rightarrow> None | Inr m \<Rightarrow> Some (send_report mock_send False m))"

definition drive :: "monitor_branch select_branch list \<Rightarrow> mock_sender health_monitor \<Rightarrow> mock_sender health_monitor" where
  "drive branches m = fst (event_loop (health_step mock_send) branches m)"

definition monitor_builder :: "client_id list \<Rightarrow> mock_sender health_builder" where
  "monitor_builder ids =
     health_builder_client_ids ids (health_builder_event_rx () (health_builder_sender None health_builder_new))"

definition advance :: "nat \<Rightarrow> nat \<Rightarrow> monitor_branch select_branch list" where
  "advance seconds ticks = Other (Elapse (from_secs seconds)) # replicate ticks (Other CheckTick)"

definition reported :: "(health_report \<times> bool) option \<Rightarrow> health option" where
  "reported r = (case r of
     None \<Rightarrow> None
   | Some (report, silent) \<Rightarrow> map_option cs_health (map_of (rep_clients report) ''client1''))"

text \<open>\<open>drop(tx)\<close> closes the channel, and the task then ends.\<close>

definition ends_on_drop :: "mock_sender health_monitor \<Rightarrow> bool" where
  "ends_on_drop m \<longleftrightarrow> \<not> snd (event_loop (health_step mock_send) [Recv (Inl Closed)] m)"

abbreviation connect1 :: "ip_addr \<Rightarrow> usize \<Rightarrow> monitor_branch select_branch" where
  "connect1 ip n \<equiv> Recv (Inr (ClientConnect ''client1'' n ip))"

abbreviation loss1 :: "usize \<Rightarrow> monitor_branch select_branch" where
  "loss1 n \<equiv> Recv (Inr (ClientConnectionLoss ''client1'' n))"

section \<open>The tests\<close>

definition sends_initial_report_on_start :: "datetime \<Rightarrow> bool" where
  "sends_initial_report_on_start now =
     (case spawn_listen now (monitor_builder []) of
        None \<Rightarrow> False
      | Some m \<Rightarrow> (case fst (wait_for_report m) of None \<Rightarrow> False | Some (_, silent) \<Rightarrow> \<not> silent))"

definition client_connect_sets_healthy :: "datetime \<Rightarrow> ip_addr \<Rightarrow> bool" where
  "client_connect_sets_healthy now ip =
     (case spawn_listen now (monitor_builder [''client1'']) of
        None \<Rightarrow> False
      | Some m \<Rightarrow>
          (let (initial, m) = wait_for_report m;
               m = drive [connect1 ip 1] m;
               (report, m) = wait_for_report m
           in initial \<noteq> None \<and> reported report = Some Healthy \<and> ends_on_drop m))"

definition client_disconnect_sets_offline_immediately :: "datetime \<Rightarrow> ip_addr \<Rightarrow> bool" where
  "client_disconnect_sets_offline_immediately now ip =
     (case spawn_listen now (monitor_builder [''client1'']) of
        None \<Rightarrow> False
      | Some m \<Rightarrow>
          (let (initial, m) = wait_for_report m;
               m = drive [connect1 ip 1] m;
               (connected, m) = wait_for_report m;
               m = drive [Recv (Inr (ClientDisconnect ''client1'' 1))] m;
               (report, m) = wait_for_report m
           in initial \<noteq> None \<and> connected \<noteq> None \<and> reported report = Some Offline \<and> ends_on_drop m))"

definition client_connection_loss_triggers_unstable_then_offline :: "datetime \<Rightarrow> ip_addr \<Rightarrow> bool" where
  "client_connection_loss_triggers_unstable_then_offline now ip =
     (case spawn_listen now (monitor_builder [''client1'']) of
        None \<Rightarrow> False
      | Some m \<Rightarrow>
          (let (initial, m) = wait_for_report m;
               m = drive [connect1 ip 1] m;
               (connected, m) = wait_for_report m;
               m = drive ([loss1 1, loss1 2, loss1 3] @ advance 30 1) m;
               (unstable, m) = wait_for_report m;
               m = drive (advance 120 4) m;
               (offline, m) = wait_for_report m
           in initial \<noteq> None \<and> connected \<noteq> None \<and> reported unstable = Some Unstable \<and>
              reported offline = Some Offline \<and> ends_on_drop m))"

definition client_recovers_from_unstable_after_recovery_grace_period :: "datetime \<Rightarrow> ip_addr \<Rightarrow> bool" where
  "client_recovers_from_unstable_after_recovery_grace_period now ip =
     (case spawn_listen now (health_builder_connection_loss_limit 1 (monitor_builder [''client1''])) of
        None \<Rightarrow> False
      | Some m \<Rightarrow>
          (let (initial, m) = wait_for_report m;
               m = drive [connect1 ip 1] m;
               (connected, m) = wait_for_report m;
               m = drive ([loss1 1] @ advance 30 1) m;
               (unstable, m) = wait_for_report m;
               m = drive ([connect1 ip 2] @ advance 1199 39) m;
               (none, m) = wait_for_report m;
               m = drive (advance 1 1) m;
               (healthy, m) = wait_for_report m
           in initial \<noteq> None \<and> connected \<noteq> None \<and> reported unstable = Some Unstable \<and> none = None \<and>
              reported healthy = Some Healthy \<and> ends_on_drop m))"

text \<open>Both intervals have a tick that is due after half an hour; which one is taken first is left open.\<close>

definition sends_reminder_reports_if_any_unhealthy :: "datetime \<Rightarrow> ip_addr \<Rightarrow> bool \<Rightarrow> bool" where
  "sends_reminder_reports_if_any_unhealthy now ip reminder_first =
     (case spawn_listen now (health_builder_connection_loss_limit 1 (monitor_builder [''client1''])) of
        None \<Rightarrow> False
      | Some m \<Rightarrow>
          (let (initial, m) = wait_for_report m;
               m = drive [connect1 ip 1] m;
               (connected, m) = wait_for_report m;
               m = drive ([loss1 1] @ advance 30 1) m;
               (unstable, m) = wait_for_report m;
               m = drive (if reminder_first then advance 1800 0 @ [Other ReminderTick] else advance 1800 1) m;
               (report, m) = wait_for_report m
           in initial \<noteq> None \<and> connected \<noteq> None \<and> reported unstable = Some Unstable \<and>
              report \<noteq> None \<and> reported report \<noteq> Some Healthy \<and> ends_on_drop m))"

definition client_goes_offline_after_grace_period :: "datetime \<Rightarrow> ip_addr \<Rightarrow> bool" where
  "client_goes_offline_after_grace_period now ip =
     (case spawn_listen now (monitor_builder [''client1'']) of
        None \<Rightarrow> False
      | Some m \<Rightarrow>
          (let (initial, m) = wait_for_report m;
               m = drive [connect1 ip 1] m;
               (healthy, m) = wait_for_report m;
               m = drive ([loss1 1] @ advance 120 4) m;
               (offline, m) = wait_for_report m
           in initial \<noteq> None \<and> reported healthy = Some Healthy \<and> reported offline = Some Offline \<and> ends_on_drop m))"

section \<open>They pass\<close>

text \<open>The states a test goes through: the builder's settings with a limit, the time, the status of the only
  client and the report that waits to be taken.\<close>

definition mon :: "nat \<Rightarrow> datetime \<Rightarrow> client_status \<Rightarrow> mock_sender \<Rightarrow> mock_sender health_monitor" where
  "mon limit t client s =
     \<lparr>hm_sender = s, hm_report = \<lparr>rep_clients = [(''client1'', client)]\<rparr>, hm_max_client_events = 50,
      hm_connection_loss_limit = limit, hm_check_interval = from_secs 30, hm_reminder_interval = from_secs 1800,
      hm_offline_grace_period = from_secs 120, hm_connection_loss_window = from_secs 600,
      hm_recovery_grace_period = from_secs 1200, hm_clock = t\<rparr>"

abbreviation report1 :: "client_status \<Rightarrow> bool \<Rightarrow> mock_sender" where
  "report1 client silent \<equiv> Some (\<lparr>rep_clients = [(''client1'', client)]\<rparr>, silent)"

definition check1 :: "nat \<Rightarrow> datetime \<Rightarrow> client_status \<Rightarrow> client_status \<times> nat \<times> nat" where
  "check1 limit t client = check_client (mon limit t client None) client"

definition after_check :: "client_status \<times> nat \<times> nat \<Rightarrow> mock_sender \<Rightarrow> mock_sender" where
  "after_check r s =
     (case r of (client, silent, alert) \<Rightarrow>
        if alert > 0 then report1 client False else if silent > 0 then report1 client True else s)"

lemmas health_build_simps = spawn_listen_def monitor_builder_def health_build_def health_builder_new_def
  health_builder_sender_def health_builder_event_rx_def health_builder_client_ids_def
  health_builder_connection_loss_limit_def health_report_new_def send_report_def mock_send_def

lemma spawn_mon:
  "spawn_listen now (monitor_builder [''client1'']) =
     Some (mon 3 now (client_status_default now) (report1 (client_status_default now) False))"
  "1 \<le> limit \<Longrightarrow> spawn_listen now (health_builder_connection_loss_limit limit (monitor_builder [''client1''])) =
     Some (mon limit now (client_status_default now) (report1 (client_status_default now) False))"
  by (simp_all add: health_build_simps mon_def)

lemma wait_mon: "wait_for_report (mon limit t client s) = (s, mon limit t client None)"
  by (simp add: wait_for_report_def mon_def)

lemma ends_mon: "ends_on_drop (mon limit t client s)"
  by (simp add: ends_on_drop_def)

lemma drive_mon:
  "drive [] m = m"
  "drive (connect1 ip n # bs) (mon limit t client s) =
     drive bs (mon limit t (client_connected (mon limit t client s) n ip client)
       (if cs_health client = Offline then report1 (client_connected (mon limit t client s) n ip client) True else s))"
  "drive (Recv (Inr (ClientDisconnect ''client1'' n)) # bs) (mon limit t client s) =
     (let client = push_event (mon limit t client s) Disconnect n (client\<lparr>cs_health := Offline, cs_since := t\<rparr>)
      in drive bs (mon limit t client (report1 client True)))"
  "drive (loss1 n # bs) (mon limit t client s) =
     drive bs (mon limit t (push_event (mon limit t client s) ConnectionLoss n client) s)"
  "drive (Other (Elapse d) # bs) (mon limit t client s) = drive bs (mon limit (t + int d) client s)"
  "drive (Other ReminderTick # bs) (mon limit t client s) =
     drive bs (mon limit t client (if cs_health client \<noteq> Healthy then report1 client False else s))"
  by (simp_all add: drive_def mon_def client_or_default_def set_client_def send_report_def mock_send_def
      send_reminder_def Let_def)

lemma drive_tick:
  "drive (Other CheckTick # bs) (mon limit t client s) =
     drive bs (mon limit t (fst (check1 limit t client)) (after_check (check1 limit t client) s))"
proof -
  have "check_client (mon limit t client s) client = check1 limit t client"
    by (simp add: check1_def check_client_def mon_def)
  then have "check_clients mock_send (mon limit t client s) =
      mon limit t (fst (check1 limit t client)) (after_check (check1 limit t client) s)"
    by (simp add: check_clients_def mon_def send_report_def mock_send_def after_check_def split: prod.split)
  then show ?thesis by (simp add: drive_def)
qed

text \<open>A burst of ticks does what its first does, when the second finds nothing to do.\<close>

lemma drive_idle:
  assumes "check1 limit t client = (client, 0, 0)"
  shows "drive (replicate n (Other CheckTick)) (mon limit t client s) = mon limit t client s"
  by (induction n) (simp_all add: drive_mon drive_tick assms after_check_def)

lemma drive_advance:
  assumes "check1 limit (t + int (from_secs secs)) client = (client', silent, alert)" "0 < n"
    and "check1 limit (t + int (from_secs secs)) client' = (client', 0, 0)"
  shows "drive (advance secs n) (mon limit t client s) =
    mon limit (t + int (from_secs secs)) client' (after_check (client', silent, alert) s)"
proof -
  from assms(2) obtain k where "n = Suc k" by (cases n) auto
  then show ?thesis
    using assms(1) drive_idle [OF assms(3)] by (simp add: advance_def drive_mon drive_tick)
qed

lemma mon_select:
  "hm_clock (mon limit t client s) = t" "hm_max_client_events (mon limit t client s) = 50"
  "hm_connection_loss_limit (mon limit t client s) = limit"
  "hm_offline_grace_period (mon limit t client s) = from_secs 120"
  "hm_connection_loss_window (mon limit t client s) = from_secs 600"
  "hm_recovery_grace_period (mon limit t client s) = from_secs 1200"
  by (simp_all add: mon_def)

lemmas status_simps = client_connected_def push_event_def mon_select check1_def check_client_def latest_event_def
  after_check_def client_status_default_def reported_def

lemmas run_simps = spawn_mon wait_mon ends_mon drive_mon drive_advance status_simps

lemma initial_report_test_passes: "sends_initial_report_on_start now"
  by (simp add: sends_initial_report_on_start_def health_build_simps wait_for_report_def)

lemma connect_test_passes: "client_connect_sets_healthy now ip"
  by (simp add: client_connect_sets_healthy_def run_simps del: not_None_eq)

lemma disconnect_test_passes: "client_disconnect_sets_offline_immediately now ip"
  by (simp add: client_disconnect_sets_offline_immediately_def run_simps Let_def del: not_None_eq)

lemma grace_period_test_passes: "client_goes_offline_after_grace_period now ip"
  by (simp add: client_goes_offline_after_grace_period_def run_simps del: not_None_eq)

lemma unstable_test_passes: "client_connection_loss_triggers_unstable_then_offline now ip"
  by (simp add: client_connection_loss_triggers_unstable_then_offline_def run_simps del: not_None_eq)

lemma recovery_test_passes: "client_recovers_from_unstable_after_recovery_grace_period now ip"
  by (simp add: client_recovers_from_unstable_after_recovery_grace_period_def run_simps del: not_None_eq)

lemma reminder_test_passes: "sends_reminder_reports_if_any_unhealthy now ip reminder_first"
  by (simp add: sends_reminder_reports_if_any_unhealthy_def run_simps advance_def drive_tick del: not_None_eq)

end
