(* ===== verification/Spec2Isabelle.thy ===== *)
theory Spec2Isabelle
  imports Subsystems Throttling Tests_Windows Tests_Numbers Tests_Engine Tests_Statistics Tests_Network Tests_Health
begin

text \<open>
  A model of the Bloop server framework (\<open>src/src\<close>) with the theorems that make it correct. A bloop server
  keeps players with NFC tags; boxes (clients) connect over TLS, scan a tag, and the server counts the
  scan (a bloop), evaluates achievements and tells the box what was awarded.

  \<^bold>\<open>Parts and how they interact.\<close> The network listener (\<open>network.rs\<close>) authenticates connections, turns client
  messages into engine requests and writes the answers. The engine (\<open>engine.rs\<close>) handles one request at a time
  over the player registry (\<open>player.rs\<close>), the bloop history (\<open>bloop.rs\<close>), the triggers (\<open>trigger.rs\<close>) and the
  achievements (\<open>achievement.rs\<close>) with their evaluators (\<open>evaluator/\<close>). Listener and engine broadcast events
  (\<open>event.rs\<close>); the bloop sink (\<open>bloop.rs\<close>) persists bloops from them, the statistics server (\<open>statistics.rs\<close>) counts
  them and the health monitor (\<open>health_monitor/\<close>) watches the clients. \<open>examples/simple\<close> wires these parts.

  \<^bold>\<open>Theories.\<close>
  \<^item> \<open>Prelude\<close>: names for the Rust types, the store behind \<open>Arc<RwLock<_>>\<close>, hash map operations, results, and
    the lemmas shared by the components.
  \<^item> \<open>Player\<close>: the player traits as a record of operations with the locale \<open>player_traits\<close> as their contract
    (interpreted for \<open>MockPlayer\<close> and the example's \<open>Player\<close>); the registry with both indexes. The locale
    \<open>player_directory\<close> is the map it implements. Lookups agree with the players registered, mutation moves the tag
    index; two findings on \<open>add\<close> and \<open>remove\<close>.
  \<^item> \<open>Bloop\<close>: collections with pruning, and the provider, which refines the list of all bloops added, cut to the
    retention window. \<open>Bloop_Sink\<close>: the batching sink over a repository (locale \<open>bloop_repository\<close>).
  \<^item> \<open>Event\<close>: events, and the locale \<open>event_consumer\<close> for the \<open>select!\<close> loops of the sink, the statistics
    server and the health monitor, each of which interprets it.
  \<^item> \<open>Trigger\<close>: activation and use of triggers, with their reachable states as an inductive predicate.
  \<^item> \<open>Achievement\<close>: builder, audio files, context, tracker, and the evaluator interface with the locales
    \<open>evaluator_api\<close> (what a Rust evaluator can do to the context) and \<open>result_evaluator\<close> (it awards through its
    result only). \<open>Evaluators\<close>, \<open>Time_Evaluator\<close> and \<open>Registration_Number\<close>: the evaluators of the
    framework, each interpreting \<open>result_evaluator\<close>, with what they award and when.
  \<^item> \<open>Message\<close>: the protocol messages. \<open>Engine\<close>: the handlers, the request loop, the builder and the manifest hash.
    \<open>Engine_Correct\<close>: one accepted or rejected scan. \<open>Engine_Run\<close>: any sequence of requests, and the builder.
    \<open>Engine_Interference\<close>: a scan while other tasks use the players; \<open>handle_bloop_with\<close> takes what they do at each
    lock the handler waits for, and is \<open>handle_bloop\<close> when they do nothing (\<open>handle_bloop_undisturbed\<close>). The step
    relation \<open>shared_step\<close> is what every task may do with the players, and what the engine itself does.
    \<open>Throttling\<close>: the throttle over a run, against the log of all accepted bloops.
  \<^item> \<open>Statistics\<close>: the minute ring, snapshots, the server's loop and its builder.
  \<^item> \<open>Network\<close>: reading, writing, authentication, the message loop, the task of a connection, accepting and
    the builder. The locale \<open>engine_port\<close> is what a connection relies on from the engine; this theory interprets it.
  \<^item> \<open>Server\<close>: many connections at once. A state holds the connection tasks and what they share; \<open>server_step\<close> is
    one step of the accept loop or of one task, and its reachable states are those of any interleaving. The code of
    a task is that of \<open>Network\<close>, read by read; the lemma \<open>stream_is_a_run\<close> ties the two renderings together.
  \<^item> \<open>Health_Monitor\<close>: statuses, text report, checks, reminders, events, builder and the Telegram sender.
  \<^item> \<open>Test_Utils\<close>: the fixtures of \<open>test_utils.rs\<close>. \<open>Simple_Example\<close>: the application of \<open>examples/simple\<close>, built
    with the builders above, and its first scan.
  \<^item> \<open>Subsystems\<close>: the \<open>run\<close> methods under a shutdown, a scan cut off by one, and listener and monitor together.
  \<^item> \<open>Tests_Core\<close>, \<open>Tests_Evaluators\<close>, \<open>Tests_Windows\<close>, \<open>Tests_Numbers\<close>, \<open>Tests_Engine\<close>, \<open>Tests_Statistics\<close>,
    \<open>Tests_Network\<close> and \<open>Tests_Health\<close>: the unit tests of the sources, each a predicate that runs the model as the test
    runs the code, with lemmas that the model passes them for every value of what a test draws at random or reads from
    the clock. They check the definitions against the code's own expectations.
  \<^item> This theory puts listener and engine together, for one connection and for many, and engine, sink and statistics.

  \<^bold>\<open>State and effects.\<close> A struct is a record and a method a function that returns the changed record. A Rust
  \<open>Result\<close> is a sum with the error on the left. A panic of the engine is \<open>None\<close> for the answer and ends the
  task. \<open>Utc::now()\<close> is an argument, one per reading where a handler reads it more than once, or the field
  \<open>hm_clock\<close> of the health monitor. Files, MD5, the integer square root, time zones, TLS, argon2, the wire
  format, JSON, the repository, the report sender and the application's predicates and handlers are parameters;
  theorems that need something of them name it as a hypothesis, and their witnesses instantiate it.

  \<^bold>\<open>Widths and bounds.\<close> Counters that can reach their bound are words (players' totals, the statistics'
  counters, connection IDs, registration numbers); theorems about them say modulo what they hold or bound the
  input. Sizes, limits and durations are natural numbers. No loop needs fuel: all are structural or have a
  termination proof, and loops over a channel or a socket run over the list of what they receive, with a
  result that says whether they wait for more.

  \<^bold>\<open>What is shown.\<close> An accepted scan counts once, awards exactly what the evaluators and the hot achievements
  give and the player did not have, answers with it, records the bloop and sends two events; a rejected scan
  changes nothing. Over any requests no award is lost and totals match the events, and the throttle bounds how often a
  player scans in a row at a client. The preload
  manifest stays true, and the builder delivers an engine with its invariant. While other tasks use the players no
  award is lost either, but the time of an award stored between the engine's check and its own award is
  overwritten. Only authenticated clients reach the engine, each message gets its answer in order, and
  an engine with evaluators that award through their result never drops one. However connections interleave, each
  leaves a bracketed session, the engine handles one sequence of requests, and every counted bloop comes from an
  authenticated client. The sink loses no bloop,
  except in a shutdown during a flush or when the repository refuses the last batch; the statistics count what they receive; the totals of players, sink
  and statistics agree. The health monitor reports changes, takes lost clients offline and keeps connected ones
  online, except that the disconnect of an old connection hides a new one, and that a client that authenticates
  on an older stream than the one it lost is taken offline. Every subsystem ends exactly on a shutdown, when its
  channel is closed, or on its error (the statistics server drops the error of binding its address); a shutdown in the middle of a scan can leave it counted and nothing else.

  \<^bold>\<open>Idealisations.\<close> A \<open>HashMap\<close> whose values are iterated (the engine's achievements) is an association list
  in insertion order, where the order of the code is arbitrary; this shows only in the order of the evaluations
  and of the preload records. The monitor's clock does not step back. Arithmetic that overflows panics where a build
  without overflow checks wraps. A message is written as a whole or not at all, and the lock on the client
  registry is taken at once, so that the authentication timeout strikes at a read or a write.

  \<^bold>\<open>Not modelled.\<close> The wire format (\<open>message.rs\<close> only re-exports the \<open>bloop_protocol\<close> crate), HTTP parsing and
  serialisation, logging and \<open>Debug\<close>, the thread schedule inside tokio (channels are lists in the order of
  delivery; tasks interleave at the steps of \<open>Server\<close> and at the locks of \<open>Engine_Interference\<close>, not inside a
  critical section), the start of the subsystems in \<open>examples/simple/main.rs\<close>, and of the unit tests the one
  on the encoding of error frames.
\<close>

section \<open>The engine behind the listener\<close>

text \<open>The round trip of a request over the engine's channel: the engine's task, unless it has panicked, first
  processes the requests that other connections sent before, then this one. A task that is gone drops the
  answer's sender. What the handling reads of the world comes from \<open>world\<close>, per request.\<close>

record 'n engine_world =
  others :: "'n request_input list"
  world_clock :: clock
  world_fs :: "path \<Rightarrow> u8 list option"
  world_fs_task :: "path \<Rightarrow> u8 list option"

definition engine_service ::
  "(u8 list \<Rightarrow> data_hash) \<Rightarrow> ('p, 'n) player_ops \<Rightarrow> (nat \<Rightarrow> 'n engine_world) \<Rightarrow> 'n engine_request \<Rightarrow>
   ('m, 'p, 's, 'n, 't) engine option \<times> nat \<Rightarrow>
   server_message option \<times> ('m, 'p, 's, 'n, 't) engine option \<times> nat" where
  "engine_service md5 ops world req es =
     (case es of
        (None, n) \<Rightarrow> (None, None, Suc n)
      | (Some e, n) \<Rightarrow>
          (let w = world n;
               inp = \<lparr>request = req, input_clock = world_clock w, input_fs = world_fs w, input_fs_task = world_fs_task w\<rparr>
           in case process_requests md5 ops (others w) e of
                (_, e, False) \<Rightarrow> (None, None, Suc n)
              | (_, e, True) \<Rightarrow>
                  (case handle_request md5 ops inp e of
                     (None, e) \<Rightarrow> (None, None, Suc n)
                   | (Some response, e) \<Rightarrow> (Some response, Some e, Suc n))))"

text \<open>An engine that is alive, keeps its invariant and has evaluators that award through their result.\<close>

definition engine_alive :: "('p, 'n) player_ops \<Rightarrow> ('m, 'p, 's, 'n, 't) engine option \<times> nat \<Rightarrow> bool" where
  "engine_alive ops es \<longleftrightarrow> (\<exists>e. fst es = Some e \<and> engine_wf ops e \<and> awards_by_result e)"

lemma engine_service_alive:
  assumes "player_traits ops" "engine_alive ops es"
  shows "fst (engine_service md5 ops world req es) \<noteq> None \<and> engine_alive ops (snd (engine_service md5 ops world req es))"
proof -
  obtain e n where es: "es = (Some e, n)" "engine_wf ops e" "awards_by_result e"
    using assms(2) by (cases es) (auto simp: engine_alive_def)
  obtain rs e1 alive where run: "process_requests md5 ops (others (world n)) e = (rs, e1, alive)" by (rule prod_cases3)
  have 1: "engine_wf ops e1" "awards_by_result e1" alive
    using process_requests_safe [OF assms(1) es(2), of md5 "others (world n)"] es(3) by (simp_all add: run)
  let ?inp = "\<lparr>request = req, input_clock = world_clock (world n), input_fs = world_fs (world n),
      input_fs_task = world_fs_task (world n)\<rparr>"
  obtain r e2 where step: "handle_request md5 ops ?inp e1 = (r, e2)" by fastforce
  have 2: "engine_wf ops e2" "awards_by_result e2" "r \<noteq> None"
    using handle_request_safe [OF assms(1) 1(1), of md5 ?inp] 1(2) unfolding step by simp_all
  then obtain m where "r = Some m" by blast
  then have "engine_service md5 ops world req es = (Some m, Some e2, Suc n)"
    using run 1(3) step unfolding engine_service_def es(1) by (simp del: handle_request.simps)
  with 2 show ?thesis by (simp add: engine_alive_def)
qed

lemma engine_service_port:
  "player_traits ops \<Longrightarrow> engine_port (engine_service md5 ops world) (engine_alive ops)"
  using engine_service_alive by unfold_locales blast+

interpretation mock_engine: engine_port "engine_service md5 mock_player_ops world" "engine_alive mock_player_ops" for md5 world
  by (rule engine_service_port [OF mock.player_traits_axioms])

interpretation example_engine: engine_port "engine_service md5 example_player_ops world" "engine_alive example_player_ops" for md5 world
  by (rule engine_service_port [OF example.player_traits_axioms])

section \<open>Events on their way\<close>

text \<open>The events a receiver gets from the broadcast channel, and the bloops among a list of events.\<close>

fun delivered :: "'k select_branch list \<Rightarrow> event list" where
  "delivered [] = []"
| "delivered (Recv (Inr ev) # is) = ev # delivered is"
| "delivered (i # is) = delivered is"

fun bloops_in :: "event list \<Rightarrow> processed_bloop list" where
  "bloops_in [] = []"
| "bloops_in (BloopProcessed b # evs) = b # bloops_in evs"
| "bloops_in (ev # evs) = bloops_in evs"

lemma received_bloops_delivered: "received_bloops is = bloops_in (delivered is)"
  by (induction "is" rule: received_bloops.induct) simp_all

lemma delivered_all: "delivered (map (Recv \<circ> Inr) evs) = evs" "Recv (Inl Closed) \<notin> set (map (Recv \<circ> Inr) evs)"
  by (induction evs) auto

lemma before_close_open: "Recv (Inl Closed) \<notin> set is \<Longrightarrow> before_close is = is"
  by (induction "is") auto

lemma bloops_in_player: "length (filter (processed_by i) evs) = length (filter (\<lambda>b. pb_player_id b = i) (bloops_in evs))"
  by (induction evs rule: bloops_in.induct) (simp_all add: processed_by_def)

lemma fold_record_total:
  "stats_total_bloops (fold (client_record_bloop tz) bs st) = stats_total_bloops st + of_nat (length bs)"
  by (induction bs arbitrary: st) (simp_all add: client_record_bloop_def Let_def)

definition stats_total :: "'a statistics_server \<Rightarrow> client_id \<Rightarrow> u64" where
  "stats_total srv cid =
     (case map_of (tracker_clients (server_stats srv)) cid of None \<Rightarrow> 0 | Some st \<Rightarrow> stats_total_bloops st)"

section \<open>The engine behind many connections\<close>

fun world_inputs :: "(nat \<Rightarrow> 'n engine_world) \<Rightarrow> nat \<Rightarrow> 'n engine_request list \<Rightarrow> 'n request_input list" where
  "world_inputs world n [] = []"
| "world_inputs world n (req # reqs) =
     \<lparr>request = req, input_clock = world_clock (world n), input_fs = world_fs (world n),
      input_fs_task = world_fs_task (world n)\<rparr> # world_inputs world (Suc n) reqs"

lemma requests_world_inputs [simp]: "map request (world_inputs world n reqs) = reqs"
  by (induction reqs arbitrary: n) simp_all

lemma run_engine_dead:
  "engine_call env = engine_service md5 ops world \<Longrightarrow> fst (run_engine env reqs (None, n)) = None"
  by (induction reqs arbitrary: n) (simp_all add: run_engine_def engine_service_def)

lemma run_engine_service:
  assumes "engine_call env = engine_service md5 ops world" "\<And>n. others (world n) = []"
    and "process_requests md5 ops (world_inputs world n reqs) e = (rs, e', alive)"
  shows "fst (run_engine env reqs (Some e, n)) = (if alive then Some e' else None)"
  using assms(3)
proof (induction reqs arbitrary: e n rs e' alive)
  case (Cons req reqs)
  let ?inp = "hd (world_inputs world n (req # reqs))"
  obtain r e1 where step: "handle_request md5 ops ?inp e = (r, e1)" by fastforce
  have call: "engine_service md5 ops world req (Some e, n) =
      (case r of None \<Rightarrow> (None, None, Suc n) | Some m \<Rightarrow> (Some m, Some e1, Suc n))"
    using step unfolding engine_service_def by (simp add: assms(2) Let_def del: handle_request.simps split: option.split)
  show ?case
  proof (cases r)
    case None
    with Cons.prems step have "\<not> alive" by (simp del: handle_request.simps)
    then show ?thesis using None call run_engine_dead [OF assms(1), of reqs "Suc n"]
      by (simp add: run_engine_def assms(1))
  next
    case (Some m)
    obtain rs1 e2 alive1 where rest: "process_requests md5 ops (world_inputs world (Suc n) reqs) e1 = (rs1, e2, alive1)"
      by (rule prod_cases3)
    with Cons.prems step Some have "e2 = e'" "alive1 = alive" by (simp_all del: handle_request.simps)
    then show ?thesis using Cons.IH [OF rest] Some call by (simp add: run_engine_def assms(1))
  qed
qed (simp add: run_engine_def)

lemma bloops_in_append [simp]: "bloops_in (xs @ ys) = bloops_in xs @ bloops_in ys"
  by (induction xs rule: bloops_in.induct) simp_all

lemma handle_request_clients:
  "\<exists>evs. event_tx (snd (handle_request md5 ops inp e)) = event_tx e @ evs \<and>
     (\<forall>b \<in> set (bloops_in evs). \<exists>nfc. request inp = BloopRequest (pb_client_id b) nfc)"
proof (cases "request inp")
  case (BloopRequest cid nfc)
  show ?thesis
  proof (cases "\<exists>a. admitted ops (input_clock inp) nfc cid e a")
    case True
    then obtain a where "admitted ops (input_clock inp) nfc cid e a" ..
    with BloopRequest show ?thesis
      by (simp add: handle_bloop_admitted accept_bloop_eq Let_def processed_bloop_from_def)
  next
    case False
    with BloopRequest handle_bloop_not_admitted [of ops "input_clock inp" nfc cid e md5 "input_fs inp"]
    show ?thesis by fastforce
  qed
next
  case (RetrieveAudio i)
  then show ?thesis
    by (auto simp: handle_retrieve_audio_def Let_def split: option.split prod.split)
next
  case (PreloadCheck h)
  then show ?thesis by (auto simp: handle_preload_check_def)
qed

lemma process_requests_clients:
  "\<exists>evs. event_tx (fst (snd (process_requests md5 ops inps e))) = event_tx e @ evs \<and>
     (\<forall>b \<in> set (bloops_in evs). \<exists>nfc. BloopRequest (pb_client_id b) nfc \<in> request ` set inps)"
proof (induction inps arbitrary: e)
  case (Cons inp inps)
  obtain r e1 where step: "handle_request md5 ops inp e = (r, e1)" by fastforce
  obtain evs1 where 1: "event_tx e1 = event_tx e @ evs1"
    "\<forall>b \<in> set (bloops_in evs1). \<exists>nfc. request inp = BloopRequest (pb_client_id b) nfc"
    using handle_request_clients [of md5 ops inp e] unfolding step by auto
  obtain evs2 where 2: "event_tx (fst (snd (process_requests md5 ops inps e1))) = event_tx e1 @ evs2"
    "\<forall>b \<in> set (bloops_in evs2). \<exists>nfc. BloopRequest (pb_client_id b) nfc \<in> request ` set inps"
    using Cons.IH [of e1] by blast
  show ?case
  proof (cases r)
    case None
    with 1 step show ?thesis
      by (intro exI [of _ evs1]) (fastforce simp del: handle_request.simps)
  next
    case (Some m)
    with 1 2 step show ?thesis
      by (intro exI [of _ "evs1 @ evs2"]) (fastforce simp: case_prod_beta Let_def simp del: handle_request.simps)
  qed
qed simp

text \<open>A bloop request in the history was sent by a connection that had authenticated as its client.\<close>

lemma bloop_request_authenticated:
  assumes "server_wf s" "length (connections s) \<le> 2 ^ 64" "EngineCall i (BloopRequest cid nfc) \<in> set (history s)"
  shows "\<exists>ip. Broadcast (ClientConnect cid i ip) \<in> set (history s)"
proof -
  let ?k = "unat i"
  have i: "i = of_nat ?k" by simp
  have bound: "?k < 2 ^ 64" using unsigned_less [of i] by simp
  have mem: "EngineCall i (BloopRequest cid nfc) \<in> set (session i s)" using assms(3) by (simp add: session_def)
  then have "session (of_nat ?k) s \<noteq> []" using i by auto
  with assms(1,2) bound have k: "?k < length (connections s)" unfolding server_wf_def by (metis not_le_imp_less)
  then have wf: "session_wf i (conn_phase (connections s ! ?k)) (session i s)"
    using server_wfD(2) [OF assms(1) k assms(2)] i by simp
  have "\<exists>ip. Broadcast (ClientConnect cid i ip) \<in> set (session i s)"
  proof (cases "conn_phase (connections s ! ?k)")
    case Accepted
    with wf mem show ?thesis by simp
  next
    case (Serving cid')
    with wf mem show ?thesis by (fastforce simp: opened_def list_all_iff)
  next
    case Finished
    with wf mem show ?thesis by (fastforce simp: closed_by_def opened_def list_all_iff)
  qed
  then show ?thesis by (auto simp: session_def)
qed

lemma engine_calls_iff: "req \<in> set (engine_calls acts) \<longleftrightarrow> (\<exists>i. EngineCall i req \<in> set acts)"
  by (induction acts rule: engine_calls.induct) auto

section \<open>Properties\<close>

text \<open>C15: A healthy engine never drops the answer of a request, so no connection is lost on its account. When
  the player implementation keeps the contract of the traits, the engine's invariant holds at the start, its
  evaluators award through their result, and the application's handler of custom requests, if there is one,
  answers every request it is given, then no sequence of messages of any authenticated client, with any
  requests of other connections in between, ends a connection with a dropped answer, and the engine is
  alive with its invariant afterwards.\<close>

theorem engine_keeps_connections:
  fixes env :: "('f, 'raw, 'n, 'req, 'res, ('m, 'p, 's, 'n, 't) engine option \<times> nat, 'cs, 'h) net_env"
  assumes "player_traits ops" "engine_call env = engine_service md5 ops world"
    and "\<And>handler cid c cs. custom_call env = Some handler \<Longrightarrow> fst (handler cid c cs) \<noteq> None"
    and "engine_wf ops e" "awards_by_result e"
  shows "(let (r, st', out') = handle_connection env cid mpl reads ((Some e, n), cs) out
          in r \<noteq> Some (Inl OneshotErr) \<and>
             (\<exists>e'. fst (fst st') = Some e' \<and> engine_wf ops e' \<and> awards_by_result e'))"
proof -
  have "engine_alive ops (Some e, n)" using assms(4,5) by (simp add: engine_alive_def)
  moreover have "custom_answers env" using assms(3) by (simp add: custom_answers_def)
  ultimately show ?thesis
    using engine_port.connection_ok [OF engine_service_port [OF assms(1)] assms(2), of "((Some e, n), cs)"]
    by (simp add: case_prod_beta engine_alive_def)
qed

text \<open>The example environment of the network theory with the example engine behind it; another client's bloop is
  processed before each request.\<close>

definition demo_world :: "nat \<Rightarrow> nat engine_world" where
  "demo_world n = \<lparr>others = [demo_request 40 (BloopRequest ''d'' 20)], world_clock = demo_clock 50, world_fs = demo_fs,
     world_fs_task = demo_fs\<rparr>"

theorem engine_keeps_connections_witness:
  "fst (handle_connection
     \<lparr>read_frame = (\<lambda>mpl f. Inr f), decode = Inr, encode = Some, encode_request = (\<lambda>c::unit. Some (Custom c)),
      write_error = (\<lambda>n (m::unit net_output). None), write_stalls = (\<lambda>n m. False), verify_password = (\<lambda>secret h::string. secret = h),
      engine_call = engine_service demo_md5 mock_player_ops demo_world,
      custom_call = Some (\<lambda>cid c n. (Some (CustomResponse c), Suc n))\<rparr>
     ''c'' 100 [ReadFrame (BloopMessage 10), ReadFrame (Custom ()), ReadFrame (PreloadCheckMessage None)]
     ((Some (demo_engine [demo_award_self]), 0), 0) []) \<noteq> Some (Inl OneshotErr)"
  by (rule engine_keeps_connections [OF mock.player_traits_axioms _ _ demo_engine_wf demo_engine_result,
        unfolded Let_def case_prod_beta, THEN conjunct1]) auto

text \<open>C2: However the connections are interleaved, the server behaves like the engine's loop on one sequence of
  requests, and every bloop it counts comes from an authenticated client. When no requests but those of the
  server's connections reach the engine, and nothing else changes the players between requests, the requests
  of all connections, in the order the engine received them, are what \<open>process_requests\<close> processes: the engine is
  in the state that leaves, or gone if that panicked. It does not panic, and then answers every request, if the
  player implementation keeps its contract, the invariant holds at the start and the evaluators award through
  their result. In any case, for every bloop among the events the engine has sent, a connection has
  authenticated as the bloop's client and announced it with \<open>ClientConnect\<close>.\<close>

theorem counted_bloops_are_authenticated:
  fixes env :: "('f, 'raw, 'n, 'req, 'res, ('m, 'p, 's, 'n, 't) engine option \<times> nat, 'cs, 'h) net_env"
  assumes "engine_call env = engine_service md5 ops world" "\<And>n. others (world n) = []"
    and "server_run env mpl (server_new clients ((Some e, 0), cs)) s" "length (connections s) \<le> 2 ^ 64"
  shows "\<exists>inps responses e' alive evs. map request inps = engine_calls (history s) \<and>
    process_requests md5 ops inps e = (responses, e', alive) \<and>
    fst (fst (handlers s)) = (if alive then Some e' else None) \<and>
    (player_traits ops \<and> engine_wf ops e \<and> awards_by_result e \<longrightarrow> alive \<and> length responses = length inps) \<and>
    event_tx e' = event_tx e @ evs \<and>
    (\<forall>b \<in> set (bloops_in evs). \<exists>i ip. Broadcast (ClientConnect (pb_client_id b) i ip) \<in> set (history s))"
proof -
  let ?inps = "world_inputs world 0 (engine_calls (history s))"
  obtain rs e' alive where run: "process_requests md5 ops ?inps e = (rs, e', alive)" by (rule prod_cases3)
  have state: "fst (fst (handlers s)) = (if alive then Some e' else None)"
    using server_run_engine [OF assms(3)] run_engine_service [OF assms(1,2) run] by simp
  have wf: "server_wf s" using server_run_wf [OF assms(3) server_wf_new] .
  have safe: "alive \<and> length rs = length ?inps" if "player_traits ops" "engine_wf ops e" "awards_by_result e"
    using process_requests_safe [OF that(1,2), of md5 ?inps] that(3) run by simp
  obtain evs where evs: "event_tx e' = event_tx e @ evs"
    "\<forall>b \<in> set (bloops_in evs). \<exists>nfc. BloopRequest (pb_client_id b) nfc \<in> request ` set ?inps"
    using process_requests_clients [of md5 ops ?inps e] run by auto
  have "request ` set ?inps = set (engine_calls (history s))"
    by (metis list.set_map requests_world_inputs)
  then have "\<exists>i ip. Broadcast (ClientConnect (pb_client_id b) i ip) \<in> set (history s)" if "b \<in> set (bloops_in evs)" for b
    using evs(2) that bloop_request_authenticated [OF wf assms(4)] by (fastforce simp: engine_calls_iff)
  with run state safe evs(1) show ?thesis
    by (intro exI [of _ ?inps] exI [of _ rs] exI [of _ e'] exI [of _ alive] exI [of _ evs]) simp
qed

definition quiet_world :: "nat \<Rightarrow> nat engine_world" where
  "quiet_world n = \<lparr>others = [], world_clock = demo_clock 50, world_fs = demo_fs, world_fs_task = demo_fs\<rparr>"

definition quiet_env ::
  "((nat, unit) client_message, (nat, unit) client_message, nat, unit, unit,
    (unit, nat mock_player, unit, nat, nat) engine option \<times> nat, unit, string) net_env" where
  "quiet_env =
     \<lparr>read_frame = (\<lambda>mpl f. Inr f), decode = Inr, encode = Some, encode_request = (\<lambda>c. Some (Custom c)),
      write_error = (\<lambda>n m. None), write_stalls = (\<lambda>n m. False), verify_password = (\<lambda>secret h. secret = h),
      engine_call = engine_service demo_md5 mock_player_ops quiet_world, custom_call = None\<rparr>"

theorem counted_bloops_are_authenticated_witness:
  "\<exists>inps responses e'. map request inps = [BloopRequest ''c'' 10] \<and>
     process_requests demo_md5 mock_player_ops inps (demo_engine [demo_award_self]) = (responses, e', True)"
proof -
  let ?env = quiet_env
  let ?s1 = "accept_stream (server_new [''c'' \<mapsto> ''pw''] ((Some (demo_engine [demo_award_self]), 0), ()))"
  let ?reads = "[ReadFrame (ClientHandshake 3 3), ReadFrame (Authentication ''c'' ''pw'' (V4 1))]"
  let ?s2 = "authenticate_stream ?env 100 0 ?reads ?s1"
  let ?s3 = "serve_stream ?env 100 0 ''c'' (ReadFrame (BloopMessage 10)) ?s2"
  have s1: "connections ?s1 = [\<lparr>conn_number = 0, conn_phase = Accepted, conn_out = []\<rparr>]"
    "registered ?s1 = [''c'' \<mapsto> ''pw'']" "history ?s1 = []"
    by (simp_all add: accept_stream_def server_new_def)
  have auth: "authenticate ?env [''c'' \<mapsto> ''pw''] 100 ?reads [] =
      (AuthOk ''c'' (V4 1) 3, [], [OutServerHandshake 3, OutAuthenticationAccepted])"
    by (simp add: authenticate_def auth_read_def read_message_def write_output_def auth_write_def quiet_env_def)
  have s2: "connections ?s2 = [\<lparr>conn_number = 0, conn_phase = Serving ''c'',
      conn_out = [OutServerHandshake 3, OutAuthenticationAccepted]\<rparr>]" "engine_calls (history ?s2) = []"
    by (simp_all add: authenticate_stream_def s1 auth Let_def)
  have "server_step ?env 100 ?s1 ?s2" by (rule server_step.auth) (simp_all add: s1 auth)
  moreover have "server_step ?env 100 ?s2 ?s3" by (rule server_step.serve) (simp_all add: s2)
  ultimately have run: "server_run ?env 100 (server_new [''c'' \<mapsto> ''pw''] ((Some (demo_engine [demo_award_self]), 0), ())) ?s3"
    by (meson rtranclp.rtrancl_into_rtrancl rtranclp.rtrancl_refl server_step.accept)
  have calls: "engine_calls (history ?s3) = [BloopRequest ''c'' 10]"
    by (simp only: serve_stream_engine(2) s2(2)) (simp add: read_message_def quiet_env_def)
  have world: "engine_call ?env = engine_service demo_md5 mock_player_ops quiet_world" "\<And>n. others (quiet_world n) = []"
    by (simp_all add: quiet_env_def quiet_world_def)
  have len: "length (connections ?s3) \<le> 2 ^ 64"
    by (auto simp: serve_stream_def s2 Let_def split: prod.split option.split sum.split)
  have start: "player_traits mock_player_ops \<and> engine_wf mock_player_ops (demo_engine [demo_award_self]) \<and>
      awards_by_result (demo_engine [demo_award_self])"
    by (simp add: mock.player_traits_axioms demo_engine_wf demo_engine_result)
  from counted_bloops_are_authenticated [OF world run len] show ?thesis
    unfolding calls by (elim exE conjE) (use start in \<open>metis (full_types)\<close>)
qed

text \<open>C1: The three places that count bloops agree. Let the engine process any requests and let the sink and the
  statistics server, both starting empty, receive exactly the events the engine sent, in order, between
  any timer ticks and connections of their own. Then every player's total has grown by the number of
  that player's bloops that the sink has stored or still buffers, and for every client the total of the
  statistics is the number of that client's bloops there (each modulo the width of the counter).\<close>

theorem totals_agree_across_components:
  fixes srv :: "'a statistics_server"
  assumes "player_traits ops" "engine_wf ops e" "process_requests md5 ops inps e = (responses, e', alive)"
    and "event_tx e' = event_tx e @ evs"
    and "bloop_repository persist stored" "stored (repository s) @ buffer s = []"
    and "delivered sink_branches = evs" "Recv (Inl Closed) \<notin> set sink_branches"
    and "tracker_clients (server_stats srv) = []"
    and "delivered stats_branches = evs" "Recv (Inl Closed) \<notin> set stats_branches"
  shows "(let s' = fst (process_events persist sink_branches s); kept = stored (repository s') @ buffer s'
          in (\<forall>i p. read_by_id (player_registry e) i = Some p \<longrightarrow>
                (\<exists>q. read_by_id (player_registry e') i = Some q \<and>
                   total_bloops ops q = total_bloops ops p + of_nat (length (filter (\<lambda>b. pb_player_id b = i) kept)))) \<and>
             (\<forall>cid. stats_total (snd (stats_listen None stats_branches srv)) cid =
                of_nat (length (filter (\<lambda>b. pb_client_id b = cid) kept))))"
proof -
  let ?s' = "fst (process_events persist sink_branches s)"
  have kept: "stored (repository ?s') @ buffer ?s' = bloops_in evs"
    using bloop_repository.kept_loop [OF assms(5), of sink_branches s] assms(6,7,8)
    by (simp add: bloop_repository.kept_def [OF assms(5)] before_close_open received_bloops_delivered)
  have "evolves ops e e'" using process_requests_safe [OF assms(1,2), of md5 inps] assms(3) by simp
  then have players: "\<forall>i p. read_by_id (player_registry e) i = Some p \<longrightarrow>
      (\<exists>q. read_by_id (player_registry e') i = Some q \<and>
         total_bloops ops q = total_bloops ops p + of_nat (length (filter (\<lambda>b. pb_player_id b = i) (bloops_in evs))))"
    unfolding evolves_def assms(4) same_append_eq bloops_in_player by blast
  have "stats_total (snd (stats_listen None stats_branches srv)) cid =
      of_nat (length (filter (\<lambda>b. pb_client_id b = cid) (bloops_in evs)))" for cid
    using assms(9-11)
    by (simp add: stats_total_def stats_loop_clients tracker_fold_record of_client_pb_def fold_record_total
        before_close_open received_bloops_delivered client_stats_new_def)
  with players show ?thesis unfolding Let_def kept by blast
qed

theorem totals_agree_across_components_witness:
  "\<exists>evs. event_tx (fst (snd (process_requests demo_md5 mock_player_ops [demo_request 50 (BloopRequest ''c'' 10)]
        (demo_engine [demo_award_self])))) = event_tx (demo_engine [demo_award_self]) @ evs \<and>
     stats_total (snd (stats_listen None (map (Recv \<circ> Inr) evs) demo_server)) ''c'' =
       of_nat (length (filter (\<lambda>b. pb_client_id b = ''c'')
         (concat (sent_batches (repository (fst (process_events dummy_persist_batch (map (Recv \<circ> Inr) evs) (demo_sink False))))) @
          buffer (fst (process_events dummy_persist_batch (map (Recv \<circ> Inr) evs) (demo_sink False))))))"
proof -
  obtain rs e' alive where run: "process_requests demo_md5 mock_player_ops [demo_request 50 (BloopRequest ''c'' 10)]
      (demo_engine [demo_award_self]) = (rs, e', alive)" by (rule prod_cases3)
  then obtain evs where evs: "event_tx e' = event_tx (demo_engine [demo_award_self]) @ evs"
    using process_requests_safe [OF mock.player_traits_axioms demo_engine_wf, of demo_md5
        "[demo_request 50 (BloopRequest ''c'' 10)]"] by (auto simp: evolves_def)
  have start: "(concat \<circ> sent_batches) (repository (demo_sink False)) @ buffer (demo_sink False) = []"
    "tracker_clients (server_stats demo_server) = []"
    by (simp_all add: demo_sink_def demo_server_def stats_tracker_new_def)
  show ?thesis
    using totals_agree_across_components [OF mock.player_traits_axioms demo_engine_wf run evs
        dummy_repo.bloop_repository_axioms start(1) delivered_all start(2) delivered_all] evs
    unfolding run Let_def by auto
qed

end
